(* ===== verification/XF_Prelude.thy ===== *)
theory XF_Prelude
  imports Main "HOL-Library.Word"
begin

text \<open>
  Shared material of the development: the machine types of the C++ code, the failures a C++
  function can end with, the result type that carries the messages a function reports before it
  returns, fixed-size C arrays, and closed intervals of 64-bit addresses.
\<close>

named_theorems xf_defs \<open>definitions that component proofs unfold\<close>
named_theorems icl_at \<open>how an interval container operation changes the content at one address\<close>
named_theorems icl_inv \<open>interval container operations keep the container invariant\<close>

section \<open>Machine types\<close>

type_synonym addr_t = "64 word"
type_synonym sz_t = "64 word"
type_synonym timestamp_t = int

section \<open>Failures and results\<close>

text \<open>
  A C++ function returns normally, or ends in a failed \<open>assert\<close>, in undefined behaviour (an
  index out of the array, an overflowing signed increment), in \<open>abort\<close> (the macro
  \<open>ERR\<close>), in an uncaught exception, or in \<open>exit\<close>.
\<close>

datatype xf_fail =
    AssertFail string
  | UB string
  | Abort string
  | Throw string
  | Exit int

text \<open>A normal return carries the result and the messages reported on the way, in order.\<close>

type_synonym ('e, 'a) outcome = "xf_fail + ('a \<times> 'e list)"

definition xret :: "'a \<Rightarrow> ('e, 'a) outcome" where
  "xret x = Inr (x, [])"

fun xbind :: "('e, 'a) outcome \<Rightarrow> ('a \<Rightarrow> ('e, 'b) outcome) \<Rightarrow> ('e, 'b) outcome" where
  "xbind (Inl f) k = Inl f"
| "xbind (Inr (x, es)) k =
     (case k x of Inl f \<Rightarrow> Inl f | Inr (y, es') \<Rightarrow> Inr (y, es @ es'))"

definition xemit :: "'e list \<Rightarrow> ('e, 'a) outcome \<Rightarrow> ('e, 'a) outcome" where
  "xemit es m = xbind (Inr ((), es)) (\<lambda>_. m)"

definition xassert :: "bool \<Rightarrow> string \<Rightarrow> ('e, 'a) outcome \<Rightarrow> ('e, 'a) outcome" where
  "xassert c msg m = (if c then m else Inl (AssertFail msg))"

text \<open>The result of an outcome without its messages.\<close>

definition xval :: "('e, 'a) outcome \<Rightarrow> xf_fail + 'a" where
  "xval m = map_sum id fst m"

text \<open>The messages of an outcome; a failed call has none.\<close>

definition xmsgs :: "('e, 'a) outcome \<Rightarrow> 'e list" where
  "xmsgs m = (case m of Inl _ \<Rightarrow> [] | Inr (_, es) \<Rightarrow> es)"

lemma xret_inject [simp]: "xret x = xret y \<longleftrightarrow> x = y"
  by (simp add: xret_def)

lemma xbind_xret [simp]: "xbind (xret x) k = k x"
  by (simp add: xret_def split: sum.splits)

lemma xbind_right_xret [simp]: "xbind m xret = m"
  by (cases m) (auto simp: xret_def)

lemma xbind_assoc: "xbind (xbind m f) g = xbind m (\<lambda>x. xbind (f x) g)"
proof (cases m)
  case (Inr p)
  obtain x es where p: "p = (x, es)" by (cases p)
  show ?thesis
    by (cases "f x") (auto simp: Inr p split: sum.splits)
qed simp

lemma xbind_eq_Inr:
  "xbind m k = Inr (y, es) \<longleftrightarrow>
     (\<exists>x es1 es2. m = Inr (x, es1) \<and> k x = Inr (y, es2) \<and> es = es1 @ es2)"
proof (cases m)
  case (Inr p)
  obtain x es1 where "p = (x, es1)" by (cases p)
  with Inr show ?thesis by (auto split: sum.splits)
qed simp

lemma xbind_eq_Inl:
  "xbind m k = Inl f \<longleftrightarrow> m = Inl f \<or> (\<exists>x es. m = Inr (x, es) \<and> k x = Inl f)"
proof (cases m)
  case (Inr p)
  obtain x es1 where "p = (x, es1)" by (cases p)
  with Inr show ?thesis by (auto split: sum.splits)
qed simp

lemma xemit_Nil [simp]: "xemit [] m = m"
  by (cases m) (auto simp: xemit_def)

lemma xemit_Inr [simp]: "xemit es (Inr (x, es')) = Inr (x, es @ es')"
  by (simp add: xemit_def)

lemma xemit_Inl [simp]: "xemit es (Inl f) = Inl f"
  by (simp add: xemit_def)

lemma xemit_xret [simp]: "xemit es (xret x) = Inr (x, es)"
  by (simp add: xret_def)

lemma xbind_Inr [simp]: "xbind (Inr (x, es)) k = xemit es (k x)"
  by (simp add: xemit_def)

declare xbind.simps(2) [simp del]

lemma xemit_xemit [simp]: "xemit es (xemit es' m) = xemit (es @ es') m"
  by (cases m) auto

lemma xbind_xemit [simp]: "xbind (xemit es m) k = xemit es (xbind m k)"
  by (cases m) auto

lemma xemit_eq_Inr: "xemit es m = Inr (x, fs) \<longleftrightarrow> (\<exists>fs'. m = Inr (x, fs') \<and> fs = es @ fs')"
  by (cases m) auto

lemma xemit_eq_Inl [simp]: "xemit es m = Inl f \<longleftrightarrow> m = Inl f"
  by (cases m) auto

lemma xassert_True [simp]: "xassert True msg m = m"
  by (simp add: xassert_def)

lemma xassert_False [simp]: "xassert False msg m = Inl (AssertFail msg)"
  by (simp add: xassert_def)

lemma xassert_eq_Inr: "xassert c msg m = Inr r \<longleftrightarrow> c \<and> m = Inr r"
  by (simp add: xassert_def)

lemma xval_xret [simp]: "xval (xret x) = Inr x"
  by (simp add: xval_def xret_def)

lemma xval_Inr [simp]: "xval (Inr (x, es)) = Inr x"
  by (simp add: xval_def)

lemma xval_Inl [simp]: "xval (Inl f) = Inl f"
  by (simp add: xval_def)

lemma xval_xemit [simp]: "xval (xemit es m) = xval m"
proof (cases m)
  case (Inr p)
  then show ?thesis by (cases p) simp
qed simp

lemma xval_xassert [simp]:
  "xval (xassert c msg m) = (if c then xval m else Inl (AssertFail msg))"
  by (simp add: xassert_def)

lemma xval_xbind:
  "xval (xbind m k) = (case xval m of Inl f \<Rightarrow> Inl f | Inr x \<Rightarrow> xval (k x))"
proof (cases m)
  case (Inr p)
  obtain x es where p: "p = (x, es)" by (cases p)
  show ?thesis
    by (cases "k x") (auto simp: Inr p)
qed simp

lemma xval_eq_Inr: "xval m = Inr x \<longleftrightarrow> (\<exists>es. m = Inr (x, es))"
proof (cases m)
  case (Inr p)
  then show ?thesis by (cases p) auto
qed simp

lemma xval_eq_Inl: "xval m = Inl f \<longleftrightarrow> m = Inl f"
proof (cases m)
  case (Inr p)
  then show ?thesis by (cases p) auto
qed simp

text \<open>Whether an outcome is a normal return, and of which value.\<close>

definition xopt :: "('e, 'a) outcome \<Rightarrow> 'a option" where
  "xopt m = (case m of Inl _ \<Rightarrow> None | Inr (x, _) \<Rightarrow> Some x)"

lemma xopt_simps [simp]:
  "xopt (Inl f) = None" "xopt (Inr (x, es)) = Some x" "xopt (xret x) = Some x"
  by (simp_all add: xopt_def xret_def)

lemma xopt_xemit [simp]: "xopt (xemit es m) = xopt m"
proof (cases m)
  case (Inr p)
  then show ?thesis by (cases p) simp
qed simp

lemma xopt_xassert [simp]: "xopt (xassert c msg m) = (if c then xopt m else None)"
  by (simp add: xassert_def)

lemma xopt_xbind [simp]: "xopt (xbind m k) = Option.bind (xopt m) (\<lambda>x. xopt (k x))"
proof (cases m)
  case (Inr p)
  obtain x es where p: "p = (x, es)" by (cases p)
  show ?thesis
    by (cases "k x") (auto simp: Inr p)
qed simp

lemma xopt_eq_Some: "xopt m = Some x \<longleftrightarrow> (\<exists>es. m = Inr (x, es))"
proof (cases m)
  case (Inr p)
  then show ?thesis by (cases p) auto
qed simp

lemma xopt_Inr: "m = Inr (x, es) \<Longrightarrow> xopt m = Some x"
  by simp

lemma xopt_eq_None: "xopt m = None \<longleftrightarrow> (\<exists>f. m = Inl f)"
proof (cases m)
  case (Inr p)
  then show ?thesis by (cases p) auto
qed simp

text \<open>A range-based \<open>for\<close> whose body updates a state and may fail.\<close>

fun xfor :: "('a \<Rightarrow> 's \<Rightarrow> ('e, 's) outcome) \<Rightarrow> 'a list \<Rightarrow> 's \<Rightarrow> ('e, 's) outcome" where
  "xfor f [] s = xret s"
| "xfor f (x # xs) s = xbind (f x s) (xfor f xs)"

lemma xfor_append: "xfor f (xs @ ys) s = xbind (xfor f xs s) (xfor f ys)"
proof (induction xs arbitrary: s)
  case (Cons x xs)
  have "xfor f (xs @ ys) = (\<lambda>s. xbind (xfor f xs s) (xfor f ys))"
    using Cons.IH by (rule ext)
  then show ?case by (simp add: xbind_assoc)
qed simp

lemma xfor_invariant:
  assumes "xfor f xs s = Inr (s', es)" and "P s"
    and "\<And>x s s' es. x \<in> set xs \<Longrightarrow> P s \<Longrightarrow> f x s = Inr (s', es) \<Longrightarrow> P s'"
  shows "P s'"
  using assms
proof (induction xs arbitrary: s es)
  case Nil
  then show ?case by (simp add: xret_def)
next
  case (Cons x xs)
  from Cons.prems(1) obtain s1 es1 es2 where
    "f x s = Inr (s1, es1)" "xfor f xs s1 = Inr (s', es2)"
    by (auto simp: xbind_eq_Inr)
  with Cons.IH [of s1 es2] Cons.prems(2,3) show ?case
    by (meson list.set_intros)
qed

lemma xopt_xfor_total:
  "(\<And>x s. x \<in> set xs \<Longrightarrow> xopt (f x s) = Some (g x s)) \<Longrightarrow> xopt (xfor f xs s) = Some (fold g xs s)"
  by (induction xs arbitrary: s) auto

lemma xopt_xfor_Some:
  "(\<And>x s s'. x \<in> set xs \<Longrightarrow> xopt (f x s) = Some s' \<Longrightarrow> s' = g x s) \<Longrightarrow>
   xopt (xfor f xs s) = Some s' \<Longrightarrow> s' = fold g xs s"
proof (induction xs arbitrary: s)
  case (Cons x xs)
  from Cons.prems(2) obtain s1 where s1: "xopt (f x s) = Some s1" "xopt (xfor f xs s1) = Some s'"
    by (auto simp: Option.bind_eq_Some_conv)
  then have "s1 = g x s" using Cons.prems(1) by simp
  with Cons.IH [of s1] Cons.prems(1) s1(2) show ?case by simp
qed simp

text \<open>Which of the messages of a call satisfy \<open>p\<close>, if it returns.\<close>

definition emits :: "('e \<Rightarrow> bool) \<Rightarrow> 'e list \<Rightarrow> ('e, 'a) outcome \<Rightarrow> bool" where
  "emits p bs m \<longleftrightarrow> (\<forall>x es. m = Inr (x, es) \<longrightarrow> filter p es = bs)"

lemma emits_xret [simp]: "emits p bs (xret x) \<longleftrightarrow> bs = []"
  by (auto simp: emits_def xret_def)

lemma emits_Inr [simp]: "emits p bs (Inr (x, es)) \<longleftrightarrow> filter p es = bs"
  by (auto simp: emits_def)

lemma emits_Inl [simp]: "emits p bs (Inl f)"
  by (simp add: emits_def)

lemma emits_xemit_silent: "filter p es = [] \<Longrightarrow> emits p bs (xemit es m) = emits p bs m"
  by (auto simp: emits_def xemit_eq_Inr)

lemma emits_xemit: "emits p bs m \<Longrightarrow> emits p (filter p es @ bs) (xemit es m)"
  by (auto simp: emits_def xemit_eq_Inr)

lemma emits_xassert: "(c \<Longrightarrow> emits p bs m) \<Longrightarrow> emits p bs (xassert c msg m)"
  by (simp add: xassert_def)

lemma emits_xbind:
  assumes "emits p bs m" and "\<And>x. xopt m = Some x \<Longrightarrow> emits p cs (k x)"
  shows "emits p (bs @ cs) (xbind m k)"
  using assms by (fastforce simp: emits_def xbind_eq_Inr xopt_eq_Some)

lemma emits_xbind_silent:
  assumes "emits p [] m" and "\<And>x. xopt m = Some x \<Longrightarrow> emits p cs (k x)"
  shows "emits p cs (xbind m k)"
  using emits_xbind [OF assms] by simp

lemma emits_xbind_first:
  assumes "emits p bs m" and "\<And>x. xopt m = Some x \<Longrightarrow> emits p [] (k x)"
  shows "emits p bs (xbind m k)"
  using emits_xbind [OF assms] by simp

lemma emits_xfor_silent:
  "(\<And>x s. x \<in> set xs \<Longrightarrow> emits p [] (f x s)) \<Longrightarrow> emits p [] (xfor f xs s)"
  by (induction xs arbitrary: s) (auto intro: emits_xbind_silent)

text \<open>\<open>++\<close> on a 32-bit \<open>int\<close>: the overflow is undefined behaviour.\<close>

definition int_inc :: "int \<Rightarrow> ('e, int) outcome" where
  "int_inc v = (if v = 2147483647 then Inl (UB ''signed overflow'') else xret (v + 1))"

lemma xopt_int_inc [simp]: "xopt (int_inc v) = (if v = 2147483647 then None else Some (v + 1))"
  by (simp add: int_inc_def)

lemma emits_int_inc [simp]: "emits p [] (int_inc v)"
  by (simp add: int_inc_def)

section \<open>C arrays\<close>

text \<open>
  A C array of fixed length is a list. An index outside the array is undefined behaviour; the
  index has the type of the C expression, a signed \<open>int\<close>.
\<close>

definition idx_ok :: "'a list \<Rightarrow> int \<Rightarrow> bool" where
  "idx_ok xs i \<longleftrightarrow> 0 \<le> i \<and> nat i < length xs"

definition arr_get :: "'a list \<Rightarrow> int \<Rightarrow> ('e, 'a) outcome" where
  "arr_get xs i = (if idx_ok xs i then xret (xs ! nat i) else Inl (UB ''array index''))"

definition arr_set :: "'a list \<Rightarrow> int \<Rightarrow> 'a \<Rightarrow> 'a list" where
  "arr_set xs i v = xs[nat i := v]"

lemma idx_ok_arr_set [simp]: "idx_ok (arr_set xs i v) j = idx_ok xs j"
  by (simp add: idx_ok_def arr_set_def)

lemma length_arr_set [simp]: "length (arr_set xs i v) = length xs"
  by (simp add: arr_set_def)

lemma arr_get_ok [simp]: "idx_ok xs i \<Longrightarrow> arr_get xs i = xret (xs ! nat i)"
  by (simp add: arr_get_def)

lemma arr_get_bad: "\<not> idx_ok xs i \<Longrightarrow> arr_get xs i = Inl (UB ''array index'')"
  by (simp add: arr_get_def)

lemma xopt_arr_get [simp]: "xopt (arr_get xs i) = (if idx_ok xs i then Some (xs ! nat i) else None)"
  by (simp add: arr_get_def)

lemma emits_arr_get [simp]: "emits p [] (arr_get xs i)"
  by (simp add: arr_get_def)

lemma nth_arr_set:
  "idx_ok xs i \<Longrightarrow> 0 \<le> j \<Longrightarrow> arr_set xs i v ! nat j = (if i = j then v else xs ! nat j)"
  by (auto simp: idx_ok_def arr_set_def nth_list_update)

lemma nth_arr_set_same [simp]: "idx_ok xs i \<Longrightarrow> arr_set xs i v ! nat i = v"
  by (simp add: idx_ok_def arr_set_def)

lemma arr_set_twice [simp]: "arr_set (arr_set xs i v) i w = arr_set xs i w"
  by (simp add: arr_set_def)

lemma set_arr_set: "set (arr_set xs i v) \<subseteq> insert v (set xs)"
  by (simp add: arr_set_def set_update_subset_insert)

lemma map_arr_set: "map f (arr_set xs i v) = arr_set (map f xs) i (f v)"
  by (simp add: arr_set_def map_update)

lemma idx_ok_map [simp]: "idx_ok (map f xs) i = idx_ok xs i"
  by (simp add: idx_ok_def)

section \<open>Closed address intervals\<close>

text \<open>
  An interval is its first and its last address. The bounds are 64-bit words, so the interval
  whose last address is below its first is empty, and the bounds computed by the code wrap.
\<close>

type_synonym ival = "addr_t \<times> addr_t"

definition ival_set :: "ival \<Rightarrow> addr_t set" where
  "ival_set i = {fst i..snd i}"

definition ival_mem :: "addr_t \<Rightarrow> ival \<Rightarrow> bool" where
  "ival_mem k i \<longleftrightarrow> fst i \<le> k \<and> k \<le> snd i"

lemma ival_mem_iff [simp]: "ival_mem k i \<longleftrightarrow> k \<in> ival_set i"
  by (simp add: ival_mem_def ival_set_def)

lemma ival_set_nonempty: "fst i \<le> snd i \<Longrightarrow> fst i \<in> ival_set i"
  by (simp add: ival_set_def)

lemma ival_set_pair [simp]: "ival_set (l, u) = {l..u}"
  by (simp add: ival_set_def)

end
