(* ===== verification/XF_Trace.thy ===== *)
theory XF_Trace
  imports XF_Prelude
begin

text \<open>
  The trace format of \<open>include/trace.hh\<close>, the constants and the address test of
  \<open>include/common.hh\<close>, the status values and the operation names of
  \<open>include/xfdetector.hh\<close>, and the messages the tool reports.
\<close>

section \<open>Constants\<close>

definition PM_ADDR_BASE :: addr_t where
  "PM_ADDR_BASE = 0x10000000000"

definition PM_ADDR_SIZE :: sz_t where
  "PM_ADDR_SIZE = 0x10000000000"

definition PRE_FAILURE :: int where
  "PRE_FAILURE = 1"

definition POST_FAILURE :: int where
  "POST_FAILURE = 2"

definition MAX_THREADS :: nat where
  "MAX_THREADS = 32"

lemmas stage_defs = PRE_FAILURE_def POST_FAILURE_def

section \<open>Trace entries\<close>

datatype pm_op_t =
    INVALID
  | TRACE_BEGIN
  | TRACE_END
  | TESTING_END
  | READ
  | WRITE
  | CLWB
  | SFENCE
  | PMEM_MAP_FILE
  | PMEM_UNMAP
  | PM_TRACE_PM_ADDR_ADD
  | PM_TRACE_PM_ADDR_REMOVE
  | PM_TRACE_TX_BEGIN
  | PM_TRACE_TX_END
  | PM_TRACE_TX_ADDR_ADD
  | PM_TRACE_TX_ALLOC
  | PMDK_INTERNAL_CALL
  | PMDK_INTERNAL_RET
  | ADD_COMMIT_VAR
  | PM_TRACE_DETECTION_SKIP_BEGIN
  | PM_TRACE_DETECTION_SKIP_END

text \<open>The numbering a C++ \<open>enum\<close> gives its enumerators.\<close>

definition pm_op_enum :: "pm_op_t list" where
  "pm_op_enum =
     [INVALID, TRACE_BEGIN, TRACE_END, TESTING_END, READ, WRITE, CLWB, SFENCE,
      PMEM_MAP_FILE, PMEM_UNMAP, PM_TRACE_PM_ADDR_ADD, PM_TRACE_PM_ADDR_REMOVE,
      PM_TRACE_TX_BEGIN, PM_TRACE_TX_END, PM_TRACE_TX_ADDR_ADD, PM_TRACE_TX_ALLOC,
      PMDK_INTERNAL_CALL, PMDK_INTERNAL_RET, ADD_COMMIT_VAR,
      PM_TRACE_DETECTION_SKIP_BEGIN, PM_TRACE_DETECTION_SKIP_END]"

fun pm_op_index :: "pm_op_t \<Rightarrow> nat" where
  "pm_op_index INVALID = 0"
| "pm_op_index TRACE_BEGIN = 1"
| "pm_op_index TRACE_END = 2"
| "pm_op_index TESTING_END = 3"
| "pm_op_index READ = 4"
| "pm_op_index WRITE = 5"
| "pm_op_index CLWB = 6"
| "pm_op_index SFENCE = 7"
| "pm_op_index PMEM_MAP_FILE = 8"
| "pm_op_index PMEM_UNMAP = 9"
| "pm_op_index PM_TRACE_PM_ADDR_ADD = 10"
| "pm_op_index PM_TRACE_PM_ADDR_REMOVE = 11"
| "pm_op_index PM_TRACE_TX_BEGIN = 12"
| "pm_op_index PM_TRACE_TX_END = 13"
| "pm_op_index PM_TRACE_TX_ADDR_ADD = 14"
| "pm_op_index PM_TRACE_TX_ALLOC = 15"
| "pm_op_index PMDK_INTERNAL_CALL = 16"
| "pm_op_index PMDK_INTERNAL_RET = 17"
| "pm_op_index ADD_COMMIT_VAR = 18"
| "pm_op_index PM_TRACE_DETECTION_SKIP_BEGIN = 19"
| "pm_op_index PM_TRACE_DETECTION_SKIP_END = 20"

lemma pm_op_enum_index: "pm_op_enum ! pm_op_index op = op"
  by (cases op) (simp_all add: pm_op_enum_def)

lemma pm_op_index_less: "pm_op_index op < length pm_op_enum"
  by (cases op) (simp_all add: pm_op_enum_def)

lemma pm_op_index_inj: "pm_op_index a = pm_op_index b \<longleftrightarrow> a = b"
  by (metis pm_op_enum_index)

record trace_entry =
  operation :: pm_op_t
  func_ret :: bool
  tid :: int
  src_addr :: addr_t
  dst_addr :: addr_t
  size_of :: sz_t
  instr_ptr :: addr_t
  non_temporal :: int

text \<open>
  The member initialisers of \<open>trace_entry_t\<close>. The field \<open>tid\<close> has none: every
  function of the pintool that builds an entry assigns it, so the model takes it as argument.
\<close>

definition trace_entry_init :: "int \<Rightarrow> trace_entry" where
  "trace_entry_init t =
     \<lparr>operation = INVALID, func_ret = False, tid = t, src_addr = 0, dst_addr = 0,
      size_of = 0, instr_ptr = 0, non_temporal = 0\<rparr>"

section \<open>The operation name table\<close>

definition pm_op_name :: "string list" where
  "pm_op_name =
     [''invalid'',
      ''trace_begin'', ''trace_end'', ''testing_end'',
      ''read'', ''write'', ''clwb'', ''sfence'',
      ''pmem_map_file'', ''pmem_unmap'',
      ''pm_trace_pm_addr_add'', ''pm_trace_pm_addr_remove'', ''pm_trace_tx_begin'',
      ''pm_trace_tx_end'', ''pm_trace_tx_addr_add'', ''pmdk_internal_call'',
      ''pmdk_internal_ret'',
      ''_add_commit_var'',
      ''_skipDetectionBegin'', ''_skipDetectionEnd'']"

section \<open>Persistence status\<close>

datatype PMStatus = CLEAN | MODIFIED | WRITEBACK_PENDING | WRITTEN_BACK | CONSISTENT

section \<open>Addresses on persistent memory\<close>

text \<open>
  The macro \<open>isPmemAddr\<close> (and the method \<open>ShadowPM::is_pm_addr\<close>): the sum of address
  and size is computed on 64 bits and wraps.
\<close>

definition isPmemAddr :: "addr_t \<Rightarrow> sz_t \<Rightarrow> bool" where
  "isPmemAddr addr sz \<longleftrightarrow>
     addr + sz < PM_ADDR_BASE + PM_ADDR_SIZE \<and> addr \<ge> PM_ADDR_BASE"

section \<open>Messages\<close>

text \<open>
  What the detector reports: an element appended to \<open>warn_vec\<close> (\<open>Warn\<close>) or to
  \<open>error_vec\<close> (\<open>Err\<close>), and the messages written to the standard error stream, with the
  values each of them prints.
\<close>

datatype event =
    Warn trace_entry string
  | Err trace_entry string
  | UnnecessaryFlush addr_t sz_t addr_t
  | PerfNeverModified addr_t sz_t
  | PreviouslyAddedByTxAdd addr_t
  | PreviouslyAddedByTxAlloc addr_t
  | TxAddAfterModification addr_t addr_t
  | PerfAlreadyAdded addr_t addr_t sz_t
  | AddedByTxAdd addr_t
  | AddedByTxAlloc addr_t
  | UpdatingCommitVar timestamp_t
  | ConsistencyBug
  | WriteIP addr_t
  | ReadAddr addr_t sz_t
  | ReadIP addr_t
  | NotPersistedBeforeFailure
  | NotPersistedBeforeCommitVar
  | OtherBug
  | ModifyBeforeTxAdd addr_t addr_t
  | FailurePointIP addr_t
  | InvalidOps
  | BacktracePos nat
  | BacktraceLine nat string
  | OpLine string bool int addr_t addr_t sz_t addr_t

section \<open>Properties\<close>

lemma PM_limit: "PM_ADDR_BASE + PM_ADDR_SIZE = 0x20000000000"
  by (simp add: PM_ADDR_BASE_def PM_ADDR_SIZE_def)

lemma isPmemAddr_nat:
  assumes "unat a + unat n < 2 ^ 64"
  shows "isPmemAddr a n \<longleftrightarrow> 0x10000000000 \<le> unat a \<and> unat a + unat n < 0x20000000000"
proof -
  have sum: "unat (a + n) = unat a + unat n"
    using assms by (simp add: unat_word_ariths)
  have lim: "a + n < 0x20000000000 \<longleftrightarrow> unat a + unat n < 0x20000000000"
    unfolding word_less_nat_alt sum by simp
  have base: "0x10000000000 \<le> a \<longleftrightarrow> 0x10000000000 \<le> unat a"
    unfolding word_le_nat_alt by simp
  show ?thesis
    unfolding isPmemAddr_def PM_limit lim unfolding PM_ADDR_BASE_def base by blast
qed

end
