(* ===== verification/XF_ICL.thy ===== *)
theory XF_ICL
  imports XF_Prelude
begin

text \<open>
  The interval containers of Boost.ICL that the detector keeps its shadow state in
  (\<open>interval_map\<close> with \<open>partial_enricher\<close> and the assigning combiner
  \<open>inplace_assign\<close>, and \<open>interval_set\<close>). Boost is not part of the repository: the
  containers are a parameter of the model, a record of the operations the code calls. The locales
  state what Boost.ICL documents about these operations. The end of the theory gives one executable
  implementation, interval lists in increasing order, that satisfies every law.
\<close>

section \<open>Interval maps\<close>

text \<open>
  \<open>im_segments\<close> is what a range-based \<open>for\<close> over the map visits, in order, each
  interval by its first and last address; \<open>im_add\<close> is \<open>+=\<close>, \<open>im_erase\<close> is
  \<open>-=\<close> with an interval, \<open>im_inter\<close> is \<open>&\<close> with an interval, and
  \<open>im_assign\<close> is the loop that assigns through the references it iterates over.
  \<open>im_inv\<close> is the class invariant of the container.
\<close>

record ('m, 'v) icl_map_ops =
  im_inv :: "'m \<Rightarrow> bool"
  im_empty :: 'm
  im_segments :: "'m \<Rightarrow> (ival \<times> 'v) list"
  im_add :: "'m \<Rightarrow> ival \<Rightarrow> 'v \<Rightarrow> 'm"
  im_erase :: "'m \<Rightarrow> ival \<Rightarrow> 'm"
  im_inter :: "'m \<Rightarrow> ival \<Rightarrow> 'm"
  im_intersects :: "'m \<Rightarrow> ival \<Rightarrow> bool"
  im_assign :: "('v \<Rightarrow> 'v) \<Rightarrow> 'm \<Rightarrow> 'm"

fun seg_at :: "(ival \<times> 'v) list \<Rightarrow> addr_t \<Rightarrow> 'v option" where
  "seg_at [] k = None"
| "seg_at ((i, v) # xs) k = (if ival_mem k i then Some v else seg_at xs k)"

text \<open>Segments are not empty, in increasing order and disjoint.\<close>

definition segs_ok :: "(ival \<times> 'v) list \<Rightarrow> bool" where
  "segs_ok xs \<longleftrightarrow>
     (\<forall>x \<in> set xs. fst (fst x) \<le> snd (fst x)) \<and>
     sorted_wrt (\<lambda>x y. snd (fst x) < fst (fst y)) xs"

definition im_at :: "('m, 'v) icl_map_ops \<Rightarrow> 'm \<Rightarrow> addr_t \<Rightarrow> 'v option" where
  "im_at M m k = seg_at (im_segments M m) k"

lemma segs_ok_Cons:
  "segs_ok ((i, v) # xs) \<longleftrightarrow>
     fst i \<le> snd i \<and> (\<forall>x \<in> set xs. snd i < fst (fst x)) \<and> segs_ok xs"
  by (auto simp: segs_ok_def)

lemma segs_ok_Nil [simp]: "segs_ok []"
  by (simp add: segs_ok_def)

lemma seg_at_None: "\<forall>x \<in> set xs. k \<notin> ival_set (fst x) \<Longrightarrow> seg_at xs k = None"
  by (induction xs k rule: seg_at.induct) simp_all

lemma seg_at_SomeD: "seg_at xs k = Some v \<Longrightarrow> \<exists>i. (i, v) \<in> set xs \<and> k \<in> ival_set i"
proof (induction xs k rule: seg_at.induct)
  case (2 i w xs k)
  show ?case
  proof (cases "k \<in> ival_set i")
    case True
    with "2.prems" have "(i, v) \<in> set ((i, w) # xs)" by simp
    with True show ?thesis by blast
  next
    case False
    with "2" obtain j where "(j, v) \<in> set xs" "k \<in> ival_set j" by auto
    then show ?thesis by (meson list.set_intros(2))
  qed
qed simp

lemma seg_at_mem:
  "segs_ok xs \<Longrightarrow> (i, v) \<in> set xs \<Longrightarrow> k \<in> ival_set i \<Longrightarrow> seg_at xs k = Some v"
proof (induction xs k rule: seg_at.induct)
  case (2 j w xs k)
  show ?case
  proof (cases "(i, v) = (j, w)")
    case True
    with "2.prems" show ?thesis by simp
  next
    case False
    with "2.prems" have mem: "(i, v) \<in> set xs" by auto
    then have "snd j < fst i"
      using "2.prems"(1) by (force simp: segs_ok_Cons)
    moreover have "fst i \<le> k"
      using "2.prems"(3) by (simp add: ival_set_def)
    ultimately have "k \<notin> ival_set j"
      by (auto simp: ival_set_def)
    with "2.IH" "2.prems" mem show ?thesis
      by (simp add: segs_ok_Cons)
  qed
qed simp

lemma seg_at_iff:
  "segs_ok xs \<Longrightarrow> seg_at xs k = Some v \<longleftrightarrow> (\<exists>i. (i, v) \<in> set xs \<and> k \<in> ival_set i)"
  by (meson seg_at_SomeD seg_at_mem)

locale icl_map =
  fixes M :: "('m, 'v) icl_map_ops"
  assumes inv_empty: "im_inv M (im_empty M)"
    and inv_add: "im_inv M m \<Longrightarrow> im_inv M (im_add M m i v)"
    and inv_erase: "im_inv M m \<Longrightarrow> im_inv M (im_erase M m i)"
    and inv_inter: "im_inv M m \<Longrightarrow> im_inv M (im_inter M m i)"
    and inv_assign: "im_inv M m \<Longrightarrow> im_inv M (im_assign M f m)"
    and segments_ok: "im_inv M m \<Longrightarrow> segs_ok (im_segments M m)"
    and at_empty: "im_at M (im_empty M) k = None"
    and at_add: "im_inv M m \<Longrightarrow>
          im_at M (im_add M m i v) k = (if k \<in> ival_set i then Some v else im_at M m k)"
    and at_erase: "im_inv M m \<Longrightarrow>
          im_at M (im_erase M m i) k = (if k \<in> ival_set i then None else im_at M m k)"
    and at_inter: "im_inv M m \<Longrightarrow>
          im_at M (im_inter M m i) k = (if k \<in> ival_set i then im_at M m k else None)"
    and at_assign: "im_inv M m \<Longrightarrow> im_at M (im_assign M f m) k = map_option f (im_at M m k)"
    and intersects_iff: "im_inv M m \<Longrightarrow>
          im_intersects M m i \<longleftrightarrow> (\<exists>k \<in> ival_set i. im_at M m k \<noteq> None)"
begin

text \<open>What a loop over the segments of a map sees is what the map holds at its addresses.\<close>

lemma segment_values:
  assumes "im_inv M m"
  shows "snd ` set (im_segments M m) = {v. \<exists>k. im_at M m k = Some v}"
proof -
  have ok: "segs_ok (im_segments M m)" using assms by (rule segments_ok)
  have ne: "fst i \<in> ival_set i" if "(i, v) \<in> set (im_segments M m)" for i v
    using ok that by (auto simp: segs_ok_def ival_set_def)
  show ?thesis
  proof (intro set_eqI iffI)
    fix v assume "v \<in> snd ` set (im_segments M m)"
    then obtain i where iv: "(i, v) \<in> set (im_segments M m)" by force
    have "im_at M m (fst i) = Some v"
      unfolding im_at_def by (rule seg_at_mem [OF ok iv ne [OF iv]])
    then show "v \<in> {v. \<exists>k. im_at M m k = Some v}" by blast
  next
    fix v assume "v \<in> {v. \<exists>k. im_at M m k = Some v}"
    then obtain k i where "(i, v) \<in> set (im_segments M m)"
      unfolding im_at_def by (auto dest: seg_at_SomeD)
    then show "v \<in> snd ` set (im_segments M m)" by force
  qed
qed

lemma ball_segments:
  "im_inv M m \<Longrightarrow>
     (\<forall>x \<in> set (im_segments M m). P (snd x)) \<longleftrightarrow> (\<forall>k v. im_at M m k = Some v \<longrightarrow> P v)"
proof -
  assume "im_inv M m"
  have "(\<forall>x \<in> set (im_segments M m). P (snd x)) \<longleftrightarrow> (\<forall>v \<in> snd ` set (im_segments M m). P v)"
    by blast
  then show ?thesis
    unfolding segment_values [OF \<open>im_inv M m\<close>] by blast
qed

lemma ball_segments_inter:
  assumes "im_inv M m"
  shows "(\<forall>x \<in> set (im_segments M (im_inter M m i)). P (snd x)) \<longleftrightarrow>
     (\<forall>k \<in> ival_set i. \<forall>v. im_at M m k = Some v \<longrightarrow> P v)"
  using assms by (auto simp: ball_segments inv_inter at_inter)

lemma segments_inter_Nil:
  assumes "im_inv M m"
  shows "im_segments M (im_inter M m i) = [] \<longleftrightarrow> (\<forall>k \<in> ival_set i. im_at M m k = None)"
proof -
  have "im_segments M (im_inter M m i) = [] \<longleftrightarrow>
      (\<forall>x \<in> set (im_segments M (im_inter M m i)). False)"
    by (cases "im_segments M (im_inter M m i)") auto
  then show ?thesis
    using ball_segments_inter [OF assms, where P = "\<lambda>_. False" and i = i] by auto
qed

lemma segment_values_inter:
  "im_inv M m \<Longrightarrow>
     snd ` set (im_segments M (im_inter M m i)) = {v. \<exists>k \<in> ival_set i. im_at M m k = Some v}"
  by (auto simp: segment_values inv_inter at_inter split: if_splits)

lemmas map_at = at_empty at_add at_erase at_inter at_assign
lemmas map_inv = inv_empty inv_add inv_erase inv_inter inv_assign

end

section \<open>Interval sets\<close>

text \<open>
  \<open>is_intervals\<close> is what a range-based \<open>for\<close> over the set visits. An
  \<open>interval_set\<close> joins intervals that overlap or touch, so there is a gap between any two.
\<close>

record 's icl_set_ops =
  is_inv :: "'s \<Rightarrow> bool"
  is_empty_set :: 's
  is_intervals :: "'s \<Rightarrow> ival list"
  is_add :: "'s \<Rightarrow> ival \<Rightarrow> 's"
  is_erase :: "'s \<Rightarrow> ival \<Rightarrow> 's"
  is_within :: "ival \<Rightarrow> 's \<Rightarrow> bool"

definition is_elems :: "'s icl_set_ops \<Rightarrow> 's \<Rightarrow> addr_t set" where
  "is_elems S s = (\<Union>i \<in> set (is_intervals S s). ival_set i)"

definition ivals_ok :: "ival list \<Rightarrow> bool" where
  "ivals_ok xs \<longleftrightarrow>
     (\<forall>i \<in> set xs. fst i \<le> snd i) \<and>
     sorted_wrt (\<lambda>i j. snd i < fst j \<and> snd i + 1 \<noteq> fst j) xs"

lemma ivals_ok_Nil [simp]: "ivals_ok []"
  by (simp add: ivals_ok_def)

lemma ivals_ok_Cons:
  "ivals_ok (i # xs) \<longleftrightarrow>
     fst i \<le> snd i \<and> (\<forall>j \<in> set xs. snd i < fst j \<and> snd i + 1 \<noteq> fst j) \<and> ivals_ok xs"
  by (auto simp: ivals_ok_def)

locale icl_set =
  fixes S :: "'s icl_set_ops"
  assumes sinv_empty: "is_inv S (is_empty_set S)"
    and sinv_add: "is_inv S s \<Longrightarrow> is_inv S (is_add S s i)"
    and sinv_erase: "is_inv S s \<Longrightarrow> is_inv S (is_erase S s i)"
    and intervals_ok: "is_inv S s \<Longrightarrow> ivals_ok (is_intervals S s)"
    and elems_empty: "is_elems S (is_empty_set S) = {}"
    and elems_add: "is_inv S s \<Longrightarrow> is_elems S (is_add S s i) = is_elems S s \<union> ival_set i"
    and elems_erase: "is_inv S s \<Longrightarrow> is_elems S (is_erase S s i) = is_elems S s - ival_set i"
    and within_iff: "is_inv S s \<Longrightarrow> is_within S i s \<longleftrightarrow> ival_set i \<subseteq> is_elems S s"
begin

lemma interval_sub_elems: "i \<in> set (is_intervals S s) \<Longrightarrow> ival_set i \<subseteq> is_elems S s"
  by (auto simp: is_elems_def)

lemmas set_elems = elems_empty elems_add elems_erase within_iff
lemmas set_inv = sinv_empty sinv_add sinv_erase

end

section \<open>Interval lists\<close>

text \<open>
  An executable implementation of both containers: the segments themselves, in increasing order.
  Removing an interval cuts the segments it overlaps; adding one removes it first and then puts it
  in its place.
\<close>

fun cut_seg :: "ival \<Rightarrow> (ival \<times> 'v) \<Rightarrow> (ival \<times> 'v) list" where
  "cut_seg (l, u) ((a, b), v) =
     (if u < l \<or> b < l \<or> u < a then [((a, b), v)]
      else (if a < l then [((a, l - 1), v)] else []) @ (if u < b then [((u + 1, b), v)] else []))"

definition seg_erase :: "(ival \<times> 'v) list \<Rightarrow> ival \<Rightarrow> (ival \<times> 'v) list" where
  "seg_erase xs i = concat (map (cut_seg i) xs)"

fun seg_insert :: "ival \<times> 'v \<Rightarrow> (ival \<times> 'v) list \<Rightarrow> (ival \<times> 'v) list" where
  "seg_insert x [] = [x]"
| "seg_insert x (y # ys) = (if snd (fst x) < fst (fst y) then x # y # ys else y # seg_insert x ys)"

definition seg_add :: "(ival \<times> 'v) list \<Rightarrow> ival \<Rightarrow> 'v \<Rightarrow> (ival \<times> 'v) list" where
  "seg_add xs i v =
     (if snd i < fst i then xs else seg_insert (i, v) (seg_erase xs i))"

fun clip_seg :: "ival \<Rightarrow> (ival \<times> 'v) \<Rightarrow> (ival \<times> 'v) list" where
  "clip_seg (l, u) ((a, b), v) =
     (if max l a \<le> min u b then [((max l a, min u b), v)] else [])"

definition seg_inter :: "(ival \<times> 'v) list \<Rightarrow> ival \<Rightarrow> (ival \<times> 'v) list" where
  "seg_inter xs i = concat (map (clip_seg i) xs)"

definition list_map_ops :: "((ival \<times> 'v) list, 'v) icl_map_ops" where
  "list_map_ops =
     \<lparr>im_inv = segs_ok, im_empty = [], im_segments = id, im_add = seg_add, im_erase = seg_erase,
      im_inter = seg_inter, im_intersects = (\<lambda>m i. seg_inter m i \<noteq> []),
      im_assign = (\<lambda>f. map (map_prod id f))\<rparr>"

lemma seg_at_append: "seg_at (xs @ ys) k = (case seg_at xs k of None \<Rightarrow> seg_at ys k | Some v \<Rightarrow> Some v)"
  by (induction xs k rule: seg_at.induct) auto

lemma segs_ok_append:
  "segs_ok (xs @ ys) \<longleftrightarrow>
     segs_ok xs \<and> segs_ok ys \<and> (\<forall>x \<in> set xs. \<forall>y \<in> set ys. snd (fst x) < fst (fst y))"
  by (auto simp: segs_ok_def sorted_wrt_append)

lemma pred_word: "(a :: addr_t) < l \<Longrightarrow> a \<le> l - 1 \<and> l - 1 < l"
  by unat_arith

lemma succ_word: "(u :: addr_t) < b \<Longrightarrow> u + 1 \<le> b \<and> u < u + 1"
  by unat_arith

lemma le_pred_word: "(a :: addr_t) < l \<Longrightarrow> k \<le> l - 1 \<longleftrightarrow> k < l"
  by unat_arith

lemma succ_le_word: "(u :: addr_t) < b \<Longrightarrow> u + 1 \<le> k \<longleftrightarrow> u < k"
  by unat_arith

text \<open>Cutting and clipping act segment by segment, inside the segment.\<close>

lemma segs_ok_concat_map:
  assumes "segs_ok xs"
    and one: "\<And>x. x \<in> set xs \<Longrightarrow> segs_ok (f x)"
    and sub: "\<And>x y. x \<in> set xs \<Longrightarrow> y \<in> set (f x) \<Longrightarrow> fst (fst x) \<le> fst (fst y) \<and> snd (fst y) \<le> snd (fst x)"
  shows "segs_ok (concat (map f xs))"
  using assms
proof (induction xs)
  case (Cons x xs)
  have ok: "segs_ok xs" "\<forall>y \<in> set xs. snd (fst x) < fst (fst y)"
    using Cons.prems(1) by (auto simp: segs_ok_def)
  have "segs_ok (concat (map f xs))"
    using Cons ok by simp
  moreover have "snd (fst a) < fst (fst b)"
    if "a \<in> set (f x)" "y \<in> set xs" "b \<in> set (f y)" for a b y
    using Cons.prems(3) [of x a] Cons.prems(3) [of y b] that ok(2)
    by (meson leD leI list.set_intros order_le_less_trans order_less_le_trans)
  ultimately show ?case
    using Cons.prems(2) by (auto simp: segs_ok_append)
qed simp

lemma cut_disjoint:
  fixes a b l u k :: "'a :: linorder"
  shows "u < l \<or> b < l \<or> u < a \<Longrightarrow> \<not> (l \<le> k \<and> k \<le> u \<and> a \<le> k \<and> k \<le> b)"
  by auto

lemma cut_parts:
  fixes a b l u k :: "'a :: linorder"
  shows "\<not> (u < l \<or> b < l \<or> u < a) \<Longrightarrow>
    (a < l \<and> a \<le> k \<and> k < l \<or> u < b \<and> u < k \<and> k \<le> b) =
    (\<not> (l \<le> k \<and> k \<le> u) \<and> a \<le> k \<and> k \<le> b)"
  by auto

lemma cut_bounds:
  fixes a b l u p s :: "'a :: linorder"
  assumes "\<not> (u < l \<or> b < l \<or> u < a)"
  shows "p < l \<Longrightarrow> u < s \<Longrightarrow> p < s" "p < l \<Longrightarrow> p \<le> b" "u < s \<Longrightarrow> a \<le> s"
  using assms by auto

lemma cut_seg_at: "seg_at (cut_seg i x) k = (if k \<in> ival_set i then None else seg_at [x] k)"
proof -
  obtain l u a b v where ix: "i = (l, u)" "x = ((a, b), v)"
    by (metis surj_pair)
  show ?thesis
  proof (cases "u < l \<or> b < l \<or> u < a")
    case True
    with cut_disjoint [OF True, of k] show ?thesis
      unfolding ix by (simp, blast)
  next
    case False
    have "seg_at (cut_seg i x) k =
        (if a < l \<and> a \<le> k \<and> k < l \<or> u < b \<and> u < k \<and> k \<le> b then Some v else None)"
      using False le_pred_word [of a l k] succ_le_word [of u b k]
      unfolding ix by (cases "a < l"; cases "u < b") (simp_all, blast?)
    then show ?thesis
      unfolding ix cut_parts [OF False] by simp
  qed
qed

lemma cut_seg_ok:
  assumes "fst (fst x) \<le> snd (fst x)"
  shows "segs_ok (cut_seg i x)"
    and "y \<in> set (cut_seg i x) \<Longrightarrow> fst (fst x) \<le> fst (fst y) \<and> snd (fst y) \<le> snd (fst x)"
proof -
  obtain l u a b v where ix: "i = (l, u)" "x = ((a, b), v)"
    by (metis surj_pair)
  have ab: "a \<le> b" using assms ix by simp
  have left: "a < l \<Longrightarrow> a \<le> l - 1 \<and> l - 1 < l"
    by (rule pred_word)
  have right: "u < b \<Longrightarrow> u + 1 \<le> b \<and> u < u + 1"
    by (rule succ_word)
  show "segs_ok (cut_seg i x)"
  proof (cases "u < l \<or> b < l \<or> u < a")
    case True
    with ab show ?thesis unfolding ix by (simp add: segs_ok_Cons)
  next
    case False
    have "a < l \<Longrightarrow> u < b \<Longrightarrow> l - 1 < u + 1"
      using cut_bounds(1) [OF False] left right by blast
    with False left right show ?thesis
      unfolding ix by (cases "a < l"; cases "u < b") (simp_all add: segs_ok_Cons)
  qed
  show "fst (fst x) \<le> fst (fst y) \<and> snd (fst y) \<le> snd (fst x)" if "y \<in> set (cut_seg i x)"
  proof (cases "u < l \<or> b < l \<or> u < a")
    case True
    with ab that show ?thesis unfolding ix by simp
  next
    case False
    have "a < l \<Longrightarrow> l - 1 \<le> b" "u < b \<Longrightarrow> a \<le> u + 1"
      using cut_bounds(2,3) [OF False] left right by blast+
    with False left right that show ?thesis
      unfolding ix by (cases "a < l"; cases "u < b") (simp_all, elim disjE, simp_all)
  qed
qed

lemma seg_erase_at: "seg_at (seg_erase xs i) k = (if k \<in> ival_set i then None else seg_at xs k)"
proof (induction xs)
  case (Cons x xs)
  obtain j v where x: "x = (j, v)" by (cases x)
  have "seg_at (seg_erase (x # xs) i) k =
      (case seg_at (cut_seg i x) k of None \<Rightarrow> seg_at (seg_erase xs i) k | Some w \<Rightarrow> Some w)"
    by (simp only: seg_erase_def list.map concat.simps seg_at_append)
  then show ?case
    unfolding cut_seg_at Cons.IH by (simp add: x)
qed (simp add: seg_erase_def)

lemma seg_erase_ok: "segs_ok xs \<Longrightarrow> segs_ok (seg_erase xs i)"
proof -
  assume ok: "segs_ok xs"
  then have ne: "fst (fst x) \<le> snd (fst x)" if "x \<in> set xs" for x
    using that by (simp add: segs_ok_def)
  show ?thesis
    unfolding seg_erase_def
    using segs_ok_concat_map [OF ok, of "cut_seg i"] cut_seg_ok [OF ne] by blast
qed

lemma seg_insert_at:
  assumes "\<forall>y \<in> set ys. ival_set i \<inter> ival_set (fst y) = {}"
  shows "seg_at (seg_insert (i, v) ys) k = (if k \<in> ival_set i then Some v else seg_at ys k)"
  using assms
proof (induction ys)
  case (Cons y ys)
  obtain j w where y: "y = (j, w)" by (cases y)
  show ?case
  proof (cases "snd i < fst j")
    case True
    then show ?thesis by (simp add: y)
  next
    case False
    have "k \<in> ival_set i \<Longrightarrow> k \<notin> ival_set j"
      using Cons.prems y by auto
    with False Cons show ?thesis by (simp add: y)
  qed
qed simp

lemma set_seg_insert: "set (seg_insert x ys) = insert x (set ys)"
  by (induction ys) auto

lemma max_in_ivals:
  fixes a b c d :: "'a :: linorder"
  shows "a \<le> b \<Longrightarrow> c \<le> d \<Longrightarrow> \<not> b < c \<Longrightarrow> \<not> d < a \<Longrightarrow> max a c \<in> {a..b} \<inter> {c..d}"
  by auto

lemma disjoint_ivals:
  assumes "fst i \<le> snd i" "fst j \<le> snd j" "ival_set i \<inter> ival_set j = {}" "\<not> snd i < fst j"
  shows "snd j < fst i"
proof (rule ccontr)
  assume "\<not> snd j < fst i"
  then have "max (fst i) (fst j) \<in> ival_set i \<inter> ival_set j"
    using assms max_in_ivals [of "fst i" "snd i" "fst j" "snd j"] by (simp add: ival_set_def)
  with assms(3) show False by blast
qed

lemma seg_insert_ok:
  assumes "segs_ok ys" "fst i \<le> snd i" "\<forall>y \<in> set ys. ival_set i \<inter> ival_set (fst y) = {}"
  shows "segs_ok (seg_insert (i, v) ys)"
  using assms
proof (induction ys)
  case (Cons y ys)
  obtain j w where y: "y = (j, w)" by (cases y)
  have ok: "fst j \<le> snd j" "\<forall>x \<in> set ys. snd j < fst (fst x)" "segs_ok ys"
    using Cons.prems(1) by (auto simp: y segs_ok_Cons)
  show ?case
  proof (cases "snd i < fst j")
    case True
    moreover have "\<forall>x \<in> set ys. snd i < fst (fst x)"
      using True ok(1,2) by (meson dual_order.strict_trans order_less_le_trans)
    ultimately show ?thesis
      using Cons.prems by (simp add: y segs_ok_Cons)
  next
    case False
    then have "snd j < fst i"
      using disjoint_ivals [of i j] Cons.prems ok(1) by (auto simp: y)
    with False ok Cons show ?thesis
      by (simp add: y segs_ok_Cons set_seg_insert)
  qed
qed (simp add: segs_ok_Cons)

lemma seg_erase_disjoint:
  assumes "segs_ok xs" and "y \<in> set (seg_erase xs i)"
  shows "ival_set i \<inter> ival_set (fst y) = {}"
proof -
  have ok: "segs_ok (seg_erase xs i)"
    using assms(1) by (rule seg_erase_ok)
  have "k \<notin> ival_set i" if "k \<in> ival_set (fst y)" for k
  proof
    assume "k \<in> ival_set i"
    then have "seg_at (seg_erase xs i) k = None"
      by (simp add: seg_erase_at)
    moreover have "seg_at (seg_erase xs i) k = Some (snd y)"
      using seg_at_mem [OF ok, of "fst y" "snd y" k] assms(2) that by simp
    ultimately show False by simp
  qed
  then show ?thesis by blast
qed

lemma seg_add_at:
  "segs_ok xs \<Longrightarrow> seg_at (seg_add xs i v) k = (if k \<in> ival_set i then Some v else seg_at xs k)"
proof (cases "snd i < fst i")
  case True
  then have "ival_set i = {}" by (simp add: ival_set_def)
  then show ?thesis using True by (simp add: seg_add_def)
next
  case False
  assume ok: "segs_ok xs"
  have "\<forall>y \<in> set (seg_erase xs i). ival_set i \<inter> ival_set (fst y) = {}"
    using seg_erase_disjoint [OF ok] by blast
  from seg_insert_at [OF this, of v k] False show ?thesis
    by (simp add: seg_add_def seg_erase_at)
qed

lemma seg_add_ok: "segs_ok xs \<Longrightarrow> segs_ok (seg_add xs i v)"
  using seg_insert_ok [of "seg_erase xs i" i v] seg_erase_ok [of xs i] seg_erase_disjoint [of xs _ i]
  by (auto simp: seg_add_def)

lemma clip_seg_at: "seg_at (clip_seg i x) k = (if k \<in> ival_set i then seg_at [x] k else None)"
proof -
  obtain l u a b v where ix: "i = (l, u)" "x = ((a, b), v)"
    by (metis surj_pair)
  have "max l a \<le> k \<and> k \<le> min u b \<longleftrightarrow> (l \<le> k \<and> k \<le> u) \<and> a \<le> k \<and> k \<le> b"
    by auto
  then show ?thesis
    unfolding ix by (cases "max l a \<le> min u b") auto
qed

lemma seg_inter_at: "seg_at (seg_inter xs i) k = (if k \<in> ival_set i then seg_at xs k else None)"
proof (induction xs)
  case (Cons x xs)
  obtain j v where x: "x = (j, v)" by (cases x)
  have "seg_at (seg_inter (x # xs) i) k =
      (case seg_at (clip_seg i x) k of None \<Rightarrow> seg_at (seg_inter xs i) k | Some w \<Rightarrow> Some w)"
    by (simp only: seg_inter_def list.map concat.simps seg_at_append)
  then show ?case
    unfolding clip_seg_at Cons.IH by (simp add: x)
qed (simp add: seg_inter_def)

lemma clip_seg_ok:
  shows "segs_ok (clip_seg i x)"
    and "y \<in> set (clip_seg i x) \<Longrightarrow> fst (fst x) \<le> fst (fst y) \<and> snd (fst y) \<le> snd (fst x)"
proof -
  obtain l u a b v where ix: "i = (l, u)" "x = ((a, b), v)"
    by (metis surj_pair)
  show "segs_ok (clip_seg i x)"
    unfolding ix by (simp add: segs_ok_Cons del: max.bounded_iff min.bounded_iff)
  show "y \<in> set (clip_seg i x) \<Longrightarrow> fst (fst x) \<le> fst (fst y) \<and> snd (fst y) \<le> snd (fst x)"
    unfolding ix by (simp split: if_splits)
qed

lemma seg_inter_ok: "segs_ok xs \<Longrightarrow> segs_ok (seg_inter xs i)"
  unfolding seg_inter_def
  using segs_ok_concat_map [of xs "clip_seg i"] clip_seg_ok by blast

lemma seg_at_map: "seg_at (map (map_prod id f) xs) k = map_option f (seg_at xs k)"
  by (induction xs k rule: seg_at.induct) simp_all

lemma segs_ok_map: "segs_ok (map (map_prod id f) xs) = segs_ok xs"
  by (simp add: segs_ok_def sorted_wrt_map)

lemma seg_inter_Nil:
  assumes "segs_ok xs"
  shows "seg_inter xs i \<noteq> [] \<longleftrightarrow> (\<exists>k \<in> ival_set i. seg_at xs k \<noteq> None)"
proof
  assume "seg_inter xs i \<noteq> []"
  then obtain j v ys where j: "seg_inter xs i = (j, v) # ys"
    by (metis neq_Nil_conv surj_pair)
  then have "fst j \<le> snd j"
    using seg_inter_ok [OF assms, of i] by (simp add: segs_ok_Cons)
  then have "seg_at (seg_inter xs i) (fst j) = Some v"
    using j by (simp add: ival_set_def)
  then show "\<exists>k \<in> ival_set i. seg_at xs k \<noteq> None"
    by (auto simp: seg_inter_at split: if_splits)
next
  assume "\<exists>k \<in> ival_set i. seg_at xs k \<noteq> None"
  then obtain k where "k \<in> ival_set i" "seg_at xs k \<noteq> None"
    by blast
  then have "seg_at (seg_inter xs i) k \<noteq> None"
    by (simp add: seg_inter_at)
  then show "seg_inter xs i \<noteq> []" by auto
qed

interpretation list_map: icl_map list_map_ops
  by unfold_locales
    (simp_all add: list_map_ops_def im_at_def seg_add_ok seg_erase_ok seg_inter_ok segs_ok_map
      seg_add_at seg_erase_at seg_inter_at seg_at_map seg_inter_Nil)

section \<open>Interval lists as interval sets\<close>

fun ival_add :: "ival \<Rightarrow> ival list \<Rightarrow> ival list" where
  "ival_add (l, u) [] = [(l, u)]"
| "ival_add (l, u) ((a, b) # xs) =
     (if b < l \<and> b + 1 \<noteq> l then (a, b) # ival_add (l, u) xs
      else if u < a \<and> u + 1 \<noteq> a then (l, u) # (a, b) # xs
      else ival_add (min l a, max u b) xs)"

definition ivals_add :: "ival list \<Rightarrow> ival \<Rightarrow> ival list" where
  "ivals_add xs i = (if snd i < fst i then xs else ival_add i xs)"

fun cut_ival :: "ival \<Rightarrow> ival \<Rightarrow> ival list" where
  "cut_ival (l, u) (a, b) =
     (if u < l \<or> b < l \<or> u < a then [(a, b)]
      else (if a < l then [(a, l - 1)] else []) @ (if u < b then [(u + 1, b)] else []))"

definition ivals_erase :: "ival list \<Rightarrow> ival \<Rightarrow> ival list" where
  "ivals_erase xs i = concat (map (cut_ival i) xs)"

definition ivals_within :: "ival \<Rightarrow> ival list \<Rightarrow> bool" where
  "ivals_within i xs \<longleftrightarrow> snd i < fst i \<or> (\<exists>j \<in> set xs. fst j \<le> fst i \<and> snd i \<le> snd j)"

definition list_set_ops :: "ival list icl_set_ops" where
  "list_set_ops =
     \<lparr>is_inv = ivals_ok, is_empty_set = [], is_intervals = id, is_add = ivals_add,
      is_erase = ivals_erase, is_within = ivals_within\<rparr>"

definition ivals_elems :: "ival list \<Rightarrow> addr_t set" where
  "ivals_elems xs = (\<Union>i \<in> set xs. ival_set i)"

lemma ivals_elems_simps [simp]:
  "ivals_elems [] = {}"
  "ivals_elems (i # xs) = ival_set i \<union> ivals_elems xs"
  by (simp_all add: ivals_elems_def)

lemma touching_union:
  fixes l u a b :: addr_t
  assumes "l \<le> u" "a \<le> b" "\<not> (b < l \<and> b + 1 \<noteq> l)" "\<not> (u < a \<and> u + 1 \<noteq> a)"
  shows "{min l a..max u b} = {l..u} \<union> {a..b}"
proof -
  have sub: "k \<in> {l..u} \<union> {a..b}" if "min l a \<le> k" "k \<le> max u b" for k
  proof (cases "b < l")
    case True
    then have "k \<le> b \<or> l \<le> k"
      using assms(3) succ_le_word [OF True, of k] by (metis not_le)
    with that True assms(1,2) show ?thesis
      by (auto simp: min_def max_def split: if_splits)
  next
    case False
    show ?thesis
    proof (cases "u < a")
      case True
      then have "k \<le> u \<or> a \<le> k"
        using assms(4) succ_le_word [OF True, of k] by (metis not_le)
      with that True assms(1,2) show ?thesis
        by (auto simp: min_def max_def split: if_splits)
    next
      case False
      with that \<open>\<not> b < l\<close> show ?thesis
        by (auto simp: min_def max_def split: if_splits)
    qed
  qed
  show ?thesis
  proof (intro subset_antisym subsetI)
    fix k assume "k \<in> {min l a..max u b}"
    then show "k \<in> {l..u} \<union> {a..b}" using sub [of k] by simp
  next
    fix k assume "k \<in> {l..u} \<union> {a..b}"
    then show "k \<in> {min l a..max u b}"
      by (auto simp: min_le_iff_disj le_max_iff_disj)
  qed
qed

lemma ival_add_elems:
  "ivals_ok xs \<Longrightarrow> fst i \<le> snd i \<Longrightarrow> ivals_elems (ival_add i xs) = ivals_elems xs \<union> ival_set i"
proof (induction i xs rule: ival_add.induct)
  case (2 l u a b xs)
  consider "b < l \<and> b + 1 \<noteq> l" | "\<not> (b < l \<and> b + 1 \<noteq> l)" "u < a \<and> u + 1 \<noteq> a"
    | "\<not> (b < l \<and> b + 1 \<noteq> l)" "\<not> (u < a \<and> u + 1 \<noteq> a)"
    by blast
  then show ?case
  proof cases
    case 1
    then have "ival_add (l, u) ((a, b) # xs) = (a, b) # ival_add (l, u) xs"
      by (simp only: ival_add.simps if_True simp_thms)
    moreover have "ivals_elems (ival_add (l, u) xs) = ivals_elems xs \<union> ival_set (l, u)"
      using "2.IH"(1) [OF 1] "2.prems" by (simp add: ivals_ok_Cons)
    ultimately show ?thesis by (simp only: ivals_elems_simps) blast
  next
    case 2
    then have "ival_add (l, u) ((a, b) # xs) = (l, u) # (a, b) # xs"
      by (simp only: ival_add.simps if_False if_True simp_thms)
    then show ?thesis by (simp only: ivals_elems_simps) blast
  next
    case 3
    have ab: "a \<le> b" "ivals_ok xs" using "2.prems" by (simp_all add: ivals_ok_Cons)
    have mm: "min l a \<le> max u b" using "2.prems" by (auto simp: min_le_iff_disj le_max_iff_disj)
    have "ivals_elems (ival_add (l, u) ((a, b) # xs)) = ivals_elems xs \<union> {min l a..max u b}"
      using "2.IH"(2) [OF 3 ab(2)] mm 3 by (simp only: ival_add.simps if_False fst_conv snd_conv ival_set_pair)
    also have "\<dots> = ivals_elems xs \<union> ({l..u} \<union> {a..b})"
      using touching_union [OF _ ab(1) 3] "2.prems" by simp
    finally show ?thesis by auto
  qed
qed simp

lemma ival_add_fst: "j \<in> set (ival_add i xs) \<Longrightarrow> fst j = fst i \<or> fst j \<in> fst ` set xs"
proof (induction i xs rule: ival_add.induct)
  case (2 l u a b xs)
  consider "b < l \<and> b + 1 \<noteq> l" | "\<not> (b < l \<and> b + 1 \<noteq> l)" "u < a \<and> u + 1 \<noteq> a"
    | "\<not> (b < l \<and> b + 1 \<noteq> l)" "\<not> (u < a \<and> u + 1 \<noteq> a)"
    by blast
  then show ?case
  proof cases
    case 1
    with "2.prems" have "j = (a, b) \<or> j \<in> set (ival_add (l, u) xs)"
      by (simp only: ival_add.simps if_True list.set insert_iff simp_thms)
    with "2.IH"(1) [OF 1] show ?thesis by auto
  next
    case 2
    with "2.prems" have "j = (l, u) \<or> j = (a, b) \<or> j \<in> set xs"
      by (simp only: ival_add.simps if_False if_True list.set insert_iff simp_thms)
    then show ?thesis by auto
  next
    case 3
    have "min l a = l \<or> min l a = a" by (simp add: min_def)
    moreover have "j \<in> set (ival_add (min l a, max u b) xs)"
      using "2.prems" 3 by (simp only: ival_add.simps if_False)
    ultimately show ?thesis using "2.IH"(2) [OF 3] by auto
  qed
qed simp

lemma ival_add_ok: "ivals_ok xs \<Longrightarrow> fst i \<le> snd i \<Longrightarrow> ivals_ok (ival_add i xs)"
proof (induction i xs rule: ival_add.induct)
  case (1 l u)
  then show ?case by (simp add: ivals_ok_Cons)
next
  case (2 l u a b xs)
  have pre: "a \<le> b" "ivals_ok xs" "l \<le> u" "\<forall>j \<in> set xs. b < fst j \<and> b + 1 \<noteq> fst j"
    using "2.prems" by (simp_all add: ivals_ok_Cons)
  consider "b < l \<and> b + 1 \<noteq> l" | "\<not> (b < l \<and> b + 1 \<noteq> l)" "u < a \<and> u + 1 \<noteq> a"
    | "\<not> (b < l \<and> b + 1 \<noteq> l)" "\<not> (u < a \<and> u + 1 \<noteq> a)"
    by blast
  then show ?case
  proof cases
    case 1
    have "b < fst j \<and> b + 1 \<noteq> fst j" if "j \<in> set (ival_add (l, u) xs)" for j
      using ival_add_fst [OF that] 1 pre(4) by auto
    with 1 "2.IH"(1) pre show ?thesis by (simp add: ivals_ok_Cons)
  next
    case 2
    have "u < fst j \<and> u + 1 \<noteq> fst j" if "j \<in> set xs" for j
    proof -
      have "b < fst j" using pre(4) that by blast
      then have "a < fst j" using pre(1) by (rule le_less_trans [rotated])
      moreover have "u + 1 \<le> a" using 2 succ_word [of u a] by simp
      moreover have "u < a" using 2 by simp
      ultimately show ?thesis by (metis less_trans not_less)
    qed
    then have "ivals_ok ((l, u) # (a, b) # xs)"
      using 2 pre by (simp add: ivals_ok_Cons)
    with 2 show ?thesis
      by (simp only: ival_add.simps if_False if_True simp_thms)
  next
    case 3
    have mm: "min l a \<le> max u b" using pre by (auto simp: min_le_iff_disj le_max_iff_disj)
    then have "ivals_ok (ival_add (min l a, max u b) xs)"
      using "2.IH"(2) [OF 3 pre(2)] by simp
    with 3 show ?thesis by (simp only: ival_add.simps if_False)
  qed
qed

lemma cut_ival_map: "cut_seg i (j, v) = map (\<lambda>x. (x, v)) (cut_ival i j)"
  by (cases i; cases j) simp

lemma ivals_erase_elems: "ivals_elems (ivals_erase xs i) = ivals_elems xs - ival_set i"
proof -
  have seg: "seg_at (map (\<lambda>x. (x, ())) ys) k \<noteq> None \<longleftrightarrow> k \<in> ivals_elems ys" for ys k
    by (induction ys) auto
  have "map (\<lambda>x. (x, ())) (ivals_erase xs i) = seg_erase (map (\<lambda>x. (x, ())) xs) i"
    by (simp add: ivals_erase_def seg_erase_def map_concat cut_ival_map comp_def)
  then have "k \<in> ivals_elems (ivals_erase xs i) \<longleftrightarrow> k \<in> ivals_elems xs - ival_set i" for k
    using seg [of "ivals_erase xs i" k] seg [of xs k]
    by (cases "k \<in> ival_set i") (simp_all only: seg_erase_at if_True if_False Diff_iff simp_thms)
  then show ?thesis by blast
qed

lemma cut_ival_ok:
  assumes "fst j \<le> snd j"
  shows "ivals_ok (cut_ival i j)"
    and "y \<in> set (cut_ival i j) \<Longrightarrow> fst j \<le> fst y \<and> snd y \<le> snd j"
proof -
  obtain l u a b where ij: "i = (l, u)" "j = (a, b)"
    by (metis surj_pair)
  have ab: "a \<le> b" using assms ij by simp
  have sub: "fst j \<le> fst y \<and> snd y \<le> snd j" if "y \<in> set (cut_ival i j)" for y
    using cut_seg_ok(2) [of "(j, ())" "(y, ())" i] assms that by (auto simp: cut_ival_map)
  then show "y \<in> set (cut_ival i j) \<Longrightarrow> fst j \<le> fst y \<and> snd y \<le> snd j" .
  have seg: "segs_ok (cut_seg i (j, ()))"
    using assms by (intro cut_seg_ok(1)) simp
  show "ivals_ok (cut_ival i j)"
  proof (cases "u < l \<or> b < l \<or> u < a")
    case True
    with ab show ?thesis unfolding ij by (simp add: ivals_ok_Cons)
  next
    case False
    have "a < l \<Longrightarrow> u < b \<Longrightarrow> l - 1 + 1 \<noteq> u + 1"
      using False succ_word [of u b] by auto
    with seg False show ?thesis
      unfolding ij by (cases "a < l"; cases "u < b") (simp_all add: ivals_ok_Cons segs_ok_Cons)
  qed
qed

lemma ivals_ok_append:
  "ivals_ok (xs @ ys) \<longleftrightarrow>
     ivals_ok xs \<and> ivals_ok ys \<and> (\<forall>i \<in> set xs. \<forall>j \<in> set ys. snd i < fst j \<and> snd i + 1 \<noteq> fst j)"
  by (auto simp: ivals_ok_def sorted_wrt_append)

lemma gap_mono:
  fixes a b c d :: addr_t
  assumes "a \<le> b" "b < c" "b + 1 \<noteq> c" "c \<le> d"
  shows "a < d \<and> a + 1 \<noteq> d"
proof -
  have "b + 1 < c" using succ_word [OF assms(2)] assms(3) by (meson le_neq_trans)
  moreover have "a + 1 \<le> b + 1"
    using assms(1) succ_word [OF assms(2)] by unat_arith
  moreover have "a < d" using assms by order
  ultimately show ?thesis using assms(4) by (metis not_less order_le_less_trans)
qed

lemma ivals_erase_ok: "ivals_ok xs \<Longrightarrow> ivals_ok (ivals_erase xs i)"
proof (induction xs)
  case (Cons j xs)
  have ok: "fst j \<le> snd j" "ivals_ok xs" "\<forall>x \<in> set xs. snd j < fst x \<and> snd j + 1 \<noteq> fst x"
    using Cons.prems by (simp_all add: ivals_ok_Cons)
  have "snd y < fst z \<and> snd y + 1 \<noteq> fst z"
    if y: "y \<in> set (cut_ival i j)" and z: "z \<in> set (ivals_erase xs i)" for y z
  proof -
    obtain x where x: "x \<in> set xs" "z \<in> set (cut_ival i x)"
      using z by (auto simp: ivals_erase_def)
    have "fst x \<le> snd x" using x(1) ok(2) by (simp add: ivals_ok_def)
    then have "fst x \<le> fst z" using cut_ival_ok(2) x(2) by blast
    moreover have "snd y \<le> snd j" using cut_ival_ok(2) [OF ok(1)] y by blast
    ultimately show ?thesis using gap_mono ok(3) x(1) by blast
  qed
  with Cons.IH ok cut_ival_ok(1) [OF ok(1)] show ?case
    by (simp add: ivals_erase_def ivals_ok_append)
qed (simp add: ivals_erase_def)

lemma ivals_ok_pair:
  "ivals_ok xs \<Longrightarrow> i \<in> set xs \<Longrightarrow> j \<in> set xs \<Longrightarrow> i \<noteq> j \<Longrightarrow>
     snd i < fst j \<and> snd i + 1 \<noteq> fst j \<or> snd j < fst i \<and> snd j + 1 \<noteq> fst i"
proof (induction xs)
  case (Cons x xs)
  then show ?case by (cases "i = x"; cases "j = x") (simp_all add: ivals_ok_Cons)
qed simp

lemma ivals_within_iff:
  assumes "ivals_ok xs"
  shows "ivals_within i xs \<longleftrightarrow> ival_set i \<subseteq> ivals_elems xs"
proof
  assume "ivals_within i xs"
  then consider "snd i < fst i" | j where "j \<in> set xs" "fst j \<le> fst i" "snd i \<le> snd j"
    by (auto simp: ivals_within_def)
  then show "ival_set i \<subseteq> ivals_elems xs"
  proof cases
    case 1
    then show ?thesis by (simp add: ival_set_def)
  next
    case 2
    then have "ival_set i \<subseteq> ival_set j" by (simp add: ival_set_def)
    with 2(1) show ?thesis by (auto simp: ivals_elems_def)
  qed
next
  assume sub: "ival_set i \<subseteq> ivals_elems xs"
  show "ivals_within i xs"
  proof (cases "snd i < fst i")
    case False
    then have "fst i \<in> ivals_elems xs"
      using sub by (simp add: ival_set_def subset_iff)
    then obtain j where j: "j \<in> set xs" "fst j \<le> fst i" "fst i \<le> snd j"
      by (auto simp: ivals_elems_def ival_set_def)
    have "snd i \<le> snd j"
    proof (rule ccontr)
      assume "\<not> snd i \<le> snd j"
      then have lt: "snd j < snd i" by simp
      have s: "snd j + 1 \<le> snd i" "snd j < snd j + 1" using succ_word [OF lt] by simp_all
      then have "snd j + 1 \<in> ivals_elems xs"
        using sub j(3) by (auto simp: ival_set_def subset_iff)
      then obtain x where x: "x \<in> set xs" "fst x \<le> snd j + 1" "snd j + 1 \<le> snd x"
        by (auto simp: ivals_elems_def ival_set_def)
      have "\<not> (snd j < fst x \<and> snd j + 1 \<noteq> fst x)"
        using x(2) succ_le_word [OF s(2), of "fst x"] by auto
      moreover have "\<not> snd x < fst j"
        using x(3) s(2) j(2,3) by auto
      moreover have "x \<noteq> j" using x(3) s(2) by auto
      ultimately show False
        using ivals_ok_pair [OF assms x(1) j(1)] s(2) j(2,3) x by auto
    qed
    with j show ?thesis by (auto simp: ivals_within_def)
  qed (simp add: ivals_within_def)
qed

lemma ivals_add_ok: "ivals_ok xs \<Longrightarrow> ivals_ok (ivals_add xs i)"
  by (simp add: ivals_add_def ival_add_ok)

lemma ivals_add_elems: "ivals_ok xs \<Longrightarrow> ivals_elems (ivals_add xs i) = ivals_elems xs \<union> ival_set i"
  using ival_add_elems [of xs i] by (simp add: ivals_add_def) (simp add: ival_set_def)

interpretation list_set: icl_set list_set_ops
  by unfold_locales
    (simp_all add: list_set_ops_def is_elems_def ivals_elems_def [symmetric] ivals_add_ok
      ivals_erase_ok ivals_add_elems ivals_erase_elems ivals_within_iff)

end
