(* ===== verification/XF_Strings.thy ===== *)
theory XF_Strings
  imports XF_Prelude
begin

text \<open>
  The string operations of the C and C++ standard libraries that the sources use:
  \<open>find\<close>, \<open>substr\<close>, \<open>std::to_string\<close>, \<open>atoi\<close>, \<open>stoull\<close> in base 16
  and the conversion \<open>%p\<close> of \<open>fprintf\<close>.
\<close>

section \<open>Searching and cutting\<close>

definition str_prefix :: "string \<Rightarrow> string \<Rightarrow> bool" where
  "str_prefix p s \<longleftrightarrow> take (length p) s = p"

text \<open>\<open>s.find(p)\<close>: the first position where \<open>p\<close> occurs, \<open>None\<close> for \<open>npos\<close>.\<close>

fun str_find :: "string \<Rightarrow> string \<Rightarrow> nat option" where
  "str_find p [] = (if p = [] then Some 0 else None)"
| "str_find p (c # s) =
     (if str_prefix p (c # s) then Some 0 else map_option Suc (str_find p s))"

definition str_contains :: "string \<Rightarrow> string \<Rightarrow> bool" where
  "str_contains p s \<longleftrightarrow> str_find p s \<noteq> None"

text \<open>\<open>s.substr(pos, n)\<close> throws when \<open>pos\<close> is past the end.\<close>

definition str_substr :: "string \<Rightarrow> nat \<Rightarrow> nat \<Rightarrow> ('e, string) outcome" where
  "str_substr s pos n =
     (if pos \<le> length s then xret (take n (drop pos s)) else Inl (Throw ''out_of_range''))"

lemma str_prefix_self_append [simp]: "str_prefix p (p @ s)"
  by (simp add: str_prefix_def)

lemma str_prefixD: "str_prefix p s \<Longrightarrow> \<exists>t. s = p @ t"
  by (metis append_take_drop_id str_prefix_def)

lemma str_find_zero: "str_find p s = Some 0 \<longleftrightarrow> str_prefix p s"
  by (cases s) (auto simp: str_prefix_def)

lemma str_contains_Cons: "str_contains p (c # s) \<longleftrightarrow> str_prefix p (c # s) \<or> str_contains p s"
  by (simp add: str_contains_def)

lemma str_contains_iff: "str_contains p s \<longleftrightarrow> (\<exists>a b. s = a @ p @ b)"
proof (induction s)
  case Nil
  then show ?case by (auto simp: str_contains_def)
next
  case (Cons c s)
  show ?case
  proof
    assume "str_contains p (c # s)"
    then consider "str_prefix p (c # s)" | "str_contains p s"
      by (auto simp: str_contains_Cons)
    then show "\<exists>a b. c # s = a @ p @ b"
    proof cases
      case 1
      then obtain t where "c # s = p @ t" by (blast dest: str_prefixD)
      then have "c # s = [] @ p @ t" by simp
      then show ?thesis by blast
    next
      case 2
      then obtain a b where "s = a @ p @ b" using Cons.IH by blast
      then have "c # s = (c # a) @ p @ b" by simp
      then show ?thesis by blast
    qed
  next
    assume "\<exists>a b. c # s = a @ p @ b"
    then obtain a b where ab: "c # s = a @ p @ b" by blast
    show "str_contains p (c # s)"
    proof (cases a)
      case Nil
      have "str_prefix p (c # s)" unfolding ab Nil by simp
      then show ?thesis by (simp add: str_contains_Cons)
    next
      case (Cons d a')
      with ab have "s = a' @ p @ b" by simp
      with Cons.IH show ?thesis by (auto simp: str_contains_Cons)
    qed
  qed
qed

section \<open>Decimal numbers\<close>

definition digit_char :: "nat \<Rightarrow> char" where
  "digit_char d = char_of (48 + d)"

fun nat_str :: "nat \<Rightarrow> string" where
  "nat_str n = (if n < 10 then [digit_char n] else nat_str (n div 10) @ [digit_char (n mod 10)])"

declare nat_str.simps [simp del]

definition to_string :: "int \<Rightarrow> string" where
  "to_string i = (if i < 0 then ''-'' @ nat_str (nat (- i)) else nat_str (nat i))"

definition is_digit :: "char \<Rightarrow> bool" where
  "is_digit c \<longleftrightarrow> 48 \<le> (of_char c :: nat) \<and> (of_char c :: nat) \<le> 57"

definition digit_val :: "char \<Rightarrow> nat" where
  "digit_val c = of_char c - 48"

definition is_space :: "char \<Rightarrow> bool" where
  "is_space c \<longleftrightarrow> (of_char c :: nat) = 32 \<or> (9 \<le> (of_char c :: nat) \<and> (of_char c :: nat) \<le> 13)"

fun dec_value :: "nat \<Rightarrow> string \<Rightarrow> nat" where
  "dec_value acc [] = acc"
| "dec_value acc (c # s) = (if is_digit c then dec_value (10 * acc + digit_val c) s else acc)"

text \<open>
  \<open>atoi\<close>: leading white space, an optional sign, decimal digits; zero when there are none.
  A value outside \<open>int\<close> is undefined behaviour in C, and the model returns the exact value.
\<close>

definition atoi :: "string \<Rightarrow> int" where
  "atoi s =
     (let t = dropWhile is_space s in
      case t of
        [] \<Rightarrow> 0
      | c # r \<Rightarrow>
          if c = CHR ''-'' then - int (dec_value 0 r)
          else if c = CHR ''+'' then int (dec_value 0 r)
          else int (dec_value 0 t))"

lemma digit_char_props:
  assumes "d < 10"
  shows "is_digit (digit_char d)" "digit_val (digit_char d) = d"
    "\<not> is_space (digit_char d)" "digit_char d \<noteq> CHR ''-''" "digit_char d \<noteq> CHR ''+''"
proof -
  have oc: "(of_char (digit_char d) :: nat) = 48 + d"
    using assms by (simp add: digit_char_def)
  show "is_digit (digit_char d)" "digit_val (digit_char d) = d" "\<not> is_space (digit_char d)"
    using assms by (simp_all add: is_digit_def digit_val_def is_space_def oc)
  have m: "(of_char (CHR ''-'') :: nat) = 45" "(of_char (CHR ''+'') :: nat) = 43"
    by simp_all
  show "digit_char d \<noteq> CHR ''-''" "digit_char d \<noteq> CHR ''+''"
    using oc m by auto
qed

lemma dec_value_append:
  "(\<forall>c \<in> set s. is_digit c) \<Longrightarrow> dec_value acc (s @ t) = dec_value (dec_value acc s) t"
  by (induction acc s rule: dec_value.induct) auto

lemma nat_str_digits: "c \<in> set (nat_str n) \<Longrightarrow> is_digit c"
proof (induction n rule: nat_str.induct)
  case (1 n)
  then show ?case
    by (cases "n < 10") (auto simp: nat_str.simps [of n] digit_char_props)
qed

lemma dec_value_nat_str: "dec_value 0 (nat_str n) = n"
proof (induction n rule: nat_str.induct)
  case (1 n)
  show ?case
  proof (cases "n < 10")
    case True
    then show ?thesis by (simp add: nat_str.simps [of n] digit_char_props)
  next
    case False
    have "dec_value 0 (nat_str n) = dec_value (n div 10) [digit_char (n mod 10)]"
      using False "1" nat_str_digits by (simp add: nat_str.simps [of n] dec_value_append)
    also have "\<dots> = n" by (simp add: digit_char_props)
    finally show ?thesis .
  qed
qed

lemma nat_str_Cons: "\<exists>d s. d < 10 \<and> nat_str n = digit_char d # s"
proof (induction n rule: nat_str.induct)
  case (1 n)
  show ?case
  proof (cases "n < 10")
    case True
    then show ?thesis by (auto simp: nat_str.simps [of n])
  next
    case False
    with "1" obtain d s where "d < 10" "nat_str (n div 10) = digit_char d # s" by blast
    with False show ?thesis by (auto simp: nat_str.simps [of n])
  qed
qed

lemma atoi_nat_str: "atoi (nat_str n) = int n"
proof -
  obtain d s where d: "d < 10" "nat_str n = digit_char d # s" using nat_str_Cons by blast
  then have "dropWhile is_space (nat_str n) = nat_str n" by (simp add: digit_char_props)
  with d show ?thesis
    using dec_value_nat_str [of n] by (simp add: atoi_def digit_char_props)
qed

lemma atoi_to_string: "atoi (to_string i) = i"
proof (cases "i < 0")
  case True
  have "\<not> is_space (CHR ''-'')" by (simp add: is_space_def)
  with True show ?thesis
    by (simp add: to_string_def atoi_def dec_value_nat_str)
next
  case False
  then show ?thesis by (simp add: to_string_def atoi_nat_str)
qed

lemma to_string_inj: "to_string i = to_string j \<longleftrightarrow> i = j"
  by (metis atoi_to_string)

section \<open>Hexadecimal numbers\<close>

definition hex_char :: "nat \<Rightarrow> char" where
  "hex_char d = (if d < 10 then char_of (48 + d) else char_of (87 + d))"

fun hex_str :: "nat \<Rightarrow> string" where
  "hex_str n = (if n < 16 then [hex_char n] else hex_str (n div 16) @ [hex_char (n mod 16)])"

declare hex_str.simps [simp del]

text \<open>\<open>%p\<close> of the GNU C library.\<close>

definition pointer_str :: "addr_t \<Rightarrow> string" where
  "pointer_str p = (if p = 0 then ''(nil)'' else ''0x'' @ hex_str (unat p))"

definition hex_digit_val :: "char \<Rightarrow> nat option" where
  "hex_digit_val c =
     (let n = (of_char c :: nat) in
      if 48 \<le> n \<and> n \<le> 57 then Some (n - 48)
      else if 97 \<le> n \<and> n \<le> 102 then Some (n - 87)
      else if 65 \<le> n \<and> n \<le> 70 then Some (n - 55)
      else None)"

fun hex_value :: "nat \<Rightarrow> string \<Rightarrow> nat" where
  "hex_value acc [] = acc"
| "hex_value acc (c # s) =
     (case hex_digit_val c of None \<Rightarrow> acc | Some d \<Rightarrow> hex_value (16 * acc + d) s)"

fun starts_hex :: "string \<Rightarrow> bool" where
  "starts_hex [] = False"
| "starts_hex (c # s) = (hex_digit_val c \<noteq> None)"

text \<open>
  \<open>stoull(s, NULL, 16)\<close>: white space, an optional sign, an optional \<open>0x\<close> (skipped only
  when a digit follows), hexadecimal digits. No digit is the exception
  \<open>invalid_argument\<close>, a value of more than 64 bits \<open>out_of_range\<close>; a minus sign negates
  the 64-bit result.
\<close>

definition strip_0x :: "string \<Rightarrow> string" where
  "strip_0x s =
     (case s of
        z # x # r \<Rightarrow> if z = CHR ''0'' \<and> (x = CHR ''x'' \<or> x = CHR ''X'') \<and> starts_hex r then r else s
      | _ \<Rightarrow> s)"

definition stoull16 :: "string \<Rightarrow> ('e, addr_t) outcome" where
  "stoull16 s =
     (let t = dropWhile is_space s;
          neg = (t \<noteq> [] \<and> hd t = CHR ''-'');
          u = (if t \<noteq> [] \<and> (hd t = CHR ''-'' \<or> hd t = CHR ''+'') then tl t else t);
          d = strip_0x u
      in if \<not> starts_hex d then Inl (Throw ''invalid_argument'')
         else if hex_value 0 d \<ge> 2 ^ 64 then Inl (Throw ''out_of_range'')
         else xret (if neg then - of_nat (hex_value 0 d) else of_nat (hex_value 0 d)))"

lemma hex_char_val: "d < 16 \<Longrightarrow> hex_digit_val (hex_char d) = Some d"
  by (auto simp: hex_char_def hex_digit_val_def Let_def)

lemma hex_value_append:
  "(\<forall>c \<in> set s. hex_digit_val c \<noteq> None) \<Longrightarrow> hex_value acc (s @ t) = hex_value (hex_value acc s) t"
  by (induction acc s rule: hex_value.induct) (auto split: option.splits)

lemma hex_str_digits: "c \<in> set (hex_str n) \<Longrightarrow> hex_digit_val c \<noteq> None"
proof (induction n rule: hex_str.induct)
  case (1 n)
  then show ?case
    by (cases "n < 16") (auto simp: hex_str.simps [of n] hex_char_val)
qed

lemma hex_value_hex_str: "hex_value 0 (hex_str n) = n"
proof (induction n rule: hex_str.induct)
  case (1 n)
  show ?case
  proof (cases "n < 16")
    case True
    then show ?thesis by (simp add: hex_str.simps [of n] hex_char_val)
  next
    case False
    have "hex_value 0 (hex_str n) = hex_value (n div 16) [hex_char (n mod 16)]"
      using False "1" hex_str_digits by (simp add: hex_str.simps [of n] hex_value_append)
    also have "\<dots> = n" by (simp add: hex_char_val)
    finally show ?thesis .
  qed
qed

lemma hex_str_nonempty: "hex_str n \<noteq> []"
  by (subst hex_str.simps) simp

lemma starts_hex_hex_str: "starts_hex (hex_str n)"
  using hex_str_digits [of "hd (hex_str n)" n] hex_str_nonempty [of n]
  by (cases "hex_str n") auto

lemma length_hex_str: "n < 16 ^ Suc k \<Longrightarrow> length (hex_str n) \<le> Suc k"
proof (induction k arbitrary: n)
  case 0
  then show ?case by (simp add: hex_str.simps [of n])
next
  case (Suc k)
  then have "n div 16 < 16 ^ Suc k" by (simp add: less_mult_imp_div_less)
  with Suc.IH have "length (hex_str (n div 16)) \<le> Suc k" by blast
  then show ?case by (subst hex_str.simps) simp
qed

text \<open>Reading back what \<open>%p\<close> printed.\<close>

lemma stoull16_pointer_str: "p \<noteq> 0 \<Longrightarrow> stoull16 (pointer_str p) = xret p"
proof -
  assume p: "p \<noteq> 0"
  have d: "strip_0x (''0x'' @ hex_str (unat p)) = hex_str (unat p)"
    by (simp add: strip_0x_def starts_hex_hex_str)
  have "\<not> is_space (CHR ''0'')" by (simp add: is_space_def)
  then have t: "dropWhile is_space (''0x'' @ hex_str (unat p)) = ''0x'' @ hex_str (unat p)" by simp
  have "unat p < 2 ^ 64" using unsigned_less [where w = p and 'a = nat] by simp
  then show ?thesis
    using p d t by (simp add: stoull16_def pointer_str_def Let_def starts_hex_hex_str hex_value_hex_str)
qed

end
