(* ===== verification/XF_Shadow.thy ===== *)
theory XF_Shadow
  imports XF_Trace XF_ICL XF_Strings
begin

text \<open>
  The class \<open>ShadowPM\<close> of \<open>include/xfdetector.hh\<close> and \<open>src/shadow_pm.cc\<close>: the shadow of
  the persistent memory of the program under test, with the persistence status, the time of the
  last modification and the writing instruction of every address, and the transactions of every
  thread. Every method is a function from the shadow to an outcome; the messages it reports are
  part of the outcome.
\<close>

section \<open>What the methods call outside the class\<close>

text \<open>
  The interval containers of Boost.ICL, one set of operations per instance of the template, and
  the lines of the files \<open>std::ifstream\<close> opens (a file that does not exist has none).
\<close>

record ('sm, 'tm, 'im, 'is) xenv =
  st_ops :: "('sm, PMStatus) icl_map_ops"
  ts_ops :: "('tm, timestamp_t) icl_map_ops"
  ip_ops :: "('im, addr_t) icl_map_ops"
  is_ops :: "'is icl_set_ops"
  files :: "string \<Rightarrow> string list"

section \<open>The container macros\<close>

definition closed_ival :: "addr_t \<Rightarrow> sz_t \<Rightarrow> ival" where
  "closed_ival addr sz = (addr, sz + addr - 1)"

definition SET_INSERT :: "'s icl_set_ops \<Rightarrow> 's \<Rightarrow> addr_t \<Rightarrow> sz_t \<Rightarrow> 's" where
  "SET_INSERT S s addr sz = is_add S s (closed_ival addr sz)"

definition SET_LOOKUP :: "'s icl_set_ops \<Rightarrow> 's \<Rightarrow> addr_t \<Rightarrow> sz_t \<Rightarrow> bool" where
  "SET_LOOKUP S s addr sz = is_within S (closed_ival addr sz) s"

definition MAP_UPDATE :: "('m, 'v) icl_map_ops \<Rightarrow> 'm \<Rightarrow> addr_t \<Rightarrow> sz_t \<Rightarrow> 'v \<Rightarrow> 'm" where
  "MAP_UPDATE M m addr sz new_val = im_add M m (closed_ival addr sz) new_val"

definition MAP_UPDATE_INTERVAL :: "('m, 'v) icl_map_ops \<Rightarrow> 'm \<Rightarrow> ival \<Rightarrow> 'v \<Rightarrow> 'm" where
  "MAP_UPDATE_INTERVAL M m update_interval new_val = im_add M m update_interval new_val"

definition MAP_REMOVE :: "('m, 'v) icl_map_ops \<Rightarrow> 'm \<Rightarrow> addr_t \<Rightarrow> sz_t \<Rightarrow> 'm" where
  "MAP_REMOVE M m addr sz = im_erase M m (closed_ival addr sz)"

definition MAP_LOOKUP :: "('m, 'v) icl_map_ops \<Rightarrow> 'm \<Rightarrow> addr_t \<Rightarrow> sz_t \<Rightarrow> (ival \<times> 'v) list" where
  "MAP_LOOKUP M m addr sz = im_segments M (im_inter M m (closed_ival addr sz))"

definition MAP_INTERSECT :: "('m, 'v) icl_map_ops \<Rightarrow> 'm \<Rightarrow> addr_t \<Rightarrow> sz_t \<Rightarrow> bool" where
  "MAP_INTERSECT M m addr sz = im_intersects M m (closed_ival addr sz)"

lemmas macro_defs = SET_INSERT_def SET_LOOKUP_def MAP_UPDATE_def MAP_UPDATE_INTERVAL_def
  MAP_REMOVE_def MAP_LOOKUP_def MAP_INTERSECT_def

section \<open>The class and its constructors\<close>

record ('sm, 'tm, 'im, 'is) ShadowPM =
  commit_var_set_addr :: 'is
  write_addr_IP_mapping :: 'im
  global_timestamp :: timestamp_t
  pm_status :: 'sm
  pm_modify_timestamps :: 'tm
  pre_InternalFunctLevel :: "int list"
  tx_added_addr :: "'is list"
  tx_alloc_addr_IP_mapping :: "'im list"
  tx_added_addr_IP_mapping :: "'im list"
  tx_non_added_write_addr :: "'is list"
  tx_level :: "int list"
  checked_addr_set :: "addr_t set"
  skipDetectionStatus :: "int list"
  commit_timestamp :: timestamp_t

definition ShadowPM_new :: "('sm, 'tm, 'im, 'is) xenv \<Rightarrow> ('sm, 'tm, 'im, 'is) ShadowPM" where
  "ShadowPM_new E =
     \<lparr>commit_var_set_addr = is_empty_set (is_ops E),
      write_addr_IP_mapping = im_empty (ip_ops E),
      global_timestamp = 0,
      pm_status = im_empty (st_ops E),
      pm_modify_timestamps = im_empty (ts_ops E),
      pre_InternalFunctLevel = replicate MAX_THREADS 0,
      tx_added_addr = replicate MAX_THREADS (is_empty_set (is_ops E)),
      tx_alloc_addr_IP_mapping = replicate MAX_THREADS (im_empty (ip_ops E)),
      tx_added_addr_IP_mapping = replicate MAX_THREADS (im_empty (ip_ops E)),
      tx_non_added_write_addr = replicate MAX_THREADS (is_empty_set (is_ops E)),
      tx_level = replicate MAX_THREADS 0,
      checked_addr_set = {},
      skipDetectionStatus = replicate MAX_THREADS 0,
      commit_timestamp = -1\<rparr>"

text \<open>
  The copy constructor does not initialise \<open>skipDetectionStatus\<close>: its content is whatever the
  stack held, the argument \<open>garbage\<close>. The member initialisers give \<open>checked_addr_set\<close> its
  default, the empty set. The allocation mapping is assigned from the mapping of the added
  addresses, as the source has it.
\<close>

definition ShadowPM_copy ::
  "int list \<Rightarrow> ('sm, 'tm, 'im, 'is) ShadowPM \<Rightarrow> ('sm, 'tm, 'im, 'is) ShadowPM" where
  "ShadowPM_copy garbage from =
     \<lparr>commit_var_set_addr = commit_var_set_addr from,
      write_addr_IP_mapping = write_addr_IP_mapping from,
      global_timestamp = global_timestamp from,
      pm_status = pm_status from,
      pm_modify_timestamps = pm_modify_timestamps from,
      pre_InternalFunctLevel = replicate MAX_THREADS 0,
      tx_added_addr = tx_added_addr from,
      tx_alloc_addr_IP_mapping = tx_added_addr_IP_mapping from,
      tx_added_addr_IP_mapping = tx_added_addr_IP_mapping from,
      tx_non_added_write_addr = tx_non_added_write_addr from,
      tx_level = replicate MAX_THREADS 0,
      checked_addr_set = {},
      skipDetectionStatus = garbage,
      commit_timestamp = commit_timestamp from\<rparr>"

section \<open>Backtraces\<close>

text \<open>
  The variable \<open>exec_id\<close> is declared \<open>static\<close> in a header: the copy of
  \<open>shadow_pm.cc\<close> is not the one \<open>ExeCtrl::init\<close> assigns in \<open>exec_ctrl.cc\<close> and keeps
  its initial value.
\<close>

definition shadow_exec_id :: int where
  "shadow_exec_id = 0"

definition MAX_BACKTRACE :: nat where
  "MAX_BACKTRACE = 10"

text \<open>The inner loop: at most \<open>MAX_BACKTRACE\<close> lines, up to the next entry.\<close>

fun backtrace_lines :: "nat \<Rightarrow> string list \<Rightarrow> event list" where
  "backtrace_lines count lines =
     (if count < MAX_BACKTRACE then
        (case lines of
           [] \<Rightarrow> []
         | line # rest \<Rightarrow>
             if str_find ''>>'' line = Some 0 \<or> \<not> str_contains '':'' line then []
             else BacktraceLine count line # backtrace_lines (Suc count) rest)
      else [])"

declare backtrace_lines.simps [simp del]

fun find_backtrace :: "nat \<Rightarrow> addr_t \<Rightarrow> string list \<Rightarrow> (event, bool) outcome" where
  "find_backtrace bt_pos ip [] = xret False"
| "find_backtrace bt_pos ip (line # rest) =
     (if str_find ''>>'' line = Some 0 then
        xbind (str_substr line 3 14) (\<lambda>hex.
        xbind (stoull16 hex) (\<lambda>n.
        if n = ip then
          xemit (BacktracePos (Suc bt_pos) # backtrace_lines 0 rest) (xret True)
        else find_backtrace (Suc bt_pos) ip rest))
      else find_backtrace (Suc bt_pos) ip rest)"

definition print_IP_linenumber_mapping ::
  "('sm, 'tm, 'im, 'is) xenv \<Rightarrow> addr_t \<Rightarrow> int \<Rightarrow> (event, bool) outcome" where
  "print_IP_linenumber_mapping E ip stage =
     (let fname = (if stage = PRE_FAILURE then ''/tmp/backtrace_pre.'' @ to_string shadow_exec_id
                   else if stage = POST_FAILURE then ''/tmp/backtrace_post.'' @ to_string shadow_exec_id
                   else [])
      in find_backtrace 0 ip (files E fname))"

end
