(* ===== verification/XF_ShadowOps.thy ===== *)
theory XF_ShadowOps
  imports XF_Shadow
begin

text \<open>
  The methods of \<open>ShadowPM\<close> in \<open>src/shadow_pm.cc\<close>, in the order of the file. A method that
  only reads the shadow returns its value; one that changes it returns the new shadow.
\<close>

unbundle bit_operations_syntax

type_synonym ('sm, 'tm, 'im, 'is) shadow_out = "(event, ('sm, 'tm, 'im, 'is) ShadowPM) outcome"

section \<open>Locations and persistence\<close>

definition is_pm_addr :: "addr_t \<Rightarrow> sz_t \<Rightarrow> bool" where
  "is_pm_addr addr sz \<longleftrightarrow>
     addr + sz < PM_ADDR_SIZE + PM_ADDR_BASE \<and> addr \<ge> PM_ADDR_BASE"

definition add_pm_addr ::
  "('sm, 'tm, 'im, 'is) xenv \<Rightarrow> trace_entry \<Rightarrow> addr_t \<Rightarrow> sz_t \<Rightarrow>
   ('sm, 'tm, 'im, 'is) ShadowPM \<Rightarrow> ('sm, 'tm, 'im, 'is) shadow_out" where
  "add_pm_addr E op addr sz s =
     xassert (sz \<noteq> 0 \<and> addr \<noteq> 0) ''size && addr''
     (xemit (if MAP_INTERSECT (st_ops E) (pm_status s) addr sz
             then [Err op ''Allocate on existing PM locations''] else [])
     (xret (s\<lparr>pm_status := MAP_UPDATE (st_ops E) (pm_status s) addr sz CLEAN\<rparr>)))"

definition add_pm_addr_post ::
  "trace_entry \<Rightarrow> addr_t \<Rightarrow> sz_t \<Rightarrow>
   ('sm, 'tm, 'im, 'is) ShadowPM \<Rightarrow> ('sm, 'tm, 'im, 'is) shadow_out" where
  "add_pm_addr_post op addr sz s = xassert (sz \<noteq> 0 \<and> addr \<noteq> 0) ''size && addr'' (xret s)"

definition remove_pm_addr ::
  "('sm, 'tm, 'im, 'is) xenv \<Rightarrow> trace_entry \<Rightarrow> addr_t \<Rightarrow> sz_t \<Rightarrow>
   ('sm, 'tm, 'im, 'is) ShadowPM \<Rightarrow> ('sm, 'tm, 'im, 'is) shadow_out" where
  "remove_pm_addr E op addr sz s =
     xassert (sz \<noteq> 0 \<and> addr \<noteq> 0) ''size && addr''
     (xemit (if \<not> is_pm_addr addr sz then [Err op ''Deallocating unallocated memory''] else [])
     (xret (s\<lparr>pm_status := MAP_REMOVE (st_ops E) (pm_status s) addr sz\<rparr>)))"

definition writeback_warn ::
  "('sm, 'tm, 'im, 'is) xenv \<Rightarrow> trace_entry \<Rightarrow> addr_t \<Rightarrow> sz_t \<Rightarrow> ival \<times> PMStatus \<Rightarrow> unit \<Rightarrow>
   (event, unit) outcome" where
  "writeback_warn E op addr sz it u =
     (if snd it = WRITEBACK_PENDING then
        xemit [Warn op ''Unnecessary writeback'', UnnecessaryFlush addr sz (instr_ptr op)]
        (xbind (print_IP_linenumber_mapping E (instr_ptr op) PRE_FAILURE) (\<lambda>_. xret u))
      else xret u)"

definition writeback_addr ::
  "('sm, 'tm, 'im, 'is) xenv \<Rightarrow> trace_entry \<Rightarrow> addr_t \<Rightarrow> sz_t \<Rightarrow>
   ('sm, 'tm, 'im, 'is) ShadowPM \<Rightarrow> ('sm, 'tm, 'im, 'is) shadow_out" where
  "writeback_addr E op addr sz s =
     xbind (xfor (writeback_warn E op addr sz) (MAP_LOOKUP (st_ops E) (pm_status s) addr sz) ()) (\<lambda>_.
     xret (s\<lparr>pm_status := MAP_UPDATE (st_ops E) (pm_status s) addr sz WRITEBACK_PENDING\<rparr>))"

definition drain_status :: "PMStatus \<Rightarrow> PMStatus" where
  "drain_status v = (if v = WRITEBACK_PENDING then WRITTEN_BACK else v)"

definition drain_writeback ::
  "('sm, 'tm, 'im, 'is) xenv \<Rightarrow> ('sm, 'tm, 'im, 'is) ShadowPM \<Rightarrow> ('sm, 'tm, 'im, 'is) ShadowPM" where
  "drain_writeback E s = s\<lparr>pm_status := im_assign (st_ops E) drain_status (pm_status s)\<rparr>"

definition modify_addr ::
  "('sm, 'tm, 'im, 'is) xenv \<Rightarrow> trace_entry \<Rightarrow> addr_t \<Rightarrow> sz_t \<Rightarrow>
   ('sm, 'tm, 'im, 'is) ShadowPM \<Rightarrow> ('sm, 'tm, 'im, 'is) shadow_out" where
  "modify_addr E op addr sz s =
     xassert (sz \<noteq> 0 \<and> addr \<noteq> 0) ''size && addr''
     (xemit (if \<not> is_pm_addr addr sz then [Err op ''Modify non-PM address''] else [])
     (xret (s\<lparr>pm_status := MAP_UPDATE (st_ops E) (pm_status s) addr sz MODIFIED,
              pm_modify_timestamps :=
                MAP_UPDATE (ts_ops E) (pm_modify_timestamps s) addr sz (global_timestamp s)\<rparr>)))"

definition set_consistent_addr ::
  "('sm, 'tm, 'im, 'is) xenv \<Rightarrow> trace_entry \<Rightarrow> addr_t \<Rightarrow> sz_t \<Rightarrow>
   ('sm, 'tm, 'im, 'is) ShadowPM \<Rightarrow> ('sm, 'tm, 'im, 'is) shadow_out" where
  "set_consistent_addr E op addr sz s =
     xassert (sz \<noteq> 0 \<and> addr \<noteq> 0) ''size && addr''
     (xemit (if \<not> is_pm_addr addr sz then [Err op ''Non-PM address is never consistent''] else [])
     (xret (s\<lparr>pm_status := MAP_UPDATE (st_ops E) (pm_status s) addr sz CONSISTENT\<rparr>)))"

definition increment_global_time ::
  "('sm, 'tm, 'im, 'is) ShadowPM \<Rightarrow> ('sm, 'tm, 'im, 'is) shadow_out" where
  "increment_global_time s =
     xbind (int_inc (global_timestamp s)) (\<lambda>t. xret (s\<lparr>global_timestamp := t\<rparr>))"

definition is_consistent ::
  "('sm, 'tm, 'im, 'is) xenv \<Rightarrow> trace_entry \<Rightarrow> addr_t \<Rightarrow> sz_t \<Rightarrow>
   ('sm, 'tm, 'im, 'is) ShadowPM \<Rightarrow> (event, bool) outcome" where
  "is_consistent E op addr sz s =
     xassert (sz \<noteq> 0 \<and> addr \<noteq> 0) ''size && addr''
     (xemit (if \<not> is_pm_addr addr sz then [Err op ''Check non-PM address''] else [])
     (xret (\<forall>it \<in> set (MAP_LOOKUP (st_ops E) (pm_status s) addr sz).
              \<not> (snd it \<noteq> CONSISTENT \<and> snd it \<noteq> CLEAN))))"

definition is_writtenback ::
  "('sm, 'tm, 'im, 'is) xenv \<Rightarrow> trace_entry \<Rightarrow> addr_t \<Rightarrow> sz_t \<Rightarrow>
   ('sm, 'tm, 'im, 'is) ShadowPM \<Rightarrow> (event, bool) outcome" where
  "is_writtenback E op addr sz s =
     xassert (sz \<noteq> 0 \<and> addr \<noteq> 0) ''size && addr''
     (xemit (if \<not> is_pm_addr addr sz then [Err op ''Check non-PM address''] else [])
     (xret (\<forall>it \<in> set (MAP_LOOKUP (st_ops E) (pm_status s) addr sz). \<not> snd it \<noteq> WRITTEN_BACK)))"

section \<open>Library calls of each thread\<close>

definition reset_internal_funct_level ::
  "int \<Rightarrow> ('sm, 'tm, 'im, 'is) ShadowPM \<Rightarrow> ('sm, 'tm, 'im, 'is) shadow_out" where
  "reset_internal_funct_level t s =
     xbind (arr_get (pre_InternalFunctLevel s) t) (\<lambda>_.
     xret (s\<lparr>pre_InternalFunctLevel := arr_set (pre_InternalFunctLevel s) t 0\<rparr>))"

definition increment_pre_internal_funct_level ::
  "int \<Rightarrow> ('sm, 'tm, 'im, 'is) ShadowPM \<Rightarrow> ('sm, 'tm, 'im, 'is) shadow_out" where
  "increment_pre_internal_funct_level t s =
     xbind (arr_get (pre_InternalFunctLevel s) t) (\<lambda>l.
     xbind (int_inc l) (\<lambda>l'.
     xret (s\<lparr>pre_InternalFunctLevel := arr_set (pre_InternalFunctLevel s) t l'\<rparr>)))"

definition decrement_pre_internal_funct_level ::
  "int \<Rightarrow> ('sm, 'tm, 'im, 'is) ShadowPM \<Rightarrow> ('sm, 'tm, 'im, 'is) shadow_out" where
  "decrement_pre_internal_funct_level t s =
     xbind (arr_get (pre_InternalFunctLevel s) t) (\<lambda>l.
     xassert (l > 0) ''internal funct level < 0''
     (xret (s\<lparr>pre_InternalFunctLevel := arr_set (pre_InternalFunctLevel s) t (l - 1)\<rparr>)))"

definition is_in_pre_internal_funct ::
  "int \<Rightarrow> ('sm, 'tm, 'im, 'is) ShadowPM \<Rightarrow> (event, bool) outcome" where
  "is_in_pre_internal_funct t s = xbind (arr_get (pre_InternalFunctLevel s) t) (\<lambda>l. xret (l > 0))"

section \<open>Transactions of each thread\<close>

definition increment_tx_level ::
  "int \<Rightarrow> int \<Rightarrow> ('sm, 'tm, 'im, 'is) ShadowPM \<Rightarrow> ('sm, 'tm, 'im, 'is) shadow_out" where
  "increment_tx_level t stage s =
     xbind (arr_get (tx_level s) t) (\<lambda>l.
     xbind (int_inc l) (\<lambda>l'. xret (s\<lparr>tx_level := arr_set (tx_level s) t l'\<rparr>)))"

text \<open>The loops that report the first instruction of a mapping and then leave.\<close>

definition report_first ::
  "('sm, 'tm, 'im, 'is) xenv \<Rightarrow> (addr_t \<Rightarrow> event) \<Rightarrow> (ival \<times> addr_t) list \<Rightarrow> (event, unit) outcome" where
  "report_first E msg segs =
     (case segs of
        [] \<Rightarrow> xret ()
      | j # _ \<Rightarrow>
          xemit [msg (snd j)]
          (xbind (print_IP_linenumber_mapping E (snd j) PRE_FAILURE) (\<lambda>_. xret ())))"

text \<open>One round of the loop over the added addresses when the outermost transaction ends.\<close>

definition commit_interval ::
  "('sm, 'tm, 'im, 'is) xenv \<Rightarrow> int \<Rightarrow> int \<Rightarrow> ival \<Rightarrow>
   ('sm, 'tm, 'im, 'is) ShadowPM \<Rightarrow> ('sm, 'tm, 'im, 'is) shadow_out" where
  "commit_interval E t stage i s =
     xbind
       (if stage = PRE_FAILURE then
          (let sz = snd i - fst i + 1; addr = fst i;
               bug_flag = (\<forall>k \<in> set (MAP_LOOKUP (st_ops E) (pm_status s) addr sz).
                             \<not> (snd k \<noteq> CONSISTENT \<and> snd k \<noteq> CLEAN))
           in if bug_flag then
                xemit [PerfNeverModified addr sz]
                (xbind (arr_get (tx_added_addr_IP_mapping s) t) (\<lambda>m.
                 xbind (report_first E PreviouslyAddedByTxAdd (MAP_LOOKUP (ip_ops E) m addr sz)) (\<lambda>_.
                 xbind (arr_get (tx_alloc_addr_IP_mapping s) t) (\<lambda>m'.
                 report_first E PreviouslyAddedByTxAlloc (MAP_LOOKUP (ip_ops E) m' addr sz)))))
              else xret ())
        else xret ())
       (\<lambda>_. xret (s\<lparr>pm_status := MAP_UPDATE_INTERVAL (st_ops E) (pm_status s) i CONSISTENT\<rparr>))"

text \<open>The four \<open>SET_CLEAR\<close> and \<open>MAP_CLEAR\<close> calls after the loop.\<close>

definition clear_staged ::
  "('sm, 'tm, 'im, 'is) xenv \<Rightarrow> int \<Rightarrow>
   ('sm, 'tm, 'im, 'is) ShadowPM \<Rightarrow> ('sm, 'tm, 'im, 'is) ShadowPM" where
  "clear_staged E t s =
     s\<lparr>tx_added_addr := arr_set (tx_added_addr s) t (is_empty_set (is_ops E)),
       tx_added_addr_IP_mapping := arr_set (tx_added_addr_IP_mapping s) t (im_empty (ip_ops E)),
       tx_alloc_addr_IP_mapping := arr_set (tx_alloc_addr_IP_mapping s) t (im_empty (ip_ops E)),
       tx_non_added_write_addr := arr_set (tx_non_added_write_addr s) t (is_empty_set (is_ops E))\<rparr>"

definition decrement_tx_level ::
  "('sm, 'tm, 'im, 'is) xenv \<Rightarrow> int \<Rightarrow> int \<Rightarrow>
   ('sm, 'tm, 'im, 'is) ShadowPM \<Rightarrow> ('sm, 'tm, 'im, 'is) shadow_out" where
  "decrement_tx_level E t stage s =
     xbind (arr_get (tx_level s) t) (\<lambda>l.
     xassert (l > 0) ''tx_level[tid]>0''
     (let s1 = s\<lparr>tx_level := arr_set (tx_level s) t (l - 1)\<rparr> in
      if l - 1 = 0 then
        xbind (arr_get (tx_added_addr s1) t) (\<lambda>added.
        xbind (xfor (commit_interval E t stage) (is_intervals (is_ops E) added) s1) (\<lambda>s2.
        xret (clear_staged E t s2)))
      else xret s1))"

definition is_in_tx :: "int \<Rightarrow> ('sm, 'tm, 'im, 'is) ShadowPM \<Rightarrow> (event, bool) outcome" where
  "is_in_tx t s = xbind (arr_get (tx_level s) t) (\<lambda>l. xret (0 < l))"

definition is_added_addr ::
  "('sm, 'tm, 'im, 'is) xenv \<Rightarrow> trace_entry \<Rightarrow> addr_t \<Rightarrow> sz_t \<Rightarrow>
   ('sm, 'tm, 'im, 'is) ShadowPM \<Rightarrow> (event, bool) outcome" where
  "is_added_addr E op addr sz s =
     xbind (arr_get (tx_added_addr s) (tid op)) (\<lambda>a. xret (SET_LOOKUP (is_ops E) a addr sz))"

definition is_non_added_write_addr ::
  "('sm, 'tm, 'im, 'is) xenv \<Rightarrow> trace_entry \<Rightarrow> addr_t \<Rightarrow> sz_t \<Rightarrow>
   ('sm, 'tm, 'im, 'is) ShadowPM \<Rightarrow> (event, bool) outcome" where
  "is_non_added_write_addr E op addr sz s =
     xbind (arr_get (tx_non_added_write_addr s) (tid op)) (\<lambda>a.
     xret (SET_LOOKUP (is_ops E) a addr sz))"

text \<open>The insertions at the end of \<open>add_tx_add_addr\<close>.\<close>

definition stage_added ::
  "('sm, 'tm, 'im, 'is) xenv \<Rightarrow> trace_entry \<Rightarrow> addr_t \<Rightarrow> sz_t \<Rightarrow> bool \<Rightarrow>
   ('sm, 'tm, 'im, 'is) ShadowPM \<Rightarrow> ('sm, 'tm, 'im, 'is) shadow_out" where
  "stage_added E op addr sz alloc s =
     (let t = tid op in
      xassert (addr \<noteq> 0 \<and> sz \<noteq> 0) ''TX_ADD-ed address/size should not be zero''
      (xbind (arr_get (tx_added_addr s) t) (\<lambda>a.
       let s1 = s\<lparr>tx_added_addr := arr_set (tx_added_addr s) t (SET_INSERT (is_ops E) a addr sz)\<rparr> in
       if \<not> alloc then
         xbind (arr_get (tx_added_addr_IP_mapping s1) t) (\<lambda>m.
         xret (s1\<lparr>tx_added_addr_IP_mapping :=
           arr_set (tx_added_addr_IP_mapping s1) t (MAP_UPDATE (ip_ops E) m addr sz (instr_ptr op))\<rparr>))
       else
         xbind (arr_get (tx_alloc_addr_IP_mapping s1) t) (\<lambda>m.
         xret (s1\<lparr>tx_alloc_addr_IP_mapping :=
           arr_set (tx_alloc_addr_IP_mapping s1) t
             (MAP_UPDATE (ip_ops E) m addr sz (instr_ptr op))\<rparr>)))))"

definition add_tx_add_addr ::
  "('sm, 'tm, 'im, 'is) xenv \<Rightarrow> trace_entry \<Rightarrow> addr_t \<Rightarrow> sz_t \<Rightarrow> int \<Rightarrow> bool \<Rightarrow>
   ('sm, 'tm, 'im, 'is) ShadowPM \<Rightarrow> ('sm, 'tm, 'im, 'is) shadow_out" where
  "add_tx_add_addr E op addr sz stage alloc s =
     (let t = tid op in
      xbind (is_non_added_write_addr E op addr sz s) (\<lambda>written.
      xbind
        (if written then
           xemit [TxAddAfterModification (instr_ptr op) addr]
           (print_IP_linenumber_mapping E (instr_ptr op) PRE_FAILURE)
         else xret False) (\<lambda>_.
      xbind (is_added_addr E op addr sz s) (\<lambda>added.
      xbind
        (if added \<and> stage = PRE_FAILURE then
           xemit [PerfAlreadyAdded (instr_ptr op) addr sz]
           (xbind (print_IP_linenumber_mapping E (instr_ptr op) PRE_FAILURE) (\<lambda>_.
            xbind (arr_get (tx_added_addr_IP_mapping s) t) (\<lambda>m.
            xbind (report_first E AddedByTxAdd (MAP_LOOKUP (ip_ops E) m addr sz)) (\<lambda>_.
            xbind (arr_get (tx_alloc_addr_IP_mapping s) t) (\<lambda>m'.
            report_first E AddedByTxAlloc (MAP_LOOKUP (ip_ops E) m' addr sz))))))
         else xret ()) (\<lambda>_.
      stage_added E op addr sz alloc s)))))"

definition add_non_tx_add_addr ::
  "('sm, 'tm, 'im, 'is) xenv \<Rightarrow> trace_entry \<Rightarrow> addr_t \<Rightarrow> sz_t \<Rightarrow>
   ('sm, 'tm, 'im, 'is) ShadowPM \<Rightarrow> ('sm, 'tm, 'im, 'is) shadow_out" where
  "add_non_tx_add_addr E op addr sz s =
     xbind (arr_get (tx_non_added_write_addr s) (tid op)) (\<lambda>a.
     xret (s\<lparr>tx_non_added_write_addr :=
       arr_set (tx_non_added_write_addr s) (tid op) (SET_INSERT (is_ops E) a addr sz)\<rparr>))"

definition get_tx_added_addr :: "int \<Rightarrow> ('sm, 'tm, 'im, 'is) ShadowPM \<Rightarrow> (event, 'is) outcome" where
  "get_tx_added_addr t s = arr_get (tx_added_addr s) t"

section \<open>Commit variables\<close>

definition add_commit_var_addr ::
  "('sm, 'tm, 'im, 'is) xenv \<Rightarrow> trace_entry \<Rightarrow> addr_t \<Rightarrow> sz_t \<Rightarrow>
   ('sm, 'tm, 'im, 'is) ShadowPM \<Rightarrow> ('sm, 'tm, 'im, 'is) ShadowPM" where
  "add_commit_var_addr E op addr sz s =
     s\<lparr>commit_var_set_addr := SET_INSERT (is_ops E) (commit_var_set_addr s) addr sz\<rparr>"

definition is_commit_var_addr ::
  "('sm, 'tm, 'im, 'is) xenv \<Rightarrow> trace_entry \<Rightarrow> addr_t \<Rightarrow> sz_t \<Rightarrow>
   ('sm, 'tm, 'im, 'is) ShadowPM \<Rightarrow> bool" where
  "is_commit_var_addr E op addr sz s = SET_LOOKUP (is_ops E) (commit_var_set_addr s) addr sz"

definition is_recent_commit_update ::
  "('sm, 'tm, 'im, 'is) xenv \<Rightarrow> trace_entry \<Rightarrow> addr_t \<Rightarrow> sz_t \<Rightarrow>
   ('sm, 'tm, 'im, 'is) ShadowPM \<Rightarrow> bool" where
  "is_recent_commit_update E op addr sz s =
     (let maxTimeStamp =
            fold (\<lambda>it m. if m > snd it then m else snd it)
              (MAP_LOOKUP (ts_ops E) (pm_modify_timestamps s) addr sz) (-2)
      in if commit_timestamp s < 0 then True else commit_timestamp s > maxTimeStamp)"

definition update_commitVar_timestamp ::
  "('sm, 'tm, 'im, 'is) ShadowPM \<Rightarrow> ('sm, 'tm, 'im, 'is) shadow_out" where
  "update_commitVar_timestamp s =
     xemit [UpdatingCommitVar (global_timestamp s)]
     (xret (s\<lparr>commit_timestamp := global_timestamp s\<rparr>))"

section \<open>Instructions that wrote an address\<close>

definition add_write_addr_IP_mapping ::
  "('sm, 'tm, 'im, 'is) xenv \<Rightarrow> trace_entry \<Rightarrow>
   ('sm, 'tm, 'im, 'is) ShadowPM \<Rightarrow> ('sm, 'tm, 'im, 'is) shadow_out" where
  "add_write_addr_IP_mapping E op s =
     xassert (operation op = WRITE) ''op_ptr->operation == WRITE''
     (let addr = dst_addr op; sz = size_of op in
      xassert (addr \<noteq> 0 \<and> sz \<noteq> 0) ''addr && size''
      (xret (s\<lparr>write_addr_IP_mapping :=
         MAP_UPDATE (ip_ops E) (write_addr_IP_mapping s) addr sz (instr_ptr op)\<rparr>)))"

definition report_write_ip ::
  "('sm, 'tm, 'im, 'is) xenv \<Rightarrow> ival \<times> addr_t \<Rightarrow> bool \<Rightarrow> (event, bool) outcome" where
  "report_write_ip E it found =
     xemit [WriteIP (snd it)]
     (xbind (print_IP_linenumber_mapping E (snd it) PRE_FAILURE) (\<lambda>_. xret True))"

definition print_look_up_write_addr_IP_mapping ::
  "('sm, 'tm, 'im, 'is) xenv \<Rightarrow> trace_entry \<Rightarrow> addr_t \<Rightarrow> sz_t \<Rightarrow>
   ('sm, 'tm, 'im, 'is) ShadowPM \<Rightarrow> (event, bool) outcome" where
  "print_look_up_write_addr_IP_mapping E op addr sz s =
     xassert (operation op = READ) ''op_ptr->operation == READ''
     (xassert (addr \<noteq> 0 \<and> sz \<noteq> 0) ''addr && size''
     (xemit [ConsistencyBug]
     (xfor (report_write_ip E) (MAP_LOOKUP (ip_ops E) (write_addr_IP_mapping s) addr sz) False)))"

section \<open>Checked addresses\<close>

definition checked_key :: "addr_t \<Rightarrow> sz_t \<Rightarrow> addr_t" where
  "checked_key addr sz = push_bit 16 addr OR sz"

definition lookup_checked_addr ::
  "addr_t \<Rightarrow> sz_t \<Rightarrow> ('sm, 'tm, 'im, 'is) ShadowPM \<Rightarrow> (event, bool) outcome" where
  "lookup_checked_addr addr sz s =
     xassert (addr \<noteq> 0 \<and> sz \<noteq> 0) ''addr && size''
     (xassert (sz < 65536) ''size<(1<<16)''
     (xret (checked_key addr sz \<in> checked_addr_set s)))"

definition insert_checked_addr ::
  "addr_t \<Rightarrow> sz_t \<Rightarrow> ('sm, 'tm, 'im, 'is) ShadowPM \<Rightarrow> ('sm, 'tm, 'im, 'is) shadow_out" where
  "insert_checked_addr addr sz s =
     xassert (addr \<noteq> 0 \<and> sz \<noteq> 0) ''addr && size''
     (xret (s\<lparr>checked_addr_set := insert (checked_key addr sz) (checked_addr_set s)\<rparr>))"

section \<open>Switching detection off\<close>

definition disable_detection ::
  "int \<Rightarrow> ('sm, 'tm, 'im, 'is) ShadowPM \<Rightarrow> ('sm, 'tm, 'im, 'is) shadow_out" where
  "disable_detection t s =
     xbind (arr_get (skipDetectionStatus s) t) (\<lambda>_.
     xret (s\<lparr>skipDetectionStatus := arr_set (skipDetectionStatus s) t 1\<rparr>))"

definition enable_detection ::
  "int \<Rightarrow> ('sm, 'tm, 'im, 'is) ShadowPM \<Rightarrow> ('sm, 'tm, 'im, 'is) shadow_out" where
  "enable_detection t s =
     xbind (arr_get (skipDetectionStatus s) t) (\<lambda>_.
     xret (s\<lparr>skipDetectionStatus := arr_set (skipDetectionStatus s) t 0\<rparr>))"

definition is_detection_disabled ::
  "int \<Rightarrow> ('sm, 'tm, 'im, 'is) ShadowPM \<Rightarrow> (event, bool) outcome" where
  "is_detection_disabled t s =
     xbind (arr_get (skipDetectionStatus s) t) (\<lambda>v. xret (v = 1))"

definition printInconsistentReadDebug ::
  "('sm, 'tm, 'im, 'is) xenv \<Rightarrow> trace_entry \<Rightarrow>
   ('sm, 'tm, 'im, 'is) ShadowPM \<Rightarrow> (event, bool) outcome" where
  "printInconsistentReadDebug E op s =
     xbind (print_look_up_write_addr_IP_mapping E op (src_addr op) (size_of op) s) (\<lambda>found.
     if found then
       xemit [ReadAddr (src_addr op) (size_of op), ReadIP (instr_ptr op)]
       (xbind (print_IP_linenumber_mapping E (instr_ptr op) POST_FAILURE) (\<lambda>_. xret True))
     else xret False)"

lemmas shadow_defs = add_pm_addr_def add_pm_addr_post_def remove_pm_addr_def writeback_addr_def
  drain_writeback_def modify_addr_def set_consistent_addr_def increment_global_time_def
  is_consistent_def is_writtenback_def

end
