(* ===== verification/XF_Detector.thy ===== *)
theory XF_Detector
  imports XF_ShadowOps
begin

text \<open>
  The class \<open>XFDetectorDetector\<close> of \<open>src/xfdetector.cc\<close>: how one trace entry changes the
  shadow of the persistent memory and what the detector reports about it. The cases of the
  \<open>switch\<close> that do more than one call have a definition of their own.
\<close>

section \<open>The completion flags\<close>

record detector =
  pre_testing_complete :: bool
  pre_failure_point_complete :: bool
  post_testing_complete :: bool

definition detector_init :: detector where
  "detector_init = \<lparr>pre_testing_complete = False, pre_failure_point_complete = False,
                    post_testing_complete = False\<rparr>"

section \<open>Reads\<close>

text \<open>
  The four tests of a read after the failure, in the order of the code: every test is evaluated,
  except that the time of the commit variable is only looked at when the data is written back.
\<close>

definition read_is_correct ::
  "('sm, 'tm, 'im, 'is) xenv \<Rightarrow> trace_entry \<Rightarrow>
   ('sm, 'tm, 'im, 'is) ShadowPM \<Rightarrow> (event, bool) outcome" where
  "read_is_correct E op s =
     (let addr = src_addr op; sz = size_of op in
      xbind (is_consistent E op addr sz s) (\<lambda>consistent.
      xbind (is_writtenback E op addr sz s) (\<lambda>writtenback.
      let committed = writtenback \<and> is_recent_commit_update E op addr sz s;
          commit_var = is_commit_var_addr E op addr sz s
      in xbind (is_added_addr E op addr sz s) (\<lambda>added.
         xret (consistent \<or> committed \<or> commit_var \<or> added)))))"

definition report_inconsistent_read ::
  "('sm, 'tm, 'im, 'is) xenv \<Rightarrow> trace_entry \<Rightarrow>
   ('sm, 'tm, 'im, 'is) ShadowPM \<Rightarrow> (event, unit) outcome" where
  "report_inconsistent_read E op s =
     (let addr = src_addr op; sz = size_of op in
      xbind (printInconsistentReadDebug E op s) (\<lambda>addrFound.
      if addrFound then
        xbind (is_writtenback E op addr sz s) (\<lambda>writtenback.
        if \<not> writtenback then xemit [NotPersistedBeforeFailure] (xret ())
        else if \<not> is_recent_commit_update E op addr sz s then
          xemit [NotPersistedBeforeCommitVar] (xret ())
        else xemit [OtherBug] (xret ()))
      else xret ()))"

definition check_read ::
  "('sm, 'tm, 'im, 'is) xenv \<Rightarrow> int \<Rightarrow> trace_entry \<Rightarrow>
   ('sm, 'tm, 'im, 'is) ShadowPM \<Rightarrow> (event, unit) outcome" where
  "check_read E stage op s =
     (if stage = POST_FAILURE then
        xbind (is_detection_disabled (tid op) s) (\<lambda>disabled.
        if \<not> disabled then
          xbind (lookup_checked_addr (src_addr op) (size_of op) s) (\<lambda>checked.
          if checked then xret ()
          else
            xbind (read_is_correct E op s) (\<lambda>isCorrect.
            if \<not> isCorrect then report_inconsistent_read E op s else xret ()))
        else xret ())
      else xret ())"

section \<open>Writes\<close>

definition write_commit_var ::
  "('sm, 'tm, 'im, 'is) xenv \<Rightarrow> int \<Rightarrow> trace_entry \<Rightarrow>
   ('sm, 'tm, 'im, 'is) ShadowPM \<Rightarrow> ('sm, 'tm, 'im, 'is) shadow_out" where
  "write_commit_var E stage op s =
     (if stage = PRE_FAILURE \<and> is_commit_var_addr E op (dst_addr op) (size_of op) s then
        xbind (update_commitVar_timestamp s) (\<lambda>s1. add_write_addr_IP_mapping E op s1)
      else xret s)"

definition write_in_tx ::
  "('sm, 'tm, 'im, 'is) xenv \<Rightarrow> trace_entry \<Rightarrow>
   ('sm, 'tm, 'im, 'is) ShadowPM \<Rightarrow> ('sm, 'tm, 'im, 'is) shadow_out" where
  "write_in_tx E op s =
     xbind (is_in_tx (tid op) s) (\<lambda>in_tx.
     if in_tx then
       xbind (is_added_addr E op (dst_addr op) (size_of op) s) (\<lambda>added.
       if \<not> added then
         xbind (add_non_tx_add_addr E op (dst_addr op) (size_of op) s) (\<lambda>s1.
         xemit [ModifyBeforeTxAdd (instr_ptr op) (dst_addr op)]
         (xbind (print_IP_linenumber_mapping E (instr_ptr op) PRE_FAILURE) (\<lambda>_. xret s1)))
       else xret s)
     else xret s)"

text \<open>After a failure the thread number is not looked at: the condition is short-circuited.\<close>

definition write_is_trusted ::
  "int \<Rightarrow> trace_entry \<Rightarrow> ('sm, 'tm, 'im, 'is) ShadowPM \<Rightarrow> (event, bool) outcome" where
  "write_is_trusted stage op s =
     (if stage = POST_FAILURE then xret True else is_detection_disabled (tid op) s)"

definition write_data ::
  "('sm, 'tm, 'im, 'is) xenv \<Rightarrow> int \<Rightarrow> trace_entry \<Rightarrow>
   ('sm, 'tm, 'im, 'is) ShadowPM \<Rightarrow> ('sm, 'tm, 'im, 'is) shadow_out" where
  "write_data E stage op s =
     (let addr = dst_addr op; sz = size_of op in
      xbind (write_is_trusted stage op s) (\<lambda>trusted.
      if trusted then
        xbind (modify_addr E op addr sz s) (\<lambda>s1.
        xbind (set_consistent_addr E op addr sz s1) (\<lambda>s2.
        add_write_addr_IP_mapping E op s2))
      else
        xbind (is_in_pre_internal_funct (tid op) s) (\<lambda>internal.
        if internal then
          xbind (modify_addr E op addr sz s) (\<lambda>s1. set_consistent_addr E op addr sz s1)
        else
          xbind (write_in_tx E op s) (\<lambda>s1.
          xbind (modify_addr E op addr sz s1) (\<lambda>s2.
          xbind (if non_temporal op \<noteq> 0 then writeback_addr E op addr sz s2 else xret s2) (\<lambda>s3.
          add_write_addr_IP_mapping E op s3))))))"

definition handle_write ::
  "('sm, 'tm, 'im, 'is) xenv \<Rightarrow> int \<Rightarrow> trace_entry \<Rightarrow>
   ('sm, 'tm, 'im, 'is) ShadowPM \<Rightarrow> ('sm, 'tm, 'im, 'is) shadow_out" where
  "handle_write E stage op s =
     xbind (write_commit_var E stage op s) (\<lambda>s1. write_data E stage op s1)"

section \<open>The other operations on the shadow\<close>

definition handle_map ::
  "('sm, 'tm, 'im, 'is) xenv \<Rightarrow> int \<Rightarrow> trace_entry \<Rightarrow>
   ('sm, 'tm, 'im, 'is) ShadowPM \<Rightarrow> ('sm, 'tm, 'im, 'is) shadow_out" where
  "handle_map E stage op s =
     (if stage = PRE_FAILURE then add_pm_addr E op (dst_addr op) (size_of op) s
      else add_pm_addr_post op (dst_addr op) (size_of op) s)"

definition handle_sfence ::
  "('sm, 'tm, 'im, 'is) xenv \<Rightarrow> int \<Rightarrow>
   ('sm, 'tm, 'im, 'is) ShadowPM \<Rightarrow> ('sm, 'tm, 'im, 'is) shadow_out" where
  "handle_sfence E stage s =
     (let s1 = drain_writeback E s in
      if stage = PRE_FAILURE then increment_global_time s1 else xret s1)"

definition handle_skip_begin ::
  "int \<Rightarrow> ('sm, 'tm, 'im, 'is) ShadowPM \<Rightarrow> ('sm, 'tm, 'im, 'is) shadow_out" where
  "handle_skip_begin t s =
     xbind (is_detection_disabled t s) (\<lambda>d.
     xassert (\<not> d) ''Trace skip already enabled.'' (disable_detection t s))"

definition handle_skip_end ::
  "int \<Rightarrow> ('sm, 'tm, 'im, 'is) ShadowPM \<Rightarrow> ('sm, 'tm, 'im, 'is) shadow_out" where
  "handle_skip_end t s =
     xbind (is_detection_disabled t s) (\<lambda>d.
     xassert d ''Trace skip is not enabled.'' (enable_detection t s))"

text \<open>The cases of the \<open>switch\<close> as they change the shadow.\<close>

fun shadow_op ::
  "('sm, 'tm, 'im, 'is) xenv \<Rightarrow> int \<Rightarrow> pm_op_t \<Rightarrow> trace_entry \<Rightarrow>
   ('sm, 'tm, 'im, 'is) ShadowPM \<Rightarrow> ('sm, 'tm, 'im, 'is) shadow_out" where
  "shadow_op E stage TRACE_END op s = xemit [FailurePointIP (instr_ptr op)] (xret s)"
| "shadow_op E stage TRACE_BEGIN op s = xret s"
| "shadow_op E stage TESTING_END op s = xret s"
| "shadow_op E stage READ op s = xbind (check_read E stage op s) (\<lambda>_. xret s)"
| "shadow_op E stage WRITE op s = handle_write E stage op s"
| "shadow_op E stage CLWB op s =
     (if stage = PRE_FAILURE then writeback_addr E op (src_addr op) (size_of op) s else xret s)"
| "shadow_op E stage SFENCE op s = handle_sfence E stage s"
| "shadow_op E stage PMEM_MAP_FILE op s = xret s"
| "shadow_op E stage PM_TRACE_PM_ADDR_ADD op s = handle_map E stage op s"
| "shadow_op E stage PMEM_UNMAP op s = remove_pm_addr E op (src_addr op) (size_of op) s"
| "shadow_op E stage PM_TRACE_PM_ADDR_REMOVE op s =
     remove_pm_addr E op (src_addr op) (size_of op) s"
| "shadow_op E stage PM_TRACE_TX_ADDR_ADD op s =
     add_tx_add_addr E op (dst_addr op) (size_of op) stage False s"
| "shadow_op E stage PM_TRACE_TX_ALLOC op s =
     add_tx_add_addr E op (dst_addr op) (size_of op) stage True s"
| "shadow_op E stage PM_TRACE_TX_BEGIN op s = increment_tx_level (tid op) stage s"
| "shadow_op E stage PM_TRACE_TX_END op s = decrement_tx_level E (tid op) stage s"
| "shadow_op E stage PMDK_INTERNAL_CALL op s = increment_pre_internal_funct_level (tid op) s"
| "shadow_op E stage PMDK_INTERNAL_RET op s = decrement_pre_internal_funct_level (tid op) s"
| "shadow_op E stage ADD_COMMIT_VAR op s =
     xret (if stage = PRE_FAILURE then add_commit_var_addr E op (src_addr op) (size_of op) s else s)"
| "shadow_op E stage PM_TRACE_DETECTION_SKIP_BEGIN op s = handle_skip_begin (tid op) s"
| "shadow_op E stage PM_TRACE_DETECTION_SKIP_END op s = handle_skip_end (tid op) s"
| "shadow_op E stage INVALID op s = xemit [InvalidOps] (xret s)"

text \<open>The flags the cases \<open>TRACE_END\<close> and \<open>TESTING_END\<close> set.\<close>

definition flag_op :: "int \<Rightarrow> pm_op_t \<Rightarrow> detector \<Rightarrow> detector" where
  "flag_op stage opn d =
     (if opn = TRACE_END \<and> stage = PRE_FAILURE then d\<lparr>pre_failure_point_complete := True\<rparr>
      else if opn = TESTING_END \<and> stage = PRE_FAILURE then d\<lparr>pre_testing_complete := True\<rparr>
      else if opn = TESTING_END \<and> stage = POST_FAILURE then d\<lparr>post_testing_complete := True\<rparr>
      else d)"

definition update_shadow ::
  "('sm, 'tm, 'im, 'is) xenv \<Rightarrow> int \<Rightarrow> trace_entry \<Rightarrow>
   ('sm, 'tm, 'im, 'is) ShadowPM \<Rightarrow> ('sm, 'tm, 'im, 'is) shadow_out" where
  "update_shadow E stage op s =
     (if func_ret op then
        (if operation op = PMEM_MAP_FILE then handle_map E stage op s else xret s)
      else shadow_op E stage (operation op) op s)"

definition update_pm_status ::
  "('sm, 'tm, 'im, 'is) xenv \<Rightarrow> int \<Rightarrow> trace_entry \<Rightarrow>
   detector \<times> ('sm, 'tm, 'im, 'is) ShadowPM \<Rightarrow>
   (event, detector \<times> ('sm, 'tm, 'im, 'is) ShadowPM) outcome" where
  "update_pm_status E stage op ds =
     xbind (update_shadow E stage op (snd ds)) (\<lambda>s.
     xret (if func_ret op then fst ds else flag_op stage (operation op) (fst ds), s))"

section \<open>Debugging output\<close>

definition print_pm_trace :: "int \<Rightarrow> trace_entry \<Rightarrow> detector \<Rightarrow> (event, detector) outcome" where
  "print_pm_trace stage op d =
     xbind (arr_get pm_op_name (int (pm_op_index (operation op)))) (\<lambda>name.
     xemit [OpLine name (func_ret op) (tid op) (src_addr op) (dst_addr op) (size_of op) (instr_ptr op)]
     (if stage = PRE_FAILURE then
        (if operation op = TRACE_END then xret (d\<lparr>pre_failure_point_complete := True\<rparr>)
         else if operation op = TESTING_END then xret (d\<lparr>pre_testing_complete := True\<rparr>)
         else xret d)
      else if stage = POST_FAILURE then
        xassert (operation op \<noteq> TRACE_END) ''cur_trace->operation != TRACE_END''
        (if operation op = TESTING_END then xret (d\<lparr>post_testing_complete := True\<rparr>) else xret d)
      else xret d))"

text \<open>
  \<open>locate_bug\<close> runs a shell command through \<open>system\<close>, a parameter that gives the status of
  the command.
\<close>

definition locate_bug_command :: "trace_entry \<Rightarrow> string \<Rightarrow> string" where
  "locate_bug_command bug_trace executable =
     ''addr2line -e '' @ executable @ '' '' @ to_string (int (unat (instr_ptr bug_trace)))"

definition locate_bug :: "(string \<Rightarrow> int) \<Rightarrow> trace_entry \<Rightarrow> string \<Rightarrow> (event, unit) outcome" where
  "locate_bug system bug_trace executable =
     xassert (operation bug_trace \<noteq> INVALID) ''Invalid trace operation''
     (if system (locate_bug_command bug_trace executable) < 0 then Inl (Abort ''Locate bug fail'')
      else xret ())"

section \<open>Sequences of trace entries\<close>

definition run_trace ::
  "('sm, 'tm, 'im, 'is) xenv \<Rightarrow> int \<Rightarrow> trace_entry list \<Rightarrow>
   detector \<times> ('sm, 'tm, 'im, 'is) ShadowPM \<Rightarrow>
   (event, detector \<times> ('sm, 'tm, 'im, 'is) ShadowPM) outcome" where
  "run_trace E stage ops ds = xfor (update_pm_status E stage) ops ds"

text \<open>
  What the main loop does around one failure point: handle the trace before the failure, copy the
  shadow, handle the trace of the recovery on the copy.
\<close>

definition failure_point ::
  "('sm, 'tm, 'im, 'is) xenv \<Rightarrow> int list \<Rightarrow> trace_entry list \<Rightarrow> trace_entry list \<Rightarrow>
   detector \<times> ('sm, 'tm, 'im, 'is) ShadowPM \<Rightarrow>
   (event, detector \<times> ('sm, 'tm, 'im, 'is) ShadowPM) outcome" where
  "failure_point E garbage pre post ds =
     xbind (run_trace E PRE_FAILURE pre ds) (\<lambda>ds1.
     run_trace E POST_FAILURE post (fst ds1, ShadowPM_copy garbage (snd ds1)))"

end
