(* ===== verification/XF_ExeCtrl.thy ===== *)
theory XF_ExeCtrl
  imports XF_Trace XF_Strings
begin

text \<open>
  The class \<open>ExeCtrl\<close> of \<open>src/exec_ctrl.cc\<close>, which parses the command line and starts the
  program under test before and after a failure, and the command helpers of
  \<open>include/common.hh\<close>. The operating system is a parameter: the results of the system calls
  are arguments, and the calls themselves are the messages of the outcome.
\<close>

section \<open>Requests to the operating system\<close>

datatype sys_call =
    System string
  | Kill int int
  | Execvpe "string list" "string list"
  | Remove string
  | Mkfifo string
  | OpenFifo string
  | CloseFd int
  | WriteFd int string

section \<open>Command vectors\<close>

text \<open>
  \<open>alloc_print\<close> with one argument: the string is a format. A conversion other than
  \<open>%%\<close> reads an argument that was not passed, and the output has room for 1023 characters.
\<close>

fun expand_format :: "string \<Rightarrow> (sys_call, string) outcome" where
  "expand_format [] = xret []"
| "expand_format (c # s) =
     (if c = CHR ''%'' then
        (case s of
           [] \<Rightarrow> Inl (UB ''format directive'')
         | d # t \<Rightarrow> if d = CHR ''%'' then xbind (expand_format t) (\<lambda>r. xret (CHR ''%'' # r))
                   else Inl (UB ''format directive''))
      else xbind (expand_format s) (\<lambda>r. xret (c # r)))"

definition c_str :: "string \<Rightarrow> string" where
  "c_str s = takeWhile (\<lambda>c. c \<noteq> CHR 0x00) s"

definition alloc_print :: "string \<Rightarrow> (sys_call, string) outcome" where
  "alloc_print format =
     xbind (expand_format (c_str format)) (\<lambda>out.
     if length out < 1024 then xret out else Inl (UB ''buffer overflow''))"

text \<open>The words of a command: the loop of \<open>str2cmd\<close> cuts the string at every blank.\<close>

fun split_words :: "string \<Rightarrow> string \<Rightarrow> string list" where
  "split_words tmp [] = [tmp]"
| "split_words tmp (c # s) =
     (if c = CHR '' '' then tmp # split_words [] s else split_words (tmp @ [c]) s)"

fun alloc_words :: "string list \<Rightarrow> (sys_call, string list) outcome" where
  "alloc_words [] = xret []"
| "alloc_words (w # ws) =
     xbind (alloc_print w) (\<lambda>v. xbind (alloc_words ws) (\<lambda>vs. xret (v # vs)))"

text \<open>The vector has 1024 entries, the last of them the terminating null pointer.\<close>

definition str2cmd :: "string \<Rightarrow> (sys_call, string list) outcome" where
  "str2cmd str =
     xbind (alloc_words (split_words [] str)) (\<lambda>cmd.
     if length cmd + 1 \<le> 1024 then xret cmd else Inl (UB ''buffer overflow''))"

definition cmd2str :: "string list \<Rightarrow> string" where
  "cmd2str cmd = concat (map (\<lambda>w. w @ '' '') cmd)"

section \<open>The state of the class\<close>

definition POOL_IMAGE_IDENTIFIER :: string where
  "POOL_IMAGE_IDENTIFIER = ''__POOL_IMAGE__''"

definition PIN_TRACK_READ :: string where
  "PIN_TRACK_READ = ''-r 1 ''"

definition PIN_ENABLE_FIFO :: string where
  "PIN_ENABLE_FIFO = ''-t 1 ''"

definition PIN_ENABLE_FAILURE :: string where
  "PIN_ENABLE_FAILURE = ''-f 1 ''"

definition PIN_REDIRECT_OUT :: string where
  "PIN_REDIRECT_OUT = ''-o out ''"

definition PIN_SET_EXECID :: "int \<Rightarrow> string" where
  "PIN_SET_EXECID val = ''-i '' @ to_string val"

definition PIN_SET_FAILURE_FILE :: "string \<Rightarrow> string" where
  "PIN_SET_FAILURE_FILE val = ''-l '' @ val"

lemmas pin_flag_defs = PIN_TRACK_READ_def PIN_ENABLE_FIFO_def PIN_ENABLE_FAILURE_def
  PIN_REDIRECT_OUT_def PIN_SET_EXECID_def PIN_SET_FAILURE_FILE_def

record exe_ctrl =
  exec_id :: int
  pre_failure_pid :: int
  post_failure_pid :: int
  target_cmd :: "string list"
  failure_point_file :: string
  pintool_path :: string
  pm_image_name :: string
  pre_failure_exec_command :: string
  pin_pre_failure_option :: string
  pin_post_failure_option :: string

text \<open>Static storage is zero, and the options have member initialisers.\<close>

definition exe_ctrl_init :: exe_ctrl where
  "exe_ctrl_init =
     \<lparr>exec_id = 0, pre_failure_pid = 0, post_failure_pid = 0, target_cmd = [],
      failure_point_file = [], pintool_path = [], pm_image_name = [], pre_failure_exec_command = [],
      pin_pre_failure_option = PIN_ENABLE_FAILURE @ PIN_ENABLE_FIFO,
      pin_post_failure_option = PIN_TRACK_READ @ PIN_ENABLE_FIFO @ PIN_REDIRECT_OUT\<rparr>"

section \<open>Parsing the command line\<close>

text \<open>
  Every word that contains the placeholder is replaced as a whole. The last blank is dropped; on an
  empty command there is none, and the iterator before the beginning is undefined behaviour.
\<close>

definition rename_pool_img :: "string \<Rightarrow> exe_ctrl \<Rightarrow> (sys_call, string) outcome" where
  "rename_pool_img new_pool_name C =
     (let result = concat (map (\<lambda>cmd_param.
            (if str_contains POOL_IMAGE_IDENTIFIER cmd_param then new_pool_name else cmd_param) @ '' '')
            (target_cmd C))
      in if result = [] then Inl (UB ''string iterator'') else xret (butlast result))"

text \<open>
  \<open>std::regex_replace\<close> of a literal pattern by a text without \<open>$\<close>: every occurrence, from
  left to right.
\<close>

fun replace_all :: "string \<Rightarrow> string \<Rightarrow> string \<Rightarrow> string" where
  "replace_all p r [] = []"
| "replace_all p r (c # s) =
     (if p \<noteq> [] \<and> str_prefix p (c # s) then r @ replace_all p r (drop (length p - 1) s)
      else c # replace_all p r s)"

text \<open>The lambda \<open>err_and_exit\<close> prints the message and the help text and exits.\<close>

definition err_and_exit :: "string \<Rightarrow> (sys_call, 'a) outcome" where
  "err_and_exit msg = Inl (Exit 1)"

text \<open>
  The loop over the arguments, with the position, the rest of the arguments, the name of the pool
  image and the object.
\<close>

fun parse_args ::
  "nat \<Rightarrow> string list \<Rightarrow> string \<Rightarrow> exe_ctrl \<Rightarrow> (sys_call, string \<times> exe_ctrl) outcome" where
  "parse_args i [] pool C = xret (pool, C)"
| "parse_args i (arg # args) pool C =
     (if i = 1 then parse_args (Suc i) args pool (C\<lparr>pintool_path := arg\<rparr>)
      else if i = 2 then parse_args (Suc i) args arg C
      else
        (let option = ''--failure-points='';
             C1 = (if take (length option) arg = option
                   then C\<lparr>failure_point_file := drop (length option) arg\<rparr> else C)
         in if arg = ''--'' then
              (if args = [] then err_and_exit ''No command target supplied.''
               else xret (pool, C1\<lparr>target_cmd := args\<rparr>))
            else parse_args (Suc i) args pool C1))"

text \<open>The position of the first separator, as \<open>std::find\<close> gives it.\<close>

fun find_separator :: "string list \<Rightarrow> nat option" where
  "find_separator [] = None"
| "find_separator (a # as) = (if a = ''--'' then Some 0 else map_option Suc (find_separator as))"

text \<open>
  \<open>idx - 1 < 2\<close> is computed on unsigned 64-bit numbers: a separator in the first place is not
  rejected. The last word of the command that holds the placeholder names the image.
\<close>

definition parse_exec_command :: "string list \<Rightarrow> exe_ctrl \<Rightarrow> (sys_call, exe_ctrl) outcome" where
  "parse_exec_command args C =
     (if (of_nat (length args) - 1 :: sz_t) < 3 then err_and_exit ''Required arguments missing.''
      else if (case find_separator args of None \<Rightarrow> False | Some idx \<Rightarrow> (of_nat idx - 1 :: sz_t) < 2)
        then err_and_exit ''Required arguments missing.''
      else
        xbind (parse_args 0 args [] C) (\<lambda>(pool, C1).
        let C2 = C1\<lparr>pm_image_name :=
                fold (\<lambda>cmd_param name.
                  if str_contains POOL_IMAGE_IDENTIFIER cmd_param
                  then replace_all POOL_IMAGE_IDENTIFIER pool cmd_param else name)
                (target_cmd C1) (pm_image_name C1)\<rparr>
        in xbind (rename_pool_img (pm_image_name C2) C2) (\<lambda>cmd.
           xret (C2\<lparr>pre_failure_exec_command := cmd\<rparr>))))"

definition init :: "int \<Rightarrow> string list \<Rightarrow> exe_ctrl \<Rightarrow> (sys_call, exe_ctrl) outcome" where
  "init new_id args C =
     (let C1 = C\<lparr>exec_id := new_id\<rparr>;
          C2 = (if exec_id C1 \<ge> 0
                then C1\<lparr>pin_pre_failure_option := pin_pre_failure_option C1 @ PIN_SET_EXECID new_id,
                        pin_post_failure_option := pin_post_failure_option C1 @ PIN_SET_EXECID new_id\<rparr>
                else C1);
          C3 = (if failure_point_file C2 \<noteq> []
                then C2\<lparr>pin_pre_failure_option :=
                          pin_pre_failure_option C2 @ PIN_SET_FAILURE_FILE (failure_point_file C2)\<rparr>
                else C2)
      in parse_exec_command args C3)"

section \<open>Starting the program\<close>

definition get_env_var :: "(string \<Rightarrow> string option) \<Rightarrow> string \<Rightarrow> string" where
  "get_env_var getenv name = (case getenv name of None \<Rightarrow> [] | Some v \<Rightarrow> v)"

text \<open>\<open>sizeof\<close> of a pointer is 8: only the first eight characters are compared.\<close>

definition change_env :: "string \<Rightarrow> string" where
  "change_env kv = (if take 8 kv = take 8 ''XFD_LD_PRELOAD'' then drop 4 kv else kv)"

text \<open>\<open>strcmp\<close> of the null pointer \<open>getenv\<close> returns for an unset variable is undefined.\<close>

definition genPinCommand ::
  "(string \<Rightarrow> string option) \<Rightarrow> int \<Rightarrow> string \<Rightarrow> exe_ctrl \<Rightarrow> (sys_call, string list option) outcome" where
  "genPinCommand getenv stage img C =
     (case getenv ''PIN_ROOT'' of
        None \<Rightarrow> Inl (UB ''null pointer'')
      | Some pin_root \<Rightarrow>
          xassert (pin_root \<noteq> []) ''Environment PIN_ROOT not set.''
          (if stage = PRE_FAILURE then
             xbind (str2cmd (pin_root @ ''/pin -t '' @ pintool_path C @ '' '' @
               pin_pre_failure_option C @ '' -- '' @ pre_failure_exec_command C)) (\<lambda>cmd. xret (Some cmd))
           else if stage = POST_FAILURE then
             xbind (rename_pool_img img C) (\<lambda>target.
             xbind (str2cmd (pin_root @ ''/pin -t '' @ pintool_path C @ '' '' @
               pin_post_failure_option C @ '' -- '' @ target)) (\<lambda>cmd. xret (Some cmd)))
           else xret None))"

text \<open>
  The child of \<open>fork\<close>: the environment is copied into an array of 1024 entries, changed and
  ended by a null pointer, and the command replaces the process. \<open>extra\<close> is what the stage adds
  to the environment.
\<close>

definition child_process ::
  "string list \<Rightarrow> string list \<Rightarrow> string list \<Rightarrow> int \<Rightarrow> string \<Rightarrow> (sys_call, unit) outcome" where
  "child_process environ extra cmd exec_ret msg =
     (if length environ + length extra + 1 > 1024 then Inl (UB ''buffer overflow'')
      else xemit [Execvpe cmd (map change_env environ @ extra)]
             (if exec_ret < 0 then Inl (Abort msg) else xret ()))"

text \<open>The parent of \<open>fork\<close>; \<open>cpid\<close> is what \<open>fork\<close> returned in it.\<close>

definition execute_pre_failure ::
  "(string \<Rightarrow> string option) \<Rightarrow> string list \<Rightarrow> int \<Rightarrow> int \<Rightarrow> exe_ctrl \<Rightarrow> (sys_call, exe_ctrl) outcome" where
  "execute_pre_failure getenv environ cpid exec_ret C =
     xbind (genPinCommand getenv PRE_FAILURE (pm_image_name C) C) (\<lambda>cmd.
     if cpid < 0 then Inl (Abort ''Fork failed.'')
     else if cpid = 0 then
       xbind (child_process environ [] (the cmd) exec_ret ''Execution of pre-failure command failed.'') (\<lambda>_. xret C)
     else xret (C\<lparr>pre_failure_pid := cpid\<rparr>))"

definition copy_pm_image :: "int \<Rightarrow> int \<Rightarrow> exe_ctrl \<Rightarrow> (sys_call, string) outcome" where
  "copy_pm_image random status C =
     (let copy_name = pm_image_name C @ ''_xfdetector_'' @ to_string random
      in xemit [System (''cp '' @ pm_image_name C @ '' '' @ copy_name)]
         (if status < 0 then Inl (Abort (''Cannot copy image: '' @ pm_image_name C))
          else xret copy_name))"

definition execute_post_failure ::
  "(string \<Rightarrow> string option) \<Rightarrow> string list \<Rightarrow> int \<Rightarrow> int \<Rightarrow> int \<Rightarrow> int \<Rightarrow> exe_ctrl \<Rightarrow>
   (sys_call, string \<times> exe_ctrl) outcome" where
  "execute_post_failure getenv environ random status cpid exec_ret C =
     xbind (copy_pm_image random status C) (\<lambda>copy_name.
     xbind (genPinCommand getenv POST_FAILURE copy_name C) (\<lambda>cmd.
     if cpid < 0 then Inl (Abort ''Fork failed.'')
     else if cpid = 0 then
       xbind (child_process environ [''POST_FAILURE=1''] (the cmd) exec_ret
                ''Execution of post-failure command failed.'') (\<lambda>_. xret (copy_name, C))
     else xret (copy_name, C\<lparr>post_failure_pid := cpid\<rparr>)))"

section \<open>The end of the program\<close>

text \<open>\<open>WIFEXITED\<close> and \<open>WEXITSTATUS\<close> of the status word of \<open>waitpid\<close>.\<close>

definition WIFEXITED :: "int \<Rightarrow> bool" where
  "WIFEXITED status \<longleftrightarrow> status mod 128 = 0"

definition WEXITSTATUS :: "int \<Rightarrow> int" where
  "WEXITSTATUS status = status div 256 mod 256"

definition post_failure_status :: "int \<Rightarrow> int \<Rightarrow> int" where
  "post_failure_status waitpid_ret status =
     (if waitpid_ret = -1 then -1
      else if WIFEXITED status \<and> WEXITSTATUS status < 0 then -1 else 0)"

definition term_pre_failure :: "int \<Rightarrow> exe_ctrl \<Rightarrow> (sys_call, unit) outcome" where
  "term_pre_failure kill_ret C =
     xemit [Kill (pre_failure_pid C) 9]
     (if kill_ret < 0 then Inl (Abort (''Cannot kill process: '' @ to_string (pre_failure_pid C)))
      else xret ())"

definition term_post_failure :: "int \<Rightarrow> exe_ctrl \<Rightarrow> (sys_call, unit) outcome" where
  "term_post_failure kill_ret C =
     xemit [Kill (post_failure_pid C) 9]
     (if kill_ret < 0 then Inl (Abort (''Cannot kill process: '' @ to_string (post_failure_pid C)))
      else xret ())"

end
