(* ===== verification/XF_Fifo.thy ===== *)
theory XF_Fifo
  imports XF_ExeCtrl
begin

text \<open>
  The class \<open>XFDetectorFIFO\<close> of \<open>src/xfdetector.cc\<close>: the named pipes through which the
  pintool sends the two traces and receives the signal to go on. What the system calls return is
  an argument; the calls are messages.
\<close>

section \<open>State\<close>

definition PRE_FAILURE_FIFO :: string where
  "PRE_FAILURE_FIFO = ''pre_fifo''"

definition POST_FAILURE_FIFO :: string where
  "POST_FAILURE_FIFO = ''post_fifo''"

definition SIGNAL_FIFO :: string where
  "SIGNAL_FIFO = ''signal_fifo''"

lemmas fifo_name_defs = PRE_FAILURE_FIFO_def POST_FAILURE_FIFO_def SIGNAL_FIFO_def

definition PIN_CONTINUE_SIGNAL :: string where
  "PIN_CONTINUE_SIGNAL = ''PIN_CONTINUE''"

definition MAX_SIGNAL_LEN :: nat where
  "MAX_SIGNAL_LEN = 100"

text \<open>
  \<open>PIN_FIFO_BUF_SIZE\<close> counts bytes; the entry is laid out in 56 of them: two words for the
  operation, the flag and the thread, four for the addresses and the size, one for the last flag.
\<close>

definition sizeof_trace_entry :: sz_t where
  "sizeof_trace_entry = 56"

definition FIFO_BUF_ENTRIES :: nat where
  "FIFO_BUF_ENTRIES = 1024"

text \<open>A file descriptor that was not assigned yet is \<open>None\<close>.\<close>

record fifo =
  pre_failure_fifo_str :: string
  post_failure_fifo_str :: string
  signal_fifo_str :: string
  pre_fifo_buf :: "trace_entry list"
  post_fifo_buf :: "trace_entry list"
  signal_buf :: string
  pre_fifo_fd :: "int option"
  post_fifo_fd :: "int option"
  signal_fifo_fd :: "int option"

section \<open>Creating, opening and closing\<close>

definition fifo_path :: "string \<Rightarrow> int \<Rightarrow> string" where
  "fifo_path name new_id =
     (if new_id \<ge> 0 then ''/tmp/'' @ name @ ''.'' @ to_string new_id else ''/tmp/'' @ name)"

definition mkfifo_checked :: "(string \<Rightarrow> int) \<Rightarrow> string \<Rightarrow> string \<Rightarrow> (sys_call, unit) outcome" where
  "mkfifo_checked mkfifo path msg =
     xemit [Mkfifo path] (if mkfifo path < 0 then Inl (Abort msg) else xret ())"

definition fifo_create :: "(string \<Rightarrow> int) \<Rightarrow> int \<Rightarrow> fifo \<Rightarrow> (sys_call, fifo) outcome" where
  "fifo_create mkfifo new_id F =
     (let F1 = F\<lparr>pre_failure_fifo_str := fifo_path PRE_FAILURE_FIFO new_id,
                post_failure_fifo_str := fifo_path POST_FAILURE_FIFO new_id,
                signal_fifo_str := fifo_path SIGNAL_FIFO new_id\<rparr>
      in xemit [Remove (pre_failure_fifo_str F1), Remove (post_failure_fifo_str F1), Remove (signal_fifo_str F1)]
        (xbind (mkfifo_checked mkfifo (pre_failure_fifo_str F1) ''Pre-failure FIFO create failed.'') (\<lambda>_.
         xbind (mkfifo_checked mkfifo (post_failure_fifo_str F1) ''Post-failure FIFO create failed.'') (\<lambda>_.
         xbind (mkfifo_checked mkfifo (signal_fifo_str F1) ''Signal FIFO create failed.'') (\<lambda>_.
         xret F1)))))"

definition fifo_open :: "(string \<Rightarrow> int) \<Rightarrow> string \<Rightarrow> fifo \<Rightarrow> (sys_call, fifo) outcome" where
  "fifo_open open_fd name F =
     (if name = PRE_FAILURE_FIFO then
        xemit [OpenFifo (pre_failure_fifo_str F)]
        (if open_fd (pre_failure_fifo_str F) < 0 then Inl (Abort ''Pre-failure FIFO open failed.'')
         else xret (F\<lparr>pre_fifo_fd := Some (open_fd (pre_failure_fifo_str F))\<rparr>))
      else if name = POST_FAILURE_FIFO then
        xemit [OpenFifo (post_failure_fifo_str F)]
        (if open_fd (post_failure_fifo_str F) < 0 then Inl (Abort ''Post-failure FIFO open failed.'')
         else xret (F\<lparr>post_fifo_fd := Some (open_fd (post_failure_fifo_str F))\<rparr>))
      else if name = SIGNAL_FIFO then
        xemit [OpenFifo (signal_fifo_str F)]
        (if open_fd (signal_fifo_str F) < 0 then Inl (Abort ''Signal FIFO open failed.'')
         else xret (F\<lparr>signal_fifo_fd := Some (open_fd (signal_fifo_str F))\<rparr>))
      else Inl (Abort ''Open unknown FIFO''))"

definition with_fd :: "int option \<Rightarrow> (int \<Rightarrow> (sys_call, 'a) outcome) \<Rightarrow> (sys_call, 'a) outcome" where
  "with_fd fd k = (case fd of None \<Rightarrow> Inl (UB ''uninitialised file descriptor'') | Some n \<Rightarrow> k n)"

definition fifo_close :: "string \<Rightarrow> fifo \<Rightarrow> (sys_call, unit) outcome" where
  "fifo_close name F =
     (if name = PRE_FAILURE_FIFO then with_fd (pre_fifo_fd F) (\<lambda>n. Inr ((), [CloseFd n]))
      else if name = POST_FAILURE_FIFO then with_fd (post_fifo_fd F) (\<lambda>n. Inr ((), [CloseFd n]))
      else if name = SIGNAL_FIFO then with_fd (signal_fifo_fd F) (\<lambda>n. Inr ((), [CloseFd n]))
      else Inl (Abort ''Close unknown FIFO''))"

section \<open>Reading and signalling\<close>

text \<open>
  \<open>read\<close> returns a byte count and has put the given entries in front of the old content of the
  buffer.
\<close>

definition fill_buf :: "trace_entry list \<Rightarrow> trace_entry list \<Rightarrow> trace_entry list" where
  "fill_buf data buf = data @ drop (length data) buf"

definition pre_fifo_read :: "int \<Rightarrow> trace_entry list \<Rightarrow> fifo \<Rightarrow> int \<times> fifo" where
  "pre_fifo_read n data F = (n, F\<lparr>pre_fifo_buf := fill_buf data (pre_fifo_buf F)\<rparr>)"

definition post_fifo_read :: "int \<Rightarrow> trace_entry list \<Rightarrow> fifo \<Rightarrow> int \<times> fifo" where
  "post_fifo_read n data F = (n, F\<lparr>post_fifo_buf := fill_buf data (post_fifo_buf F)\<rparr>)"

definition signal_send :: "(string \<Rightarrow> int) \<Rightarrow> string \<Rightarrow> fifo \<Rightarrow> (sys_call, int) outcome" where
  "signal_send write_fd message F =
     with_fd (signal_fifo_fd F) (\<lambda>n. Inr (write_fd message, [WriteFd n message]))"

definition signal_recv :: "int \<Rightarrow> string \<Rightarrow> fifo \<Rightarrow> int \<times> fifo" where
  "signal_recv n data F =
     (n, F\<lparr>signal_buf := take MAX_SIGNAL_LEN data @ drop (length (take MAX_SIGNAL_LEN data)) (signal_buf F)\<rparr>)"

text \<open>The message is sent with its terminating null character.\<close>

definition pin_continue_send :: "(string \<Rightarrow> int) \<Rightarrow> fifo \<Rightarrow> (sys_call, unit) outcome" where
  "pin_continue_send write_fd F =
     xbind (signal_send write_fd (PIN_CONTINUE_SIGNAL @ [CHR 0x00]) F) (\<lambda>send_size.
     if send_size < 0 then Inl (Abort ''PIN_CONTINUE_SIGNAL send failure.'') else xret ())"

text \<open>
  The entry \<open>get_trace\<close> points to; a pointer out of the buffer and the null pointer of an unknown
  stage are not to be read.
\<close>

definition get_trace :: "int \<Rightarrow> nat \<Rightarrow> fifo \<Rightarrow> ('e, trace_entry) outcome" where
  "get_trace stage index F =
     (if stage = PRE_FAILURE then arr_get (pre_fifo_buf F) (int index)
      else if stage = POST_FAILURE then arr_get (post_fifo_buf F) (int index)
      else Inl (UB ''null pointer''))"

text \<open>\<open>memset\<close> with zero makes every entry the one of the first enumerator and zero fields.\<close>

definition clear_pre_fifo_buf :: "fifo \<Rightarrow> fifo" where
  "clear_pre_fifo_buf F = F\<lparr>pre_fifo_buf := replicate FIFO_BUF_ENTRIES (trace_entry_init 0)\<rparr>"

definition clear_post_fifo_buf :: "fifo \<Rightarrow> fifo" where
  "clear_post_fifo_buf F = F\<lparr>post_fifo_buf := replicate FIFO_BUF_ENTRIES (trace_entry_init 0)\<rparr>"

section \<open>Construction and destruction\<close>

text \<open>The buffers come from \<open>malloc\<close>: their content is an argument.\<close>

definition XFDetectorFIFO ::
  "(string \<Rightarrow> int) \<Rightarrow> trace_entry list \<Rightarrow> trace_entry list \<Rightarrow> string \<Rightarrow> int \<Rightarrow> (sys_call, fifo) outcome" where
  "XFDetectorFIFO mkfifo pre post sig new_id =
     fifo_create mkfifo new_id
       \<lparr>pre_failure_fifo_str = [], post_failure_fifo_str = [], signal_fifo_str = [],
        pre_fifo_buf = pre, post_fifo_buf = post, signal_buf = sig,
        pre_fifo_fd = None, post_fifo_fd = None, signal_fifo_fd = None\<rparr>"

definition XFDetectorFIFO_delete :: "fifo \<Rightarrow> (sys_call, unit) outcome" where
  "XFDetectorFIFO_delete F =
     xbind (fifo_close PRE_FAILURE_FIFO F) (\<lambda>_.
     xbind (fifo_close POST_FAILURE_FIFO F) (\<lambda>_.
     Inr ((), [Remove (pre_failure_fifo_str F), Remove (post_failure_fifo_str F),
               Remove (signal_fifo_str F)])))"

section \<open>Lemmas\<close>

lemma fifo_names_distinct [simp]:
  "PRE_FAILURE_FIFO \<noteq> POST_FAILURE_FIFO" "PRE_FAILURE_FIFO \<noteq> SIGNAL_FIFO" "POST_FAILURE_FIFO \<noteq> SIGNAL_FIFO"
  "POST_FAILURE_FIFO \<noteq> PRE_FAILURE_FIFO" "SIGNAL_FIFO \<noteq> PRE_FAILURE_FIFO" "SIGNAL_FIFO \<noteq> POST_FAILURE_FIFO"
  by (simp_all add: fifo_name_defs)

lemma length_fill_buf [simp]: "length data \<le> length buf \<Longrightarrow> length (fill_buf data buf) = length buf"
  by (simp add: fill_buf_def)

lemma take_fill_buf [simp]: "take (length data) (fill_buf data buf) = data"
  by (simp add: fill_buf_def)

end
