(* ===== verification/XF_Main.thy ===== *)
theory XF_Main
  imports XF_Detector XF_Fifo
begin

text \<open>
  The function \<open>main\<close> of \<open>src/xfdetector.cc\<close>: it starts the program under test, reads its
  trace until a failure point, runs the recovery on a copy of the shadow, and lets the program go
  on, until the program ends. Everything the operating system answers is an argument; a loop that
  has used up the answers it was given is still waiting, which is the result \<open>None\<close>.
\<close>

section \<open>Messages and answers\<close>

datatype main_msg =
    Report event
  | Sys sys_call
  | Console string

text \<open>The messages of a part become messages of the whole.\<close>

definition xlift :: "('e \<Rightarrow> 'f) \<Rightarrow> ('e, 'a) outcome \<Rightarrow> ('f, 'a) outcome" where
  "xlift f m = map_sum (\<lambda>x. x) (map_prod (\<lambda>x. x) (map f)) m"

lemma xlift_eq_Inr: "xlift f m = Inr (x, es) \<longleftrightarrow> (\<exists>es'. m = Inr (x, es') \<and> es = map f es')"
  by (cases m) (auto simp: xlift_def)

text \<open>
  One \<open>read\<close>: the byte count, the entries it put into the buffer, and the seconds of the two
  calls of \<open>gettimeofday\<close> that may follow it.
\<close>

record fifo_input =
  in_size :: int
  in_data :: "trace_entry list"
  in_start :: int
  in_end :: int

text \<open>
  The answers of one round: what the stack held where the copied shadow lies, the results of the
  calls of the recovery process and of the pipe, and the reads of the recovery trace.
\<close>

record round_input =
  round_start :: int
  garbage :: "int list"
  random :: int
  cp_status :: int
  post_pid :: int
  post_exec_ret :: int
  post_start :: "int \<times> int"
  post_end :: "int \<times> int"
  post_inputs :: "fifo_input list"
  kill_post_ret :: int
  waitpid_ret :: int
  wait_status :: int
  kill_pre_ret :: int

record host =
  getenv :: "string \<Rightarrow> string option"
  environ :: "string list"
  mkfifo :: "string \<Rightarrow> int"
  open_fd :: "string \<Rightarrow> int"
  write_fd :: "string \<Rightarrow> int"
  malloc_pre :: "trace_entry list"
  malloc_post :: "trace_entry list"
  malloc_sig :: string
  pre_pid :: int
  pre_exec_ret :: int
  total_start :: "int \<times> int"
  total_end :: "int \<times> int"

text \<open>Milliseconds between two times of seconds and microseconds; C++ division truncates.\<close>

definition elapsed_ms :: "int \<times> int \<Rightarrow> int \<times> int \<Rightarrow> int" where
  "elapsed_ms start end_time =
     (let us = (fst end_time * 1000000 + snd end_time) - (fst start * 1000000 + snd start)
      in if us < 0 then - (- us div 1000) else us div 1000)"

text \<open>
  The variables \<open>exec_id\<close> and \<open>post_failure_pid\<close> are \<open>static\<close> in a header: the copies of
  this source file are never assigned.
\<close>

definition main_exec_id :: int where
  "main_exec_id = 0"

definition main_post_failure_pid :: int where
  "main_post_failure_pid = 0"

definition PRE_FAILURE_FIFO_TIMEOUT :: int where
  "PRE_FAILURE_FIFO_TIMEOUT = 15"

definition POST_FAILURE_EXEC_TIMEOUT :: int where
  "POST_FAILURE_EXEC_TIMEOUT = 15"

section \<open>Handling a buffer\<close>

text \<open>
  The bound of the loops: the signed count is converted to an unsigned 64-bit number before the
  division, so a negative count gives a large bound.
\<close>

definition entries_read :: "int \<Rightarrow> nat" where
  "entries_read read_size = unat ((of_int read_size :: sz_t) div sizeof_trace_entry)"

text \<open>
  The loop over the first \<open>n\<close> entries of a buffer; the entry behind the last one is out of the
  allocated memory.
\<close>

fun for_buf ::
  "('sm, 'tm, 'im, 'is) xenv \<Rightarrow> int \<Rightarrow> nat \<Rightarrow> trace_entry list \<Rightarrow>
   detector \<times> ('sm, 'tm, 'im, 'is) ShadowPM \<Rightarrow>
   (event, detector \<times> ('sm, 'tm, 'im, 'is) ShadowPM) outcome" where
  "for_buf E stage n [] ds = (if n = 0 then xret ds else Inl (UB ''array index''))"
| "for_buf E stage n (e # es) ds =
     (if n = 0 then xret ds
      else xbind (update_pm_status E stage e ds) (for_buf E stage (n - 1) es))"

section \<open>The trace before the failure\<close>

fun pre_loop ::
  "('sm, 'tm, 'im, 'is) xenv \<Rightarrow> fifo_input list \<Rightarrow> int \<Rightarrow> fifo \<Rightarrow>
   detector \<times> ('sm, 'tm, 'im, 'is) ShadowPM \<Rightarrow>
   (main_msg, (fifo_input list \<times> fifo \<times> detector \<times> ('sm, 'tm, 'im, 'is) ShadowPM) option) outcome" where
  "pre_loop E [] start F ds =
     (if pre_failure_point_complete (fst ds) \<or> pre_testing_complete (fst ds)
      then xret (Some ([], F, ds)) else xret None)"
| "pre_loop E (r # rs) start F ds =
     (if pre_failure_point_complete (fst ds) \<or> pre_testing_complete (fst ds)
      then xret (Some (r # rs, F, ds))
      else
        let (read_size, F1) = pre_fifo_read (in_size r) (in_data r) F;
            start1 = (if read_size \<noteq> 0 then in_start r else start)
        in if in_end r - start1 > PRE_FAILURE_FIFO_TIMEOUT then Inl (Abort ''Pre-failure FIFO timeout'')
           else xbind (xlift Report (for_buf E PRE_FAILURE (entries_read read_size) (pre_fifo_buf F1) ds)) (\<lambda>ds1.
                pre_loop E rs start1 (clear_pre_fifo_buf F1) ds1))"

section \<open>The trace of the recovery\<close>

text \<open>The result tells whether the recovery was killed after the time limit.\<close>

fun post_loop ::
  "('sm, 'tm, 'im, 'is) xenv \<Rightarrow> exe_ctrl \<Rightarrow> int \<Rightarrow> int \<Rightarrow> fifo_input list \<Rightarrow> fifo \<Rightarrow>
   detector \<times> ('sm, 'tm, 'im, 'is) ShadowPM \<Rightarrow>
   (main_msg, (bool \<times> fifo \<times> detector \<times> ('sm, 'tm, 'im, 'is) ShadowPM) option) outcome" where
  "post_loop E C kill_ret start [] F ds =
     (if post_testing_complete (fst ds) then xret (Some (False, F, ds)) else xret None)"
| "post_loop E C kill_ret start (r # rs) F ds =
     (if post_testing_complete (fst ds) then xret (Some (False, F, ds))
      else
        let (read_size, F1) = post_fifo_read (in_size r) (in_data r) F
        in xbind (xlift Report (for_buf E POST_FAILURE (entries_read read_size) (post_fifo_buf F1) ds)) (\<lambda>ds1.
           let F2 = clear_post_fifo_buf F1
           in if in_end r - start > POST_FAILURE_EXEC_TIMEOUT
              then xbind (xlift Sys (term_post_failure kill_ret C)) (\<lambda>_.
                   xemit [Console (''Timeout: killing post failure pid '' @ to_string main_post_failure_pid)]
                   (xret (Some (True, F2, ds1))))
              else post_loop E C kill_ret start rs F2 ds1))"

section \<open>One failure point\<close>

text \<open>
  After the recovery: the copied image is removed, the pipe closed, the program told to go on, and
  the recovery process waited for. The first component of the result tells whether the session goes
  on.
\<close>

definition finish_round ::
  "host \<Rightarrow> round_input \<Rightarrow> string \<Rightarrow> bool \<Rightarrow> ('sm, 'tm, 'im, 'is) ShadowPM \<Rightarrow> exe_ctrl \<times> fifo \<times> detector \<Rightarrow>
   (main_msg, (bool \<times> exe_ctrl \<times> fifo \<times> detector \<times> ('sm, 'tm, 'im, 'is) ShadowPM) option) outcome" where
  "finish_round H R image_copy_name timeout S st =
     (case st of (C, F, D) \<Rightarrow>
      xemit [Console (''Post-failure time: '' @ to_string (elapsed_ms (post_start R) (post_end R)) @ ''ms''), Sys (Remove image_copy_name)]
      (xbind (xlift Sys (fifo_close POST_FAILURE_FIFO F)) (\<lambda>_.
       xbind (xlift Sys (pin_continue_send (write_fd H) F)) (\<lambda>_.
       let D1 = D\<lparr>post_testing_complete := False\<rparr>
       in if post_failure_status (waitpid_ret R) (wait_status R) < 0 \<and> \<not> timeout
          then xemit [Console ''Kill pre failure due to post-failure error'']
            (xbind (xlift Sys (term_pre_failure (kill_pre_ret R) C)) (\<lambda>_. xret (Some (False, C, F, D1, S))))
          else xret (Some (True, C, F, D1, S))))))"

text \<open>
  The part of the round after the trace before the failure: the recovery works on the copied shadow,
  which is dropped.
\<close>

definition post_failure_part ::
  "('sm, 'tm, 'im, 'is) xenv \<Rightarrow> host \<Rightarrow> round_input \<Rightarrow> exe_ctrl \<times> fifo \<times> detector \<times> ('sm, 'tm, 'im, 'is) ShadowPM \<Rightarrow>
   (main_msg, (bool \<times> exe_ctrl \<times> fifo \<times> detector \<times> ('sm, 'tm, 'im, 'is) ShadowPM) option) outcome" where
  "post_failure_part E H R st =
     (case st of (C, F, D, S) \<Rightarrow>
      let post_shadow_mem = ShadowPM_copy (garbage R) S
      in xbind (xlift Sys (execute_post_failure (getenv H) (environ H) (random R) (cp_status R) (post_pid R)
                  (post_exec_ret R) C)) (\<lambda>(image_copy_name, C1).
         xemit [Console ''--------Switching to post failure--------'']
         (xbind (xlift Sys (fifo_open (open_fd H) POST_FAILURE_FIFO F)) (\<lambda>F1.
          xbind (post_loop E C1 (kill_post_ret R) (fst (post_start R)) (post_inputs R) F1 (D, post_shadow_mem)) (\<lambda>res.
          case res of
            None \<Rightarrow> xret None
          | Some (timeout, F2, D2, _) \<Rightarrow> finish_round H R image_copy_name timeout S (C1, F2, D2))))))"

section \<open>All failure points\<close>

text \<open>
  The outer loop, over the rounds the host answers; the result is the value \<open>main\<close> returns
  with, if the loop ended the program, together with the state the clean-up works on.
\<close>

fun main_loop ::
  "('sm, 'tm, 'im, 'is) xenv \<Rightarrow> host \<Rightarrow> fifo_input list \<Rightarrow> round_input list \<Rightarrow>
   exe_ctrl \<times> fifo \<times> detector \<times> ('sm, 'tm, 'im, 'is) ShadowPM \<Rightarrow>
   (main_msg, (int \<times> fifo) option) outcome" where
  "main_loop E H ins [] (C, F, D, S) =
     (if pre_testing_complete D then xret (Some (0, F)) else xret None)"
| "main_loop E H ins (R # Rs) (C, F, D, S) =
     (if pre_testing_complete D then xret (Some (0, F))
      else
        xemit [Console ''--------Switching to Pre failure--------'']
        (xbind (pre_loop E ins (round_start R) F (D\<lparr>pre_failure_point_complete := False\<rparr>, S)) (\<lambda>res.
         case res of
           None \<Rightarrow> xret None
         | Some (ins1, F1, D1, S1) \<Rightarrow>
             xbind (post_failure_part E H R (C, F1, D1, S1)) (\<lambda>res2.
             case res2 of
               None \<Rightarrow> xret None
             | Some (go_on, C2, F2, D2, S2) \<Rightarrow>
                 if go_on then main_loop E H ins1 Rs (C2, F2, D2, S2) else xret (Some (1, F2))))))"

definition main_cleanup :: "host \<Rightarrow> fifo \<Rightarrow> (main_msg, int) outcome" where
  "main_cleanup H F =
     xemit [Console (''Total time: '' @ to_string (elapsed_ms (total_start H) (total_end H)) @ ''ms'')]
     (xbind (xlift Sys (XFDetectorFIFO_delete F)) (\<lambda>_.
      xemit [Sys (Remove (''/tmp/backtrace_pre.'' @ to_string main_exec_id)),
             Sys (Remove (''/tmp/backtrace_post.'' @ to_string main_exec_id))]
      (xret 0)))"

definition xf_main ::
  "('sm, 'tm, 'im, 'is) xenv \<Rightarrow> host \<Rightarrow> fifo_input list \<Rightarrow> round_input list \<Rightarrow> string list \<Rightarrow>
   (main_msg, int option) outcome" where
  "xf_main E H ins Rs args =
     xbind (xlift Sys (init (if length args > 2 then atoi (args ! 2) else -1) args exe_ctrl_init)) (\<lambda>C.
     if length args \<le> 2 then Inl (UB ''null pointer'')
     else
       xbind (xlift Sys (XFDetectorFIFO (mkfifo H) (malloc_pre H) (malloc_post H) (malloc_sig H) (atoi (args ! 2)))) (\<lambda>F.
       xbind (xlift Sys (execute_pre_failure (getenv H) (environ H) (pre_pid H) (pre_exec_ret H) C)) (\<lambda>C1.
       xbind (xlift Sys (fifo_open (open_fd H) PRE_FAILURE_FIFO F)) (\<lambda>F1.
       xbind (xlift Sys (fifo_open (open_fd H) SIGNAL_FIFO F1)) (\<lambda>F2.
       xbind (main_loop E H ins Rs (C1, F2, detector_init\<lparr>pre_testing_complete := False\<rparr>, ShadowPM_new E)) (\<lambda>res.
       case res of
         None \<Rightarrow> xret None
       | Some (ret, F3) \<Rightarrow>
           if ret = 0 then xbind (main_cleanup H F3) (\<lambda>r. xret (Some r)) else xret (Some ret)))))))"

end
