(* ===== verification/XF_ByteSpec.thy ===== *)
theory XF_ByteSpec
  imports XF_Trace
begin

text \<open>
  What the detector promises, address by address. The state holds for every single address its
  status, the time of its last modification and the instruction that wrote it; a trace entry is
  legal or not, and a legal one has one effect. Nothing here mentions intervals or containers; the
  theory \<open>XF_Refine\<close> shows that the shadow of \<open>XF_ShadowOps\<close> implements it.
\<close>

unbundle bit_operations_syntax

section \<open>The state\<close>

record byte_state =
  b_status :: "addr_t \<rightharpoonup> PMStatus"
  b_mtime :: "addr_t \<rightharpoonup> timestamp_t"
  b_writer :: "addr_t \<rightharpoonup> addr_t"
  b_commit_vars :: "addr_t set"
  b_time :: timestamp_t
  b_commit_time :: timestamp_t
  b_internal :: "int list"
  b_tx_level :: "int list"
  b_added :: "addr_t set list"
  b_unadded :: "addr_t set list"
  b_added_ip :: "(addr_t \<rightharpoonup> addr_t) list"
  b_alloc_ip :: "(addr_t \<rightharpoonup> addr_t) list"
  b_checked :: "addr_t set"
  b_skip :: "int list"

definition byte_init :: byte_state where
  "byte_init =
     \<lparr>b_status = Map.empty, b_mtime = Map.empty, b_writer = Map.empty, b_commit_vars = {},
      b_time = 0, b_commit_time = -1,
      b_internal = replicate MAX_THREADS 0, b_tx_level = replicate MAX_THREADS 0,
      b_added = replicate MAX_THREADS {}, b_unadded = replicate MAX_THREADS {},
      b_added_ip = replicate MAX_THREADS Map.empty, b_alloc_ip = replicate MAX_THREADS Map.empty,
      b_checked = {}, b_skip = replicate MAX_THREADS 0\<rparr>"

text \<open>The addresses of an access; the last one is computed on 64 bits.\<close>

definition bytes :: "addr_t \<Rightarrow> sz_t \<Rightarrow> addr_t set" where
  "bytes addr sz = {addr..sz + addr - 1}"

lemma bytes_empty: "bytes a n = {} \<longleftrightarrow> n + a - 1 < a"
  by (simp add: bytes_def not_le)

definition put :: "('k \<rightharpoonup> 'v) \<Rightarrow> 'k set \<Rightarrow> 'v \<Rightarrow> ('k \<rightharpoonup> 'v)" where
  "put f A v = (\<lambda>k. if k \<in> A then Some v else f k)"

lemma put_put [simp]: "put (put f A v) A w = put f A w"
  by (auto simp: put_def)

lemma put_in [simp]: "k \<in> A \<Longrightarrow> put f A v k = Some v"
  by (simp add: put_def)

lemma put_out [simp]: "k \<notin> A \<Longrightarrow> put f A v k = f k"
  by (simp add: put_def)

definition thread_ok :: "trace_entry \<Rightarrow> bool" where
  "thread_ok op \<longleftrightarrow> 0 \<le> tid op \<and> nat (tid op) < MAX_THREADS"

abbreviation of_thread :: "'a list \<Rightarrow> trace_entry \<Rightarrow> 'a" where
  "of_thread xs op \<equiv> xs ! nat (tid op)"

section \<open>Which entries are legal\<close>

text \<open>An entry that is not legal ends the detector: a failed assertion or undefined behaviour.\<close>

fun byte_legal_op :: "int \<Rightarrow> pm_op_t \<Rightarrow> trace_entry \<Rightarrow> byte_state \<Rightarrow> bool" where
  "byte_legal_op stage READ op b =
     (stage = POST_FAILURE \<longrightarrow>
        thread_ok op \<and>
        (of_thread (b_skip b) op = 1 \<or> src_addr op \<noteq> 0 \<and> size_of op \<noteq> 0 \<and> size_of op < 65536))"
| "byte_legal_op stage WRITE op b =
     (dst_addr op \<noteq> 0 \<and> size_of op \<noteq> 0 \<and> (stage = POST_FAILURE \<or> thread_ok op))"
| "byte_legal_op stage SFENCE op b = (stage = PRE_FAILURE \<longrightarrow> b_time b \<noteq> 2147483647)"
| "byte_legal_op stage PM_TRACE_PM_ADDR_ADD op b = (dst_addr op \<noteq> 0 \<and> size_of op \<noteq> 0)"
| "byte_legal_op stage PMEM_UNMAP op b = (src_addr op \<noteq> 0 \<and> size_of op \<noteq> 0)"
| "byte_legal_op stage PM_TRACE_PM_ADDR_REMOVE op b = (src_addr op \<noteq> 0 \<and> size_of op \<noteq> 0)"
| "byte_legal_op stage PM_TRACE_TX_ADDR_ADD op b =
     (thread_ok op \<and> dst_addr op \<noteq> 0 \<and> size_of op \<noteq> 0)"
| "byte_legal_op stage PM_TRACE_TX_ALLOC op b =
     (thread_ok op \<and> dst_addr op \<noteq> 0 \<and> size_of op \<noteq> 0)"
| "byte_legal_op stage PM_TRACE_TX_BEGIN op b =
     (thread_ok op \<and> of_thread (b_tx_level b) op \<noteq> 2147483647)"
| "byte_legal_op stage PM_TRACE_TX_END op b = (thread_ok op \<and> of_thread (b_tx_level b) op > 0)"
| "byte_legal_op stage PMDK_INTERNAL_CALL op b =
     (thread_ok op \<and> of_thread (b_internal b) op \<noteq> 2147483647)"
| "byte_legal_op stage PMDK_INTERNAL_RET op b = (thread_ok op \<and> of_thread (b_internal b) op > 0)"
| "byte_legal_op stage PM_TRACE_DETECTION_SKIP_BEGIN op b =
     (thread_ok op \<and> of_thread (b_skip b) op \<noteq> 1)"
| "byte_legal_op stage PM_TRACE_DETECTION_SKIP_END op b =
     (thread_ok op \<and> of_thread (b_skip b) op = 1)"
| "byte_legal_op stage _ op b = True"

definition byte_legal :: "int \<Rightarrow> trace_entry \<Rightarrow> byte_state \<Rightarrow> bool" where
  "byte_legal stage op b =
     (if func_ret op then operation op = PMEM_MAP_FILE \<longrightarrow> dst_addr op \<noteq> 0 \<and> size_of op \<noteq> 0
      else byte_legal_op stage (operation op) op b)"

section \<open>The effect of a legal entry\<close>

definition byte_map :: "int \<Rightarrow> trace_entry \<Rightarrow> byte_state \<Rightarrow> byte_state" where
  "byte_map stage op b =
     (if stage = PRE_FAILURE
      then b\<lparr>b_status := put (b_status b) (bytes (dst_addr op) (size_of op)) CLEAN\<rparr> else b)"

text \<open>A write of a commit variable before the failure stamps the commit with the current time.\<close>

definition byte_commit :: "int \<Rightarrow> trace_entry \<Rightarrow> byte_state \<Rightarrow> byte_state" where
  "byte_commit stage op b =
     (let A = bytes (dst_addr op) (size_of op) in
      if stage = PRE_FAILURE \<and> A \<subseteq> b_commit_vars b
      then b\<lparr>b_commit_time := b_time b, b_writer := put (b_writer b) A (instr_ptr op)\<rparr> else b)"

text \<open>
  A write is trusted when it happens after the failure or while detection is off, it is internal
  when it happens inside a library function, and otherwise it is a write of the program.
\<close>

definition byte_trusted :: "int \<Rightarrow> trace_entry \<Rightarrow> byte_state \<Rightarrow> bool" where
  "byte_trusted stage op b \<longleftrightarrow> stage = POST_FAILURE \<or> of_thread (b_skip b) op = 1"

definition byte_data :: "int \<Rightarrow> trace_entry \<Rightarrow> byte_state \<Rightarrow> byte_state" where
  "byte_data stage op b =
     (let A = bytes (dst_addr op) (size_of op) in
      if byte_trusted stage op b then
        b\<lparr>b_status := put (b_status b) A CONSISTENT, b_mtime := put (b_mtime b) A (b_time b),
          b_writer := put (b_writer b) A (instr_ptr op)\<rparr>
      else if of_thread (b_internal b) op > 0 then
        b\<lparr>b_status := put (b_status b) A CONSISTENT, b_mtime := put (b_mtime b) A (b_time b)\<rparr>
      else
        b\<lparr>b_status := put (b_status b) A (if non_temporal op \<noteq> 0 then WRITEBACK_PENDING else MODIFIED),
          b_mtime := put (b_mtime b) A (b_time b), b_writer := put (b_writer b) A (instr_ptr op),
          b_unadded :=
            (if of_thread (b_tx_level b) op > 0 \<and> \<not> A \<subseteq> of_thread (b_added b) op
             then arr_set (b_unadded b) (tid op) (of_thread (b_unadded b) op \<union> A)
             else b_unadded b)\<rparr>)"

definition byte_write :: "int \<Rightarrow> trace_entry \<Rightarrow> byte_state \<Rightarrow> byte_state" where
  "byte_write stage op b = byte_data stage op (byte_commit stage op b)"

text \<open>A fence completes every pending writeback; before the failure it also advances the time.\<close>

definition fenced :: "(addr_t \<rightharpoonup> PMStatus) \<Rightarrow> (addr_t \<rightharpoonup> PMStatus)" where
  "fenced f = (\<lambda>k. if f k = Some WRITEBACK_PENDING then Some WRITTEN_BACK else f k)"

definition byte_fence :: "int \<Rightarrow> byte_state \<Rightarrow> byte_state" where
  "byte_fence stage b =
     (if stage = PRE_FAILURE then b\<lparr>b_status := fenced (b_status b), b_time := b_time b + 1\<rparr>
      else b\<lparr>b_status := fenced (b_status b)\<rparr>)"

definition byte_tx_add :: "bool \<Rightarrow> trace_entry \<Rightarrow> byte_state \<Rightarrow> byte_state" where
  "byte_tx_add alloc op b =
     (let A = bytes (dst_addr op) (size_of op); t = tid op;
          b1 = b\<lparr>b_added := arr_set (b_added b) t (of_thread (b_added b) op \<union> A)\<rparr>
      in if alloc
         then b1\<lparr>b_alloc_ip := arr_set (b_alloc_ip b) t (put (of_thread (b_alloc_ip b) op) A (instr_ptr op))\<rparr>
         else b1\<lparr>b_added_ip := arr_set (b_added_ip b) t (put (of_thread (b_added_ip b) op) A (instr_ptr op))\<rparr>)"

text \<open>Only the end of the outermost transaction commits, and it commits what was added.\<close>

definition byte_tx_end :: "trace_entry \<Rightarrow> byte_state \<Rightarrow> byte_state" where
  "byte_tx_end op b =
     (let t = tid op; l = of_thread (b_tx_level b) op;
          b1 = b\<lparr>b_tx_level := arr_set (b_tx_level b) t (l - 1)\<rparr>
      in if l = 1
         then b1\<lparr>b_status := put (b_status b) (of_thread (b_added b) op) CONSISTENT,
                 b_added := arr_set (b_added b) t {}, b_unadded := arr_set (b_unadded b) t {},
                 b_added_ip := arr_set (b_added_ip b) t Map.empty,
                 b_alloc_ip := arr_set (b_alloc_ip b) t Map.empty\<rparr>
         else b1)"

fun byte_effect_op :: "int \<Rightarrow> pm_op_t \<Rightarrow> trace_entry \<Rightarrow> byte_state \<Rightarrow> byte_state" where
  "byte_effect_op stage WRITE op b = byte_write stage op b"
| "byte_effect_op stage CLWB op b =
     (if stage = PRE_FAILURE
      then b\<lparr>b_status := put (b_status b) (bytes (src_addr op) (size_of op)) WRITEBACK_PENDING\<rparr>
      else b)"
| "byte_effect_op stage SFENCE op b = byte_fence stage b"
| "byte_effect_op stage PM_TRACE_PM_ADDR_ADD op b = byte_map stage op b"
| "byte_effect_op stage PMEM_UNMAP op b =
     b\<lparr>b_status := b_status b |` (- bytes (src_addr op) (size_of op))\<rparr>"
| "byte_effect_op stage PM_TRACE_PM_ADDR_REMOVE op b =
     b\<lparr>b_status := b_status b |` (- bytes (src_addr op) (size_of op))\<rparr>"
| "byte_effect_op stage PM_TRACE_TX_ADDR_ADD op b = byte_tx_add False op b"
| "byte_effect_op stage PM_TRACE_TX_ALLOC op b = byte_tx_add True op b"
| "byte_effect_op stage PM_TRACE_TX_BEGIN op b =
     b\<lparr>b_tx_level := arr_set (b_tx_level b) (tid op) (of_thread (b_tx_level b) op + 1)\<rparr>"
| "byte_effect_op stage PM_TRACE_TX_END op b = byte_tx_end op b"
| "byte_effect_op stage PMDK_INTERNAL_CALL op b =
     b\<lparr>b_internal := arr_set (b_internal b) (tid op) (of_thread (b_internal b) op + 1)\<rparr>"
| "byte_effect_op stage PMDK_INTERNAL_RET op b =
     b\<lparr>b_internal := arr_set (b_internal b) (tid op) (of_thread (b_internal b) op - 1)\<rparr>"
| "byte_effect_op stage ADD_COMMIT_VAR op b =
     (if stage = PRE_FAILURE
      then b\<lparr>b_commit_vars := b_commit_vars b \<union> bytes (src_addr op) (size_of op)\<rparr> else b)"
| "byte_effect_op stage PM_TRACE_DETECTION_SKIP_BEGIN op b =
     b\<lparr>b_skip := arr_set (b_skip b) (tid op) 1\<rparr>"
| "byte_effect_op stage PM_TRACE_DETECTION_SKIP_END op b =
     b\<lparr>b_skip := arr_set (b_skip b) (tid op) 0\<rparr>"
| "byte_effect_op stage _ op b = b"

definition byte_effect :: "int \<Rightarrow> trace_entry \<Rightarrow> byte_state \<Rightarrow> byte_state" where
  "byte_effect stage op b =
     (if func_ret op then (if operation op = PMEM_MAP_FILE then byte_map stage op b else b)
      else byte_effect_op stage (operation op) op b)"

definition byte_step :: "int \<Rightarrow> trace_entry \<Rightarrow> byte_state \<Rightarrow> byte_state option" where
  "byte_step stage op b = (if byte_legal stage op b then Some (byte_effect stage op b) else None)"

fun byte_run :: "int \<Rightarrow> trace_entry list \<Rightarrow> byte_state \<Rightarrow> byte_state option" where
  "byte_run stage [] b = Some b"
| "byte_run stage (op # ops) b = Option.bind (byte_step stage op b) (byte_run stage ops)"

text \<open>The state after a failure: what a new run of the program starts from.\<close>

definition byte_crash :: "int list \<Rightarrow> byte_state \<Rightarrow> byte_state" where
  "byte_crash garbage b =
     b\<lparr>b_internal := replicate MAX_THREADS 0, b_tx_level := replicate MAX_THREADS 0,
       b_alloc_ip := b_added_ip b, b_checked := {}, b_skip := garbage\<rparr>"

section \<open>Verdicts on reads\<close>

text \<open>Data whose status is one of \<open>S\<close> wherever it has one.\<close>

definition all_status :: "PMStatus set \<Rightarrow> addr_t set \<Rightarrow> byte_state \<Rightarrow> bool" where
  "all_status S A b \<longleftrightarrow> (\<forall>k \<in> A. \<forall>v. b_status b k = Some v \<longrightarrow> v \<in> S)"

text \<open>Data that was last modified before the last write of the commit variable.\<close>

definition committed :: "addr_t set \<Rightarrow> byte_state \<Rightarrow> bool" where
  "committed A b \<longleftrightarrow>
     b_commit_time b < 0 \<or> (\<forall>k \<in> A. \<forall>t. b_mtime b k = Some t \<longrightarrow> t < b_commit_time b)"

definition byte_read_ok :: "trace_entry \<Rightarrow> byte_state \<Rightarrow> bool" where
  "byte_read_ok op b \<longleftrightarrow>
     (let A = bytes (src_addr op) (size_of op) in
      all_status {CONSISTENT, CLEAN} A b \<or>
      all_status {WRITTEN_BACK} A b \<and> committed A b \<or>
      A \<subseteq> b_commit_vars b \<or>
      A \<subseteq> of_thread (b_added b) op)"

section \<open>Bug reports\<close>

text \<open>The messages that report a bug of the program under test.\<close>

fun is_bug :: "event \<Rightarrow> bool" where
  "is_bug ConsistencyBug = True"
| "is_bug NotPersistedBeforeFailure = True"
| "is_bug NotPersistedBeforeCommitVar = True"
| "is_bug OtherBug = True"
| "is_bug (ModifyBeforeTxAdd ip a) = True"
| "is_bug (TxAddAfterModification ip a) = True"
| "is_bug (PerfAlreadyAdded ip a n) = True"
| "is_bug _ = False"

text \<open>A wrong read is reported; the reason is given when a traced write of the data is known.\<close>

definition byte_read_bugs :: "trace_entry \<Rightarrow> byte_state \<Rightarrow> event list" where
  "byte_read_bugs op b =
     (let A = bytes (src_addr op) (size_of op) in
      if byte_read_ok op b then []
      else ConsistencyBug #
        (if \<forall>k \<in> A. b_writer b k = None then []
         else if all_status {WRITTEN_BACK} A b then [NotPersistedBeforeCommitVar]
         else [NotPersistedBeforeFailure]))"

definition byte_tx_add_bugs :: "int \<Rightarrow> trace_entry \<Rightarrow> byte_state \<Rightarrow> event list" where
  "byte_tx_add_bugs stage op b =
     (let A = bytes (dst_addr op) (size_of op) in
      (if A \<subseteq> of_thread (b_unadded b) op
       then [TxAddAfterModification (instr_ptr op) (dst_addr op)] else []) @
      (if A \<subseteq> of_thread (b_added b) op \<and> stage = PRE_FAILURE
       then [PerfAlreadyAdded (instr_ptr op) (dst_addr op) (size_of op)] else []))"

fun byte_bugs_op :: "int \<Rightarrow> pm_op_t \<Rightarrow> trace_entry \<Rightarrow> byte_state \<Rightarrow> event list" where
  "byte_bugs_op stage READ op b =
     (if stage = POST_FAILURE \<and> of_thread (b_skip b) op \<noteq> 1 \<and>
         push_bit 16 (src_addr op) OR size_of op \<notin> b_checked b
      then byte_read_bugs op b else [])"
| "byte_bugs_op stage WRITE op b =
     (if \<not> byte_trusted stage op b \<and> \<not> of_thread (b_internal b) op > 0 \<and>
         of_thread (b_tx_level b) op > 0 \<and>
         \<not> bytes (dst_addr op) (size_of op) \<subseteq> of_thread (b_added b) op
      then [ModifyBeforeTxAdd (instr_ptr op) (dst_addr op)] else [])"
| "byte_bugs_op stage PM_TRACE_TX_ADDR_ADD op b = byte_tx_add_bugs stage op b"
| "byte_bugs_op stage PM_TRACE_TX_ALLOC op b = byte_tx_add_bugs stage op b"
| "byte_bugs_op stage _ op b = []"

definition byte_bugs :: "int \<Rightarrow> trace_entry \<Rightarrow> byte_state \<Rightarrow> event list" where
  "byte_bugs stage op b = (if func_ret op then [] else byte_bugs_op stage (operation op) op b)"

fun byte_run_bugs :: "int \<Rightarrow> trace_entry list \<Rightarrow> byte_state \<Rightarrow> event list" where
  "byte_run_bugs stage [] b = []"
| "byte_run_bugs stage (op # ops) b =
     byte_bugs stage op b @ byte_run_bugs stage ops (byte_effect stage op b)"

text \<open>One failure point: the trace before it, the failure, and the trace of the recovery.\<close>

definition byte_failure_point ::
  "int list \<Rightarrow> trace_entry list \<Rightarrow> trace_entry list \<Rightarrow> byte_state \<Rightarrow> byte_state option" where
  "byte_failure_point garbage pre post b =
     Option.bind (byte_run PRE_FAILURE pre b) (\<lambda>b1. byte_run POST_FAILURE post (byte_crash garbage b1))"

definition byte_failure_bugs ::
  "int list \<Rightarrow> trace_entry list \<Rightarrow> trace_entry list \<Rightarrow> byte_state \<Rightarrow> event list" where
  "byte_failure_bugs garbage pre post b =
     byte_run_bugs PRE_FAILURE pre b @
     (case byte_run PRE_FAILURE pre b of
        None \<Rightarrow> []
      | Some b1 \<Rightarrow> byte_run_bugs POST_FAILURE post (byte_crash garbage b1))"

end
