(* ===== verification/XF_Refine.thy ===== *)
theory XF_Refine
  imports XF_Detector XF_ByteSpec
begin

text \<open>
  The shadow of \<open>XF_ShadowOps\<close> implements the byte-wise specification of \<open>XF_ByteSpec\<close>.
  The locale \<open>shadow_env\<close> is the interface of the interval containers the shadow is built on;
  its lemmas are the simulation, one method after the other.
\<close>

section \<open>Well-formed shadows and their meaning\<close>

definition shadow_wf :: "('sm, 'tm, 'im, 'is) xenv \<Rightarrow> ('sm, 'tm, 'im, 'is) ShadowPM \<Rightarrow> bool" where
  "shadow_wf E s \<longleftrightarrow>
     im_inv (st_ops E) (pm_status s) \<and> im_inv (ts_ops E) (pm_modify_timestamps s) \<and>
     im_inv (ip_ops E) (write_addr_IP_mapping s) \<and> is_inv (is_ops E) (commit_var_set_addr s) \<and>
     length (pre_InternalFunctLevel s) = MAX_THREADS \<and> length (tx_level s) = MAX_THREADS \<and>
     length (skipDetectionStatus s) = MAX_THREADS \<and>
     length (tx_added_addr s) = MAX_THREADS \<and> length (tx_non_added_write_addr s) = MAX_THREADS \<and>
     length (tx_added_addr_IP_mapping s) = MAX_THREADS \<and>
     length (tx_alloc_addr_IP_mapping s) = MAX_THREADS \<and>
     list_all (is_inv (is_ops E)) (tx_added_addr s) \<and>
     list_all (is_inv (is_ops E)) (tx_non_added_write_addr s) \<and>
     list_all (im_inv (ip_ops E)) (tx_added_addr_IP_mapping s) \<and>
     list_all (im_inv (ip_ops E)) (tx_alloc_addr_IP_mapping s)"

definition shadow_abs :: "('sm, 'tm, 'im, 'is) xenv \<Rightarrow> ('sm, 'tm, 'im, 'is) ShadowPM \<Rightarrow> byte_state" where
  "shadow_abs E s =
     \<lparr>b_status = im_at (st_ops E) (pm_status s),
      b_mtime = im_at (ts_ops E) (pm_modify_timestamps s),
      b_writer = im_at (ip_ops E) (write_addr_IP_mapping s),
      b_commit_vars = is_elems (is_ops E) (commit_var_set_addr s),
      b_time = global_timestamp s,
      b_commit_time = commit_timestamp s,
      b_internal = pre_InternalFunctLevel s,
      b_tx_level = tx_level s,
      b_added = map (is_elems (is_ops E)) (tx_added_addr s),
      b_unadded = map (is_elems (is_ops E)) (tx_non_added_write_addr s),
      b_added_ip = map (im_at (ip_ops E)) (tx_added_addr_IP_mapping s),
      b_alloc_ip = map (im_at (ip_ops E)) (tx_alloc_addr_IP_mapping s),
      b_checked = checked_addr_set s,
      b_skip = skipDetectionStatus s\<rparr>"

lemma ival_set_closed [simp]: "ival_set (closed_ival addr sz) = bytes addr sz"
  by (simp add: closed_ival_def bytes_def)

lemma list_all_arr_set: "list_all P xs \<Longrightarrow> P v \<Longrightarrow> list_all P (arr_set xs i v)"
  using set_arr_set [of xs i v] by (auto simp: list_all_iff)

lemma thread_idx: "length xs = MAX_THREADS \<Longrightarrow> idx_ok xs (tid op) \<longleftrightarrow> thread_ok op"
  by (simp add: idx_ok_def thread_ok_def)

lemma thread_nth: "length xs = MAX_THREADS \<Longrightarrow> thread_ok op \<Longrightarrow> of_thread xs op \<in> set xs"
  by (simp add: thread_ok_def)

section \<open>Backtrace files\<close>

text \<open>
  A line of a backtrace file that starts an entry holds an address that
  \<open>std::stoull\<close> accepts.
\<close>

definition backtrace_line_ok :: "string \<Rightarrow> bool" where
  "backtrace_line_ok line \<longleftrightarrow>
     (str_find ''>>'' line = Some 0 \<longrightarrow>
        3 \<le> length line \<and> xopt (stoull16 (take 14 (drop 3 line)) :: (event, addr_t) outcome) \<noteq> None)"

definition backtrace_files_ok :: "('sm, 'tm, 'im, 'is) xenv \<Rightarrow> bool" where
  "backtrace_files_ok E \<longleftrightarrow>
     (\<forall>f \<in> {''/tmp/backtrace_pre.0'', ''/tmp/backtrace_post.0''}.
        \<forall>line \<in> set (files E f). backtrace_line_ok line)"

lemma find_backtrace_total:
  "\<forall>line \<in> set lines. backtrace_line_ok line \<Longrightarrow> xopt (find_backtrace n ip lines) \<noteq> None"
proof (induction lines arbitrary: n)
  case (Cons line rest)
  then have r: "xopt (find_backtrace (Suc n) ip rest) \<noteq> None" by simp
  show ?case
  proof (cases "str_find ''>>'' line = Some 0")
    case True
    with Cons.prems obtain v where "3 \<le> length line"
        "xopt (stoull16 (take 14 (drop 3 line)) :: (event, addr_t) outcome) = Some v"
      by (auto simp: backtrace_line_ok_def)
    with True r show ?thesis
      by (simp add: str_substr_def del: not_None_eq)
  qed (use r in \<open>simp del: not_None_eq\<close>)
qed simp

lemma to_string_0: "to_string 0 = ''0''"
  by code_simp

definition backtrace_found :: "('sm, 'tm, 'im, 'is) xenv \<Rightarrow> addr_t \<Rightarrow> int \<Rightarrow> bool" where
  "backtrace_found E ip stage = the (xopt (print_IP_linenumber_mapping E ip stage))"

lemma print_IP_total:
  assumes "backtrace_files_ok E" and "stage = PRE_FAILURE \<or> stage = POST_FAILURE"
  shows "xopt (print_IP_linenumber_mapping E ip stage) = Some (backtrace_found E ip stage)"
proof -
  have "xopt (print_IP_linenumber_mapping E ip stage) \<noteq> None"
    using assms find_backtrace_total
    by (auto simp: print_IP_linenumber_mapping_def backtrace_files_ok_def shadow_exec_id_def
        to_string_0 stage_defs)
  then show ?thesis by (auto simp: backtrace_found_def)
qed

section \<open>The simulation\<close>

text \<open>
  A call that returns leaves a well-formed shadow with the meaning the specification gives. When
  the backtrace files can be parsed, it fails only where the specification has no result.
\<close>

definition refines ::
  "('sm, 'tm, 'im, 'is) xenv \<Rightarrow> ('sm, 'tm, 'im, 'is) shadow_out \<Rightarrow> byte_state option \<Rightarrow> bool" where
  "refines E m b \<longleftrightarrow>
     (\<forall>s. xopt m = Some s \<longrightarrow> shadow_wf E s \<and> b = Some (shadow_abs E s)) \<and>
     (backtrace_files_ok E \<longrightarrow> xopt m = None \<longrightarrow> b = None)"

lemma refines_Inr [simp]: "refines E (Inr (s, es)) b \<longleftrightarrow> shadow_wf E s \<and> b = Some (shadow_abs E s)"
  by (auto simp: refines_def)

lemma refines_xret [simp]: "refines E (xret s) b \<longleftrightarrow> shadow_wf E s \<and> b = Some (shadow_abs E s)"
  by (simp add: xret_def)

lemma refines_xemit [simp]: "refines E (xemit es m) b = refines E m b"
  by (simp add: refines_def)

lemma refines_xassert:
  "(c \<Longrightarrow> refines E m b) \<Longrightarrow> (\<not> c \<Longrightarrow> b = None) \<Longrightarrow> refines E (xassert c msg m) b"
  by (simp add: refines_def xassert_def)

lemma refines_fail [simp]: "refines E (Inl f) None"
  by (simp add: refines_def)

lemma refines_observe:
  assumes "\<And>x. xopt m = Some x \<Longrightarrow> refines E (k x) b"
    and "backtrace_files_ok E \<Longrightarrow> xopt m = None \<Longrightarrow> b = None"
  shows "refines E (xbind m k) b"
  using assms by (cases "xopt m") (auto simp: refines_def)

lemma refines_seq:
  assumes "refines E m b" and "\<And>s. shadow_wf E s \<Longrightarrow> b = Some (shadow_abs E s) \<Longrightarrow> refines E (k s) c"
    and "b = None \<Longrightarrow> c = None"
  shows "refines E (xbind m k) c"
  using assms by (cases "xopt m") (auto simp: refines_def)

lemma refines_print:
  assumes "stage = PRE_FAILURE \<or> stage = POST_FAILURE" and "\<And>r. refines E (k r) b"
  shows "refines E (xbind (print_IP_linenumber_mapping E ip stage) k) b"
  using assms by (intro refines_observe) (simp_all add: print_IP_total)

lemma drain_option:
  "map_option drain_status v = (if v = Some WRITEBACK_PENDING then Some WRITTEN_BACK else v)"
  by (cases v) (simp_all add: drain_status_def)

lemma put_empty [simp]: "put f {} v = f"
  by (simp add: put_def)

lemma put_union: "put (put f A v) B v = put f (A \<union> B) v"
  by (auto simp: put_def)

lemma print_IP_PRE:
  "backtrace_files_ok E \<Longrightarrow>
     xopt (print_IP_linenumber_mapping E ip PRE_FAILURE) = Some (backtrace_found E ip PRE_FAILURE)"
  by (simp add: print_IP_total)

lemma report_first_total: "backtrace_files_ok E \<Longrightarrow> xopt (report_first E msg segs) = Some ()"
  by (simp add: report_first_def print_IP_PRE split: list.splits)

lemma writeback_warn_total: "backtrace_files_ok E \<Longrightarrow> xopt (writeback_warn E op a n it u) = Some u"
  by (simp add: writeback_warn_def print_IP_PRE)

lemma writeback_warns_total:
  assumes "backtrace_files_ok E"
  shows "xopt (xfor (writeback_warn E op a n) segs ()) = Some ()"
proof -
  have "xopt (xfor (writeback_warn E op a n) segs ()) = Some (fold (\<lambda>_ u. u) segs ())"
    by (rule xopt_xfor_total) (simp add: writeback_warn_total assms)
  then show ?thesis by simp
qed

locale shadow_env =
  st: icl_map "st_ops E" + ts: icl_map "ts_ops E" + ip: icl_map "ip_ops E" +
  sets: icl_set "is_ops E"
  for E :: "('sm, 'tm, 'im, 'is) xenv"
begin

lemmas inv_intros = st.map_inv ts.map_inv ip.map_inv sets.set_inv
lemmas at_simps = st.map_at ts.map_at ip.map_at sets.set_elems

text \<open>Every update of one field keeps the shadow well formed and is the update of its meaning.\<close>

lemma wf_inv:
  assumes "shadow_wf E s"
  shows "im_inv (st_ops E) (pm_status s)" "im_inv (ts_ops E) (pm_modify_timestamps s)"
    "im_inv (ip_ops E) (write_addr_IP_mapping s)" "is_inv (is_ops E) (commit_var_set_addr s)"
    "thread_ok op \<Longrightarrow> is_inv (is_ops E) (of_thread (tx_added_addr s) op)"
    "thread_ok op \<Longrightarrow> is_inv (is_ops E) (of_thread (tx_non_added_write_addr s) op)"
    "thread_ok op \<Longrightarrow> im_inv (ip_ops E) (of_thread (tx_added_addr_IP_mapping s) op)"
    "thread_ok op \<Longrightarrow> im_inv (ip_ops E) (of_thread (tx_alloc_addr_IP_mapping s) op)"
  using assms by (simp_all add: shadow_wf_def thread_ok_def list_all_length)

lemma wf_idx:
  assumes "shadow_wf E s"
  shows "idx_ok (pre_InternalFunctLevel s) (tid op) = thread_ok op"
    "idx_ok (tx_level s) (tid op) = thread_ok op"
    "idx_ok (skipDetectionStatus s) (tid op) = thread_ok op"
    "idx_ok (tx_added_addr s) (tid op) = thread_ok op"
    "idx_ok (tx_non_added_write_addr s) (tid op) = thread_ok op"
    "idx_ok (tx_added_addr_IP_mapping s) (tid op) = thread_ok op"
    "idx_ok (tx_alloc_addr_IP_mapping s) (tid op) = thread_ok op"
  using assms by (auto simp: shadow_wf_def idx_ok_def thread_ok_def)

lemma wf_lists:
  assumes "shadow_wf E s"
  shows "length (pre_InternalFunctLevel s) = MAX_THREADS" "length (tx_level s) = MAX_THREADS"
    "length (skipDetectionStatus s) = MAX_THREADS"
    "length (tx_added_addr s) = MAX_THREADS" "list_all (is_inv (is_ops E)) (tx_added_addr s)"
    "length (tx_non_added_write_addr s) = MAX_THREADS"
    "list_all (is_inv (is_ops E)) (tx_non_added_write_addr s)"
    "length (tx_added_addr_IP_mapping s) = MAX_THREADS"
    "list_all (im_inv (ip_ops E)) (tx_added_addr_IP_mapping s)"
    "length (tx_alloc_addr_IP_mapping s) = MAX_THREADS"
    "list_all (im_inv (ip_ops E)) (tx_alloc_addr_IP_mapping s)"
  using assms by (simp_all add: shadow_wf_def)

lemma wf_field:
  assumes "shadow_wf E s"
  shows "im_inv (st_ops E) m \<Longrightarrow> shadow_wf E (s\<lparr>pm_status := m\<rparr>)"
    "im_inv (ts_ops E) m1 \<Longrightarrow> shadow_wf E (s\<lparr>pm_modify_timestamps := m1\<rparr>)"
    "im_inv (ip_ops E) m2 \<Longrightarrow> shadow_wf E (s\<lparr>write_addr_IP_mapping := m2\<rparr>)"
    "is_inv (is_ops E) a \<Longrightarrow> shadow_wf E (s\<lparr>commit_var_set_addr := a\<rparr>)"
    "shadow_wf E (s\<lparr>global_timestamp := t\<rparr>)" "shadow_wf E (s\<lparr>commit_timestamp := t\<rparr>)"
    "shadow_wf E (s\<lparr>checked_addr_set := c\<rparr>)"
    "length l = MAX_THREADS \<Longrightarrow> shadow_wf E (s\<lparr>pre_InternalFunctLevel := l\<rparr>)"
    "length l = MAX_THREADS \<Longrightarrow> shadow_wf E (s\<lparr>tx_level := l\<rparr>)"
    "length l = MAX_THREADS \<Longrightarrow> shadow_wf E (s\<lparr>skipDetectionStatus := l\<rparr>)"
    "length as = MAX_THREADS \<Longrightarrow> list_all (is_inv (is_ops E)) as \<Longrightarrow> shadow_wf E (s\<lparr>tx_added_addr := as\<rparr>)"
    "length as = MAX_THREADS \<Longrightarrow> list_all (is_inv (is_ops E)) as \<Longrightarrow>
       shadow_wf E (s\<lparr>tx_non_added_write_addr := as\<rparr>)"
    "length ms = MAX_THREADS \<Longrightarrow> list_all (im_inv (ip_ops E)) ms \<Longrightarrow>
       shadow_wf E (s\<lparr>tx_added_addr_IP_mapping := ms\<rparr>)"
    "length ms = MAX_THREADS \<Longrightarrow> list_all (im_inv (ip_ops E)) ms \<Longrightarrow>
       shadow_wf E (s\<lparr>tx_alloc_addr_IP_mapping := ms\<rparr>)"
  using assms by (simp_all add: shadow_wf_def)

lemmas wf_update = wf_field wf_lists list_all_arr_set

lemma abs_update:
  "shadow_abs E (s\<lparr>pm_status := m\<rparr>) = (shadow_abs E s)\<lparr>b_status := im_at (st_ops E) m\<rparr>"
  "shadow_abs E (s\<lparr>pm_modify_timestamps := m1\<rparr>) = (shadow_abs E s)\<lparr>b_mtime := im_at (ts_ops E) m1\<rparr>"
  "shadow_abs E (s\<lparr>write_addr_IP_mapping := m2\<rparr>) = (shadow_abs E s)\<lparr>b_writer := im_at (ip_ops E) m2\<rparr>"
  "shadow_abs E (s\<lparr>commit_var_set_addr := a\<rparr>) =
     (shadow_abs E s)\<lparr>b_commit_vars := is_elems (is_ops E) a\<rparr>"
  "shadow_abs E (s\<lparr>global_timestamp := t\<rparr>) = (shadow_abs E s)\<lparr>b_time := t\<rparr>"
  "shadow_abs E (s\<lparr>commit_timestamp := t\<rparr>) = (shadow_abs E s)\<lparr>b_commit_time := t\<rparr>"
  "shadow_abs E (s\<lparr>checked_addr_set := c\<rparr>) = (shadow_abs E s)\<lparr>b_checked := c\<rparr>"
  "shadow_abs E (s\<lparr>pre_InternalFunctLevel := l\<rparr>) = (shadow_abs E s)\<lparr>b_internal := l\<rparr>"
  "shadow_abs E (s\<lparr>tx_level := l\<rparr>) = (shadow_abs E s)\<lparr>b_tx_level := l\<rparr>"
  "shadow_abs E (s\<lparr>skipDetectionStatus := l\<rparr>) = (shadow_abs E s)\<lparr>b_skip := l\<rparr>"
  "shadow_abs E (s\<lparr>tx_added_addr := as\<rparr>) = (shadow_abs E s)\<lparr>b_added := map (is_elems (is_ops E)) as\<rparr>"
  "shadow_abs E (s\<lparr>tx_non_added_write_addr := as\<rparr>) =
     (shadow_abs E s)\<lparr>b_unadded := map (is_elems (is_ops E)) as\<rparr>"
  "shadow_abs E (s\<lparr>tx_added_addr_IP_mapping := ms\<rparr>) =
     (shadow_abs E s)\<lparr>b_added_ip := map (im_at (ip_ops E)) ms\<rparr>"
  "shadow_abs E (s\<lparr>tx_alloc_addr_IP_mapping := ms\<rparr>) =
     (shadow_abs E s)\<lparr>b_alloc_ip := map (im_at (ip_ops E)) ms\<rparr>"
  by (simp_all add: shadow_abs_def)

lemma abs_select:
  "b_status (shadow_abs E s) = im_at (st_ops E) (pm_status s)"
  "b_mtime (shadow_abs E s) = im_at (ts_ops E) (pm_modify_timestamps s)"
  "b_writer (shadow_abs E s) = im_at (ip_ops E) (write_addr_IP_mapping s)"
  "b_commit_vars (shadow_abs E s) = is_elems (is_ops E) (commit_var_set_addr s)"
  "b_time (shadow_abs E s) = global_timestamp s"
  "b_commit_time (shadow_abs E s) = commit_timestamp s"
  "b_internal (shadow_abs E s) = pre_InternalFunctLevel s"
  "b_tx_level (shadow_abs E s) = tx_level s"
  "b_skip (shadow_abs E s) = skipDetectionStatus s"
  "b_checked (shadow_abs E s) = checked_addr_set s"
  "b_added (shadow_abs E s) = map (is_elems (is_ops E)) (tx_added_addr s)"
  "b_unadded (shadow_abs E s) = map (is_elems (is_ops E)) (tx_non_added_write_addr s)"
  "b_added_ip (shadow_abs E s) = map (im_at (ip_ops E)) (tx_added_addr_IP_mapping s)"
  "b_alloc_ip (shadow_abs E s) = map (im_at (ip_ops E)) (tx_alloc_addr_IP_mapping s)"
  by (simp_all add: shadow_abs_def)

text \<open>The container macros at one address.\<close>

lemma macro_at:
  "im_inv (st_ops E) m \<Longrightarrow> im_at (st_ops E) (MAP_UPDATE (st_ops E) m a n v) = put (im_at (st_ops E) m) (bytes a n) v"
  "im_inv (ts_ops E) m1 \<Longrightarrow> im_at (ts_ops E) (MAP_UPDATE (ts_ops E) m1 a n t) = put (im_at (ts_ops E) m1) (bytes a n) t"
  "im_inv (ip_ops E) m2 \<Longrightarrow> im_at (ip_ops E) (MAP_UPDATE (ip_ops E) m2 a n p) = put (im_at (ip_ops E) m2) (bytes a n) p"
  "im_inv (st_ops E) m \<Longrightarrow> im_at (st_ops E) (MAP_REMOVE (st_ops E) m a n) = im_at (st_ops E) m |` (- bytes a n)"
  "is_inv (is_ops E) x \<Longrightarrow> is_elems (is_ops E) (SET_INSERT (is_ops E) x a n) = is_elems (is_ops E) x \<union> bytes a n"
  "is_inv (is_ops E) x \<Longrightarrow> SET_LOOKUP (is_ops E) x a n \<longleftrightarrow> bytes a n \<subseteq> is_elems (is_ops E) x"
  by (auto simp: macro_defs at_simps put_def restrict_map_def)

lemma macro_inv:
  "im_inv (st_ops E) m \<Longrightarrow> im_inv (st_ops E) (MAP_UPDATE (st_ops E) m a n v)"
  "im_inv (ts_ops E) m1 \<Longrightarrow> im_inv (ts_ops E) (MAP_UPDATE (ts_ops E) m1 a n t)"
  "im_inv (ip_ops E) m2 \<Longrightarrow> im_inv (ip_ops E) (MAP_UPDATE (ip_ops E) m2 a n p)"
  "im_inv (st_ops E) m \<Longrightarrow> im_inv (st_ops E) (MAP_REMOVE (st_ops E) m a n)"
  "is_inv (is_ops E) x \<Longrightarrow> is_inv (is_ops E) (SET_INSERT (is_ops E) x a n)"
  by (simp_all add: macro_defs inv_intros)

lemmas refine_simps = macro_at macro_inv wf_inv wf_idx abs_update abs_select

lemma wf_status: "shadow_wf E s \<Longrightarrow> shadow_wf E (s\<lparr>pm_status := MAP_UPDATE (st_ops E) (pm_status s) a n v\<rparr>)"
  by (simp add: wf_update refine_simps)

lemma modify_refines:
  assumes "shadow_wf E s"
  shows "refines E (modify_addr E op a n s)
    (if n \<noteq> 0 \<and> a \<noteq> 0
     then Some ((shadow_abs E s)\<lparr>b_status := put (b_status (shadow_abs E s)) (bytes a n) MODIFIED,
                 b_mtime := put (b_mtime (shadow_abs E s)) (bytes a n) (b_time (shadow_abs E s))\<rparr>)
     else None)"
  unfolding modify_addr_def using assms
  by (intro refines_xassert) (auto simp: wf_update refine_simps)

lemma set_consistent_refines:
  assumes "shadow_wf E s"
  shows "refines E (set_consistent_addr E op a n s)
    (if n \<noteq> 0 \<and> a \<noteq> 0
     then Some ((shadow_abs E s)\<lparr>b_status := put (b_status (shadow_abs E s)) (bytes a n) CONSISTENT\<rparr>)
     else None)"
  unfolding set_consistent_addr_def using assms
  by (intro refines_xassert) (auto simp: wf_update refine_simps)

lemma writeback_refines:
  assumes "shadow_wf E s"
  shows "refines E (writeback_addr E op a n s)
    (Some ((shadow_abs E s)\<lparr>b_status := put (b_status (shadow_abs E s)) (bytes a n) WRITEBACK_PENDING\<rparr>))"
  unfolding writeback_addr_def using assms
  by (intro refines_observe) (auto simp: wf_update refine_simps writeback_warns_total)

lemma write_IP_refines:
  assumes "shadow_wf E s" and "operation op = WRITE"
  shows "refines E (add_write_addr_IP_mapping E op s)
    (if dst_addr op \<noteq> 0 \<and> size_of op \<noteq> 0
     then Some ((shadow_abs E s)\<lparr>b_writer :=
       put (b_writer (shadow_abs E s)) (bytes (dst_addr op) (size_of op)) (instr_ptr op)\<rparr>)
     else None)"
  unfolding add_write_addr_IP_mapping_def Let_def using assms
  by (intro refines_xassert) (auto simp: wf_update refine_simps)

lemma map_refines:
  assumes "shadow_wf E s"
  shows "refines E (handle_map E stage op s)
    (if dst_addr op \<noteq> 0 \<and> size_of op \<noteq> 0 then Some (byte_map stage op (shadow_abs E s)) else None)"
  unfolding handle_map_def add_pm_addr_def add_pm_addr_post_def byte_map_def using assms
  by (auto intro!: refines_xassert simp: wf_update refine_simps)

lemma remove_refines:
  assumes "shadow_wf E s"
  shows "refines E (remove_pm_addr E op a n s)
    (if a \<noteq> 0 \<and> n \<noteq> 0
     then Some ((shadow_abs E s)\<lparr>b_status := b_status (shadow_abs E s) |` (- bytes a n)\<rparr>) else None)"
  unfolding remove_pm_addr_def using assms
  by (auto intro!: refines_xassert simp: wf_update refine_simps)

lemma sfence_refines:
  assumes "shadow_wf E s"
  shows "refines E (handle_sfence E stage s)
    (if stage = PRE_FAILURE \<longrightarrow> b_time (shadow_abs E s) \<noteq> 2147483647
     then Some (byte_fence stage (shadow_abs E s)) else None)"
proof -
  let ?m = "im_assign (st_ops E) drain_status (pm_status s)"
  have inv: "im_inv (st_ops E) ?m"
    using assms by (simp add: refine_simps inv_intros)
  have at: "im_at (st_ops E) ?m = fenced (im_at (st_ops E) (pm_status s))"
    using assms by (intro ext) (simp add: refine_simps at_simps drain_option fenced_def)
  show ?thesis
    unfolding handle_sfence_def drain_writeback_def Let_def increment_global_time_def byte_fence_def
    using assms inv
    by (auto intro!: refines_observe simp: wf_update refine_simps at split: if_splits)
qed

text \<open>Transactions.\<close>

lemma commit_interval_refines:
  assumes wf: "shadow_wf E s" and t: "thread_ok op"
  shows "refines E (commit_interval E (tid op) stage i s)
    (Some ((shadow_abs E s)\<lparr>b_status := put (b_status (shadow_abs E s)) (ival_set i) CONSISTENT\<rparr>))"
proof -
  have at: "im_at (st_ops E) (MAP_UPDATE_INTERVAL (st_ops E) (pm_status s) i CONSISTENT) =
      put (im_at (st_ops E) (pm_status s)) (ival_set i) CONSISTENT"
    using wf by (intro ext) (simp add: macro_defs at_simps refine_simps put_def)
  have "im_inv (st_ops E) (MAP_UPDATE_INTERVAL (st_ops E) (pm_status s) i CONSISTENT)"
    using wf by (simp add: macro_defs inv_intros refine_simps)
  then show ?thesis
    unfolding commit_interval_def Let_def using wf t
    by (intro refines_observe) (auto simp: wf_update refine_simps at report_first_total split: if_splits)
qed

lemma commit_loop_refines:
  assumes "shadow_wf E s" and "thread_ok op"
  shows "refines E (xfor (commit_interval E (tid op) stage) is s)
    (Some ((shadow_abs E s)\<lparr>b_status := put (b_status (shadow_abs E s)) (\<Union>i \<in> set is. ival_set i) CONSISTENT\<rparr>))"
  using assms(1)
proof (induction "is" arbitrary: s)
  case Nil
  then show ?case by simp
next
  case (Cons i "is")
  show ?case
    unfolding xfor.simps
  proof (rule refines_seq [OF commit_interval_refines [OF Cons.prems assms(2), of stage i]])
    fix s1
    assume wf: "shadow_wf E s1"
      and "Some ((shadow_abs E s)\<lparr>b_status := put (b_status (shadow_abs E s)) (ival_set i) CONSISTENT\<rparr>) =
        Some (shadow_abs E s1)"
    then have "shadow_abs E s1 =
        (shadow_abs E s)\<lparr>b_status := put (b_status (shadow_abs E s)) (ival_set i) CONSISTENT\<rparr>"
      by simp
    with Cons.IH [OF wf] show "refines E (xfor (commit_interval E (tid op) stage) is s1)
      (Some ((shadow_abs E s)\<lparr>b_status :=
        put (b_status (shadow_abs E s)) (\<Union>i \<in> set (i # is). ival_set i) CONSISTENT\<rparr>))"
      by (simp add: put_union)
  qed simp
qed

lemma abs_clear:
  "map (is_elems (is_ops E)) (arr_set xs i (is_empty_set (is_ops E))) =
     arr_set (map (is_elems (is_ops E)) xs) i {}"
  "map (im_at (ip_ops E)) (arr_set ys i (im_empty (ip_ops E))) =
     arr_set (map (im_at (ip_ops E)) ys) i Map.empty"
proof -
  have "im_at (ip_ops E) (im_empty (ip_ops E)) = Map.empty"
    by (rule ext) (simp add: at_simps)
  then show "map (im_at (ip_ops E)) (arr_set ys i (im_empty (ip_ops E))) =
      arr_set (map (im_at (ip_ops E)) ys) i Map.empty"
    by (simp add: map_arr_set)
qed (simp add: map_arr_set at_simps)

lemma of_thread_map:
  assumes "shadow_wf E s" and "thread_ok op"
  shows "of_thread (map f (tx_added_addr s)) op = f (of_thread (tx_added_addr s) op)"
    "of_thread (map f (tx_non_added_write_addr s)) op = f (of_thread (tx_non_added_write_addr s) op)"
    "of_thread (map g (tx_added_addr_IP_mapping s)) op = g (of_thread (tx_added_addr_IP_mapping s) op)"
    "of_thread (map g (tx_alloc_addr_IP_mapping s)) op = g (of_thread (tx_alloc_addr_IP_mapping s) op)"
  using assms by (simp_all add: shadow_wf_def thread_ok_def)

lemma clear_staged_wf: "shadow_wf E s \<Longrightarrow> shadow_wf E (clear_staged E t s)"
  by (simp add: clear_staged_def shadow_wf_def list_all_arr_set inv_intros)

lemma clear_staged_abs:
  "shadow_abs E (clear_staged E t s) =
     (let b = shadow_abs E s in
      b\<lparr>b_added := arr_set (b_added b) t {}, b_unadded := arr_set (b_unadded b) t {},
        b_added_ip := arr_set (b_added_ip b) t Map.empty, b_alloc_ip := arr_set (b_alloc_ip b) t Map.empty\<rparr>)"
  by (simp add: clear_staged_def shadow_abs_def abs_clear Let_def)

text \<open>The end of a transaction: a nested one, the outermost one, and one that never began.\<close>

lemma tx_end_nested:
  "thread_ok op \<Longrightarrow> shadow_wf E s \<Longrightarrow> of_thread (tx_level s) op > 1 \<Longrightarrow>
     decrement_tx_level E (tid op) stage s =
       xret (s\<lparr>tx_level := arr_set (tx_level s) (tid op) (of_thread (tx_level s) op - 1)\<rparr>)"
  by (simp add: decrement_tx_level_def wf_idx)

lemma tx_end_outermost:
  "thread_ok op \<Longrightarrow> shadow_wf E s \<Longrightarrow> of_thread (tx_level s) op = 1 \<Longrightarrow>
     decrement_tx_level E (tid op) stage s =
       xbind (xfor (commit_interval E (tid op) stage)
               (is_intervals (is_ops E) (of_thread (tx_added_addr s) op))
               (s\<lparr>tx_level := arr_set (tx_level s) (tid op) 0\<rparr>))
         (\<lambda>s2. xret (clear_staged E (tid op) s2))"
  by (simp add: decrement_tx_level_def wf_idx)

lemma tx_end_outermost_refines:
  assumes wf: "shadow_wf E s" and t: "thread_ok op" and one: "of_thread (tx_level s) op = 1"
  shows "refines E (decrement_tx_level E (tid op) stage s) (Some (byte_tx_end op (shadow_abs E s)))"
proof -
  let ?s1 = "s\<lparr>tx_level := arr_set (tx_level s) (tid op) 0\<rparr>"
  have el: "(\<Union>i \<in> set (is_intervals (is_ops E) (of_thread (tx_added_addr s) op)). ival_set i) =
      of_thread (b_added (shadow_abs E s)) op"
    using wf t by (simp add: abs_select of_thread_map is_elems_def)
  have "shadow_wf E ?s1" using wf by (simp add: wf_update)
  note loop = commit_loop_refines [OF this t, of stage
      "is_intervals (is_ops E) (of_thread (tx_added_addr s) op)", unfolded el abs_update]
  show ?thesis
    unfolding tx_end_outermost [OF t wf one]
  proof (rule refines_seq [OF loop], goal_cases)
    case (1 s2)
    then have "shadow_abs E s2 = (shadow_abs E s)\<lparr>b_tx_level := arr_set (tx_level s) (tid op) 0,
        b_status := put (b_status (shadow_abs E s)) (of_thread (b_added (shadow_abs E s)) op) CONSISTENT\<rparr>"
      by simp
    with 1 one show ?case
      by (simp add: clear_staged_wf clear_staged_abs byte_tx_end_def Let_def abs_select)
  qed simp
qed

lemma tx_end_refines:
  assumes wf: "shadow_wf E s"
  shows "refines E (decrement_tx_level E (tid op) stage s)
    (if thread_ok op \<and> of_thread (b_tx_level (shadow_abs E s)) op > 0
     then Some (byte_tx_end op (shadow_abs E s)) else None)"
proof -
  consider "\<not> (thread_ok op \<and> of_thread (tx_level s) op > 0)"
    | "thread_ok op" "of_thread (tx_level s) op > 1"
    | "thread_ok op" "of_thread (tx_level s) op = 1"
    by linarith
  then show ?thesis
  proof cases
    case 1
    with wf show ?thesis
      by (auto simp: decrement_tx_level_def refine_simps arr_get_def)
  next
    case 2
    with wf show ?thesis
      by (simp add: tx_end_nested byte_tx_end_def wf_update refine_simps)
  next
    case 3
    with tx_end_outermost_refines [OF wf 3] show ?thesis by (simp add: abs_select)
  qed
qed

lemma tx_begin_refines:
  assumes "shadow_wf E s"
  shows "refines E (increment_tx_level (tid op) stage s)
    (if thread_ok op \<and> of_thread (b_tx_level (shadow_abs E s)) op \<noteq> 2147483647
     then Some (let b = shadow_abs E s in
       b\<lparr>b_tx_level := arr_set (b_tx_level b) (tid op) (of_thread (b_tx_level b) op + 1)\<rparr>) else None)"
  unfolding increment_tx_level_def Let_def using assms
  by (auto simp: refine_simps wf_update arr_get_def int_inc_def)

lemma internal_call_refines:
  assumes "shadow_wf E s"
  shows "refines E (increment_pre_internal_funct_level (tid op) s)
    (if thread_ok op \<and> of_thread (b_internal (shadow_abs E s)) op \<noteq> 2147483647
     then Some (let b = shadow_abs E s in
       b\<lparr>b_internal := arr_set (b_internal b) (tid op) (of_thread (b_internal b) op + 1)\<rparr>) else None)"
  unfolding increment_pre_internal_funct_level_def Let_def using assms
  by (auto simp: refine_simps wf_update arr_get_def int_inc_def)

lemma internal_ret_refines:
  assumes "shadow_wf E s"
  shows "refines E (decrement_pre_internal_funct_level (tid op) s)
    (if thread_ok op \<and> of_thread (b_internal (shadow_abs E s)) op > 0
     then Some (let b = shadow_abs E s in
       b\<lparr>b_internal := arr_set (b_internal b) (tid op) (of_thread (b_internal b) op - 1)\<rparr>) else None)"
  unfolding decrement_pre_internal_funct_level_def Let_def using assms
  by (auto simp: refine_simps wf_update arr_get_def)

lemma skip_refines:
  assumes "shadow_wf E s"
  shows "refines E (handle_skip_begin (tid op) s)
      (if thread_ok op \<and> of_thread (b_skip (shadow_abs E s)) op \<noteq> 1
       then Some (let b = shadow_abs E s in b\<lparr>b_skip := arr_set (b_skip b) (tid op) 1\<rparr>) else None)"
    "refines E (handle_skip_end (tid op) s)
      (if thread_ok op \<and> of_thread (b_skip (shadow_abs E s)) op = 1
       then Some (let b = shadow_abs E s in b\<lparr>b_skip := arr_set (b_skip b) (tid op) 0\<rparr>) else None)"
  unfolding handle_skip_begin_def handle_skip_end_def is_detection_disabled_def
    disable_detection_def enable_detection_def Let_def using assms
  by (auto simp: refine_simps wf_update arr_get_def)

lemma stage_added_refines:
  assumes "shadow_wf E s"
  shows "refines E (stage_added E op (dst_addr op) (size_of op) alloc s)
    (if thread_ok op \<and> dst_addr op \<noteq> 0 \<and> size_of op \<noteq> 0
     then Some (byte_tx_add alloc op (shadow_abs E s)) else None)"
proof (cases "thread_ok op")
  case t: True
  with assms show ?thesis
    by (cases alloc) (auto simp: stage_added_def Let_def wf_update refine_simps of_thread_map
        map_arr_set byte_tx_add_def xassert_def)
qed (use assms in \<open>auto simp: stage_added_def Let_def wf_idx arr_get_def xassert_def\<close>)

lemma tx_add_refines:
  assumes wf: "shadow_wf E s"
  shows "refines E (add_tx_add_addr E op (dst_addr op) (size_of op) stage alloc s)
    (if thread_ok op \<and> dst_addr op \<noteq> 0 \<and> size_of op \<noteq> 0
     then Some (byte_tx_add alloc op (shadow_abs E s)) else None)"
  unfolding add_tx_add_addr_def Let_def
  by (intro refines_observe stage_added_refines [OF wf])
    (use wf in \<open>auto simp: is_non_added_write_addr_def is_added_addr_def print_IP_PRE
      report_first_total wf_idx split: if_splits\<close>)

lemmas level_refines = tx_begin_refines internal_call_refines internal_ret_refines skip_refines

text \<open>Writes.\<close>

lemma write_commit_var_refines:
  assumes "shadow_wf E s" and "operation op = WRITE" "dst_addr op \<noteq> 0" "size_of op \<noteq> 0"
  shows "refines E (write_commit_var E stage op s) (Some (byte_commit stage op (shadow_abs E s)))"
  using assms
  by (auto simp: write_commit_var_def is_commit_var_addr_def update_commitVar_timestamp_def
      add_write_addr_IP_mapping_def byte_commit_def Let_def refine_simps wf_update)

lemma write_in_tx_refines:
  assumes wf: "shadow_wf E s" and t: "thread_ok op"
  shows "refines E (write_in_tx E op s)
    (Some (let b = shadow_abs E s; A = bytes (dst_addr op) (size_of op) in
           if of_thread (b_tx_level b) op > 0 \<and> \<not> A \<subseteq> of_thread (b_added b) op
           then b\<lparr>b_unadded := arr_set (b_unadded b) (tid op) (of_thread (b_unadded b) op \<union> A)\<rparr> else b))"
  unfolding write_in_tx_def is_in_tx_def is_added_addr_def add_non_tx_add_addr_def
  using assms
  by (auto intro!: refines_print simp: Let_def refine_simps wf_update of_thread_map map_arr_set)

lemma modify_then:
  assumes "shadow_wf E s" "n \<noteq> 0" "a \<noteq> 0"
    and "\<And>s1. shadow_wf E s1 \<Longrightarrow> shadow_abs E s1 =
      (shadow_abs E s)\<lparr>b_status := put (b_status (shadow_abs E s)) (bytes a n) MODIFIED,
        b_mtime := put (b_mtime (shadow_abs E s)) (bytes a n) (b_time (shadow_abs E s))\<rparr> \<Longrightarrow>
      refines E (k s1) c"
  shows "refines E (xbind (modify_addr E op a n s) k) c"
  using assms by (intro refines_seq [OF modify_refines]) auto

lemma consistent_then:
  assumes "shadow_wf E s" "n \<noteq> 0" "a \<noteq> 0"
    and "\<And>s1. shadow_wf E s1 \<Longrightarrow> shadow_abs E s1 =
      (shadow_abs E s)\<lparr>b_status := put (b_status (shadow_abs E s)) (bytes a n) CONSISTENT\<rparr> \<Longrightarrow>
      refines E (k s1) c"
  shows "refines E (xbind (set_consistent_addr E op a n s) k) c"
  using assms by (intro refines_seq [OF set_consistent_refines]) auto

lemma writeback_then:
  assumes "shadow_wf E s"
    and "\<And>s1. shadow_wf E s1 \<Longrightarrow> shadow_abs E s1 =
      (shadow_abs E s)\<lparr>b_status := put (b_status (shadow_abs E s)) (bytes a n) WRITEBACK_PENDING\<rparr> \<Longrightarrow>
      refines E (k s1) c"
  shows "refines E (xbind (writeback_addr E op a n s) k) c"
  using assms by (intro refines_seq [OF writeback_refines]) auto

lemma write_IP_last:
  assumes "shadow_wf E s" "operation op = WRITE" "dst_addr op \<noteq> 0" "size_of op \<noteq> 0"
    and "c = Some ((shadow_abs E s)\<lparr>b_writer :=
      put (b_writer (shadow_abs E s)) (bytes (dst_addr op) (size_of op)) (instr_ptr op)\<rparr>)"
  shows "refines E (add_write_addr_IP_mapping E op s) c"
  using write_IP_refines [OF assms(1,2)] assms by simp

lemma consistent_last:
  assumes "shadow_wf E s" "n \<noteq> 0" "a \<noteq> 0"
    and "c = Some ((shadow_abs E s)\<lparr>b_status := put (b_status (shadow_abs E s)) (bytes a n) CONSISTENT\<rparr>)"
  shows "refines E (set_consistent_addr E op a n s) c"
  using set_consistent_refines [OF assms(1), of op a n] assms by simp

lemma plain_write_refines:
  assumes wf: "shadow_wf E s" and t: "thread_ok op" and op: "operation op = WRITE"
    and legal: "dst_addr op \<noteq> 0" "size_of op \<noteq> 0"
  shows "refines E
    (xbind (write_in_tx E op s) (\<lambda>s1.
     xbind (modify_addr E op (dst_addr op) (size_of op) s1) (\<lambda>s2.
     xbind (if non_temporal op \<noteq> 0 then writeback_addr E op (dst_addr op) (size_of op) s2 else xret s2) (\<lambda>s3.
     add_write_addr_IP_mapping E op s3))))
    (Some (let b = shadow_abs E s; A = bytes (dst_addr op) (size_of op) in
       b\<lparr>b_status := put (b_status b) A (if non_temporal op \<noteq> 0 then WRITEBACK_PENDING else MODIFIED),
         b_mtime := put (b_mtime b) A (b_time b), b_writer := put (b_writer b) A (instr_ptr op),
         b_unadded := (if of_thread (b_tx_level b) op > 0 \<and> \<not> A \<subseteq> of_thread (b_added b) op
           then arr_set (b_unadded b) (tid op) (of_thread (b_unadded b) op \<union> A) else b_unadded b)\<rparr>))"
proof (rule refines_seq [OF write_in_tx_refines [OF wf t]], goal_cases)
  case (1 s1)
  then have s1: "shadow_wf E s1" "shadow_abs E s1 = (let b = shadow_abs E s; A = bytes (dst_addr op) (size_of op) in
      if of_thread (b_tx_level b) op > 0 \<and> \<not> A \<subseteq> of_thread (b_added b) op
      then b\<lparr>b_unadded := arr_set (b_unadded b) (tid op) (of_thread (b_unadded b) op \<union> A)\<rparr> else b)"
    by simp_all
  show ?case
    by (cases "non_temporal op = 0")
      (auto intro!: modify_then writeback_then write_IP_last simp: s1 legal op Let_def)
qed simp

lemma write_data_illegal:
  "dst_addr op = 0 \<or> size_of op = 0 \<Longrightarrow> xopt (write_data E stage op s) = None"
  by (auto simp: write_data_def modify_addr_def Let_def bind_eq_None_conv split: if_splits)

lemma write_mode:
  assumes "shadow_wf E s" and "stage = POST_FAILURE \<or> thread_ok op"
  shows "write_is_trusted stage op s = xret (byte_trusted stage op (shadow_abs E s))"
    "thread_ok op \<Longrightarrow>
       is_in_pre_internal_funct (tid op) s = xret (of_thread (b_internal (shadow_abs E s)) op > 0)"
  using assms
  by (auto simp: write_is_trusted_def byte_trusted_def is_detection_disabled_def
      is_in_pre_internal_funct_def refine_simps)

lemma write_data_refines:
  assumes wf: "shadow_wf E s" and op: "operation op = WRITE"
    and nz: "dst_addr op \<noteq> 0" "size_of op \<noteq> 0" and t: "stage = POST_FAILURE \<or> thread_ok op"
  shows "refines E (write_data E stage op s) (Some (byte_data stage op (shadow_abs E s)))"
proof (cases "byte_trusted stage op (shadow_abs E s)")
  case True
  then show ?thesis
    unfolding write_data_def byte_data_def Let_def write_mode(1) [OF wf t]
    using wf op nz by (auto intro!: modify_then consistent_then write_IP_last)
next
  case False
  then have t': "thread_ok op" using t by (auto simp: byte_trusted_def)
  show ?thesis
  proof (cases "of_thread (b_internal (shadow_abs E s)) op > 0")
    case True
    with False show ?thesis
      unfolding write_data_def byte_data_def Let_def write_mode(1) [OF wf t] write_mode(2) [OF wf t t'] xbind_xret
      using wf nz by (auto intro!: modify_then consistent_last)
  next
    case plain: False
    with False show ?thesis
      unfolding write_data_def byte_data_def Let_def write_mode(1) [OF wf t] write_mode(2) [OF wf t t'] xbind_xret
      using plain_write_refines [OF wf t' op nz] by (simp add: Let_def)
  qed
qed

lemma write_refines:
  assumes wf: "shadow_wf E s" and op: "operation op = WRITE"
  shows "refines E (handle_write E stage op s)
    (if byte_legal_op stage WRITE op (shadow_abs E s)
     then Some (byte_write stage op (shadow_abs E s)) else None)"
proof (cases "dst_addr op \<noteq> 0 \<and> size_of op \<noteq> 0")
  case False
  then show ?thesis by (auto simp: refines_def handle_write_def write_data_illegal bind_eq_None_conv)
next
  case nz: True
  show ?thesis
    unfolding handle_write_def
  proof (rule refines_seq [OF write_commit_var_refines [OF wf op]], goal_cases)
    case (3 s1)
    then have wf1: "shadow_wf E s1" and abs1: "shadow_abs E s1 = byte_commit stage op (shadow_abs E s)"
      by simp_all
    show ?case
    proof (cases "stage = POST_FAILURE \<or> thread_ok op")
      case False
      with wf1 show ?thesis
        by (simp add: write_data_def write_is_trusted_def is_detection_disabled_def wf_idx arr_get_def)
    next
      case t: True
      with nz write_data_refines [OF wf1 op _ _ t] show ?thesis
        by (auto simp: byte_write_def abs1)
    qed
  qed (use nz in simp_all)
qed

text \<open>Reads: the tests of the code are statements about the bytes that are read.\<close>

lemma status_test:
  assumes "shadow_wf E s"
  shows "(\<forall>it \<in> set (MAP_LOOKUP (st_ops E) (pm_status s) a n). snd it \<in> S) \<longleftrightarrow>
    all_status S (bytes a n) (shadow_abs E s)"
  using assms
  by (simp add: macro_defs st.ball_segments_inter [where P = "\<lambda>v. v \<in> S"] all_status_def refine_simps)

lemma is_consistent_val:
  assumes "shadow_wf E s" "n \<noteq> 0" "a \<noteq> 0"
  shows "xopt (is_consistent E op a n s) =
    Some (all_status {CONSISTENT, CLEAN} (bytes a n) (shadow_abs E s))"
  using status_test [OF assms(1), where S = "{CONSISTENT, CLEAN}"] assms by (simp add: is_consistent_def)

lemma is_writtenback_val:
  assumes "shadow_wf E s" "n \<noteq> 0" "a \<noteq> 0"
  shows "xopt (is_writtenback E op a n s) = Some (all_status {WRITTEN_BACK} (bytes a n) (shadow_abs E s))"
  using status_test [OF assms(1), where S = "{WRITTEN_BACK}"] assms by (simp add: is_writtenback_def)

lemma fold_max:
  "fold (\<lambda>it m. if m > snd it then m else snd it) xs (z :: int) < c \<longleftrightarrow> z < c \<and> (\<forall>it \<in> set xs. snd it < c)"
  by (induction xs arbitrary: z) auto

lemma recent_commit_val:
  assumes "shadow_wf E s"
  shows "is_recent_commit_update E op a n s = committed (bytes a n) (shadow_abs E s)"
  using assms
  by (simp add: is_recent_commit_update_def committed_def Let_def fold_max macro_defs
      ts.ball_segments_inter [where P = "\<lambda>t. t < commit_timestamp s"] refine_simps)

lemma read_is_correct_val:
  assumes "shadow_wf E s" "thread_ok op" "size_of op \<noteq> 0" "src_addr op \<noteq> 0"
  shows "xopt (read_is_correct E op s) = Some (byte_read_ok op (shadow_abs E s))"
  using assms
  by (simp add: read_is_correct_def byte_read_ok_def Let_def is_consistent_val is_writtenback_val
      recent_commit_val is_commit_var_addr_def is_added_addr_def refine_simps of_thread_map)

lemma print_writers_total:
  assumes "backtrace_files_ok E"
  shows "xopt (xfor (report_write_ip E) segs found) = Some (found \<or> segs \<noteq> [])"
proof (induction segs arbitrary: found)
  case (Cons x segs)
  then show ?case using assms by (simp add: report_write_ip_def print_IP_PRE)
qed simp

lemma inconsistent_read_total:
  assumes "backtrace_files_ok E" "shadow_wf E s" "operation op = READ" "size_of op \<noteq> 0" "src_addr op \<noteq> 0"
  shows "xopt (report_inconsistent_read E op s) = Some ()"
  using assms
  by (simp add: report_inconsistent_read_def printInconsistentReadDebug_def
      print_look_up_write_addr_IP_mapping_def print_writers_total print_IP_total is_writtenback_val Let_def)

lemma read_refines:
  assumes wf: "shadow_wf E s" and op: "operation op = READ"
  shows "refines E (xbind (check_read E stage op s) (\<lambda>_. xret s))
    (if byte_legal_op stage READ op (shadow_abs E s) then Some (shadow_abs E s) else None)"
proof -
  have "xopt (check_read E stage op s) = None \<Longrightarrow> \<not> byte_legal_op stage READ op (shadow_abs E s)"
    if "backtrace_files_ok E"
    using wf op that
    by (auto simp: check_read_def is_detection_disabled_def lookup_checked_addr_def refine_simps
        read_is_correct_val inconsistent_read_total bind_eq_None_conv split: if_splits)
  moreover have "byte_legal_op stage READ op (shadow_abs E s)" if "xopt (check_read E stage op s) = Some u" for u
    using wf that
    by (auto simp: check_read_def is_detection_disabled_def lookup_checked_addr_def refine_simps
        bind_eq_Some_conv split: if_splits)
  ultimately show ?thesis
    using wf by (intro refines_observe) auto
qed

lemma update_shadow_refines:
  assumes "shadow_wf E s"
  shows "refines E (update_shadow E stage op s) (byte_step stage op (shadow_abs E s))"
proof (cases "func_ret op")
  case True
  with map_refines [OF assms, of stage op] assms show ?thesis
    by (cases "operation op = PMEM_MAP_FILE")
      (simp_all add: update_shadow_def byte_step_def byte_legal_def byte_effect_def split del: if_split cong del: if_weak_cong)
next
  case False
  show ?thesis
  proof (cases "operation op")
    case READ
    with False read_refines [OF assms READ, of stage] show ?thesis
      by (simp add: update_shadow_def byte_step_def byte_legal_def byte_effect_def split del: if_split cong del: if_weak_cong)
  next
    case WRITE
    with False write_refines [OF assms WRITE, of stage] show ?thesis
      by (simp add: update_shadow_def byte_step_def byte_legal_def byte_effect_def split del: if_split cong del: if_weak_cong)
  next
    case CLWB
    with False assms writeback_refines [OF assms, of op "src_addr op" "size_of op"] show ?thesis
      by (simp add: update_shadow_def byte_step_def byte_legal_def byte_effect_def)
  next
    case ADD_COMMIT_VAR
    with False assms show ?thesis
      by (auto simp: update_shadow_def byte_step_def byte_legal_def byte_effect_def
          add_commit_var_addr_def refine_simps wf_update)
  qed (use False assms in \<open>simp_all add: update_shadow_def byte_step_def byte_legal_def byte_effect_def
      writeback_refines sfence_refines map_refines remove_refines tx_add_refines tx_end_refines
      level_refines [unfolded Let_def]
      split del: if_split cong del: if_weak_cong\<close>)
qed

text \<open>Whole traces.\<close>

lemma update_pm_status_xopt:
  "xopt (update_pm_status E stage op (d, s)) =
     map_option (Pair (if func_ret op then d else flag_op stage (operation op) d))
       (xopt (update_shadow E stage op s))"
  by (cases "xopt (update_shadow E stage op s)") (simp_all add: update_pm_status_def)

lemma run_trace_refines:
  assumes "shadow_wf E s"
  shows "refines E (xbind (run_trace E stage ops (d, s)) (\<lambda>ds. xret (snd ds)))
    (byte_run stage ops (shadow_abs E s))"
  using assms
proof (induction ops arbitrary: d s)
  case (Cons op ops)
  have "refines E (xbind (update_shadow E stage op s) (\<lambda>s1.
      xbind (run_trace E stage ops (if func_ret op then d else flag_op stage (operation op) d, s1))
        (\<lambda>ds. xret (snd ds)))) (byte_run stage (op # ops) (shadow_abs E s))"
  proof (rule refines_seq [OF update_shadow_refines [OF Cons.prems]], goal_cases)
    case (1 s1)
    with Cons.IH [OF 1(1)] show ?case by simp
  qed simp
  then show ?case
    by (simp add: run_trace_def update_pm_status_def xbind_assoc split del: if_split cong del: if_weak_cong)
qed (simp add: run_trace_def)

text \<open>The constructors.\<close>

lemma new_wf: "shadow_wf E (ShadowPM_new E)"
  by (simp add: shadow_wf_def ShadowPM_new_def inv_intros list_all_length)

lemma new_abs: "shadow_abs E (ShadowPM_new E) = byte_init"
proof -
  have "im_at (st_ops E) (im_empty (st_ops E)) = Map.empty"
    "im_at (ts_ops E) (im_empty (ts_ops E)) = Map.empty"
    "im_at (ip_ops E) (im_empty (ip_ops E)) = Map.empty"
    by (auto simp: at_simps)
  then show ?thesis
    by (simp add: shadow_abs_def ShadowPM_new_def byte_init_def at_simps)
qed

lemma copy_wf: "shadow_wf E s \<Longrightarrow> length garbage = MAX_THREADS \<Longrightarrow> shadow_wf E (ShadowPM_copy garbage s)"
  by (simp add: shadow_wf_def ShadowPM_copy_def)

lemma copy_abs: "shadow_abs E (ShadowPM_copy garbage s) = byte_crash garbage (shadow_abs E s)"
  by (simp add: shadow_abs_def ShadowPM_copy_def byte_crash_def)

end

section \<open>A concrete environment\<close>

text \<open>The detector on the interval lists of \<open>XF_ICL\<close>, with given files.\<close>

type_synonym list_shadow =
  "((ival \<times> PMStatus) list, (ival \<times> timestamp_t) list, (ival \<times> addr_t) list, ival list) ShadowPM"

definition list_env ::
  "(string \<Rightarrow> string list) \<Rightarrow>
   ((ival \<times> PMStatus) list, (ival \<times> timestamp_t) list, (ival \<times> addr_t) list, ival list) xenv" where
  "list_env fs = \<lparr>st_ops = list_map_ops, ts_ops = list_map_ops, ip_ops = list_map_ops,
                  is_ops = list_set_ops, files = fs\<rparr>"

interpretation list_env: shadow_env "list_env fs" for fs
  by (simp add: shadow_env_def list_env_def list_map.icl_map_axioms list_set.icl_set_axioms)

end
