(* ===== verification/XF_Verdict.thy ===== *)
theory XF_Verdict
  imports XF_Refine
begin

text \<open>
  The bug reports of the detector. A trace entry makes the detector report exactly the bugs the
  byte-wise specification lists, whatever the interval containers do inside.
\<close>

section \<open>Calls that report no bug\<close>

lemma emits_one: "emits p [] m \<Longrightarrow> p e \<Longrightarrow> emits p [e] (xemit [e] m)"
  using emits_xemit [of p "[]" m "[e]"] by simp

lemma backtrace_lines_silent: "filter is_bug (backtrace_lines n lines) = []"
proof (induction lines arbitrary: n)
  case Nil
  show ?case by (subst backtrace_lines.simps) (simp only: list.case, simp)
next
  case (Cons line rest)
  then show ?case by (subst backtrace_lines.simps) (simp only: list.case, simp)
qed

lemma find_backtrace_silent: "emits is_bug [] (find_backtrace n ip lines)"
proof (induction lines arbitrary: n)
  case (Cons line rest)
  then show ?case
    by (auto intro!: emits_xbind_silent simp: str_substr_def stoull16_def Let_def emits_xemit_silent
        backtrace_lines_silent emits_def [of is_bug "[]" "Inr _"])
qed simp

lemma print_IP_silent [simp]: "emits is_bug [] (print_IP_linenumber_mapping E ip stage)"
  by (simp add: print_IP_linenumber_mapping_def find_backtrace_silent Let_def)

lemma report_first_silent:
  "\<not> is_bug (msg (snd (hd segs))) \<Longrightarrow> emits is_bug [] (report_first E msg segs)"
  by (auto simp: report_first_def emits_xemit_silent intro!: emits_xbind_silent split: list.splits)

lemma writeback_silent [simp]: "emits is_bug [] (writeback_addr E op a n s)"
  unfolding writeback_addr_def
  by (intro emits_xbind_silent emits_xfor_silent)
    (auto simp: writeback_warn_def emits_xemit_silent intro!: emits_xbind_silent)

lemma modify_silent [simp]: "emits is_bug [] (modify_addr E op a n s)"
  by (auto simp: modify_addr_def emits_def xassert_def)

lemma set_consistent_silent [simp]: "emits is_bug [] (set_consistent_addr E op a n s)"
  by (auto simp: set_consistent_addr_def emits_def xassert_def)

lemma write_IP_silent [simp]: "emits is_bug [] (add_write_addr_IP_mapping E op s)"
  by (auto simp: add_write_addr_IP_mapping_def Let_def intro!: emits_xassert)

lemma write_commit_var_silent [simp]: "emits is_bug [] (write_commit_var E stage op s)"
  by (auto simp: write_commit_var_def update_commitVar_timestamp_def emits_xemit_silent)

lemma observers_silent [simp]:
  "emits is_bug [] (is_consistent E op a n s)" "emits is_bug [] (is_writtenback E op a n s)"
  "emits is_bug [] (is_detection_disabled t s)" "emits is_bug [] (is_in_pre_internal_funct t s)"
  "emits is_bug [] (is_in_tx t s)" "emits is_bug [] (is_added_addr E op a n s)"
  "emits is_bug [] (is_non_added_write_addr E op a n s)" "emits is_bug [] (lookup_checked_addr a n s)"
  by (auto simp: is_consistent_def is_writtenback_def is_detection_disabled_def
      is_in_pre_internal_funct_def is_in_tx_def is_added_addr_def is_non_added_write_addr_def
      lookup_checked_addr_def emits_xemit_silent intro!: emits_xassert emits_xbind_silent)

lemma write_is_trusted_silent [simp]: "emits is_bug [] (write_is_trusted stage op s)"
  by (simp add: write_is_trusted_def)

lemma read_is_correct_silent [simp]: "emits is_bug [] (read_is_correct E op s)"
  by (auto simp: read_is_correct_def Let_def intro!: emits_xbind_silent)

lemma levels_silent [simp]:
  "emits is_bug [] (increment_tx_level t stage s)"
  "emits is_bug [] (increment_pre_internal_funct_level t s)"
  "emits is_bug [] (decrement_pre_internal_funct_level t s)"
  "emits is_bug [] (handle_skip_begin t s)" "emits is_bug [] (handle_skip_end t s)"
  by (auto simp: increment_tx_level_def increment_pre_internal_funct_level_def
      decrement_pre_internal_funct_level_def handle_skip_begin_def handle_skip_end_def
      disable_detection_def enable_detection_def intro!: emits_xassert emits_xbind_silent)

lemma commit_interval_silent: "emits is_bug [] (commit_interval E t stage i s)"
  by (auto simp: commit_interval_def Let_def emits_xemit_silent report_first_silent
      intro!: emits_xbind_silent)

lemma tx_end_silent [simp]: "emits is_bug [] (decrement_tx_level E t stage s)"
  by (auto simp: decrement_tx_level_def Let_def commit_interval_silent
      intro!: emits_xassert emits_xbind_silent emits_xfor_silent)

lemma stage_added_silent [simp]: "emits is_bug [] (stage_added E op a n alloc s)"
  by (auto simp: stage_added_def Let_def intro!: emits_xassert emits_xbind_silent)

lemma map_silent [simp]: "emits is_bug [] (handle_map E stage op s)"
  by (auto simp: handle_map_def add_pm_addr_def add_pm_addr_post_def emits_xemit_silent
      intro!: emits_xassert)

lemma remove_silent [simp]: "emits is_bug [] (remove_pm_addr E op a n s)"
  by (auto simp: remove_pm_addr_def emits_xemit_silent intro!: emits_xassert)

lemma sfence_silent [simp]: "emits is_bug [] (handle_sfence E stage s)"
  by (auto simp: handle_sfence_def Let_def increment_global_time_def intro!: emits_xbind_silent)

section \<open>The bugs of one trace entry\<close>

text \<open>The completion flags after a trace.\<close>

fun run_flags :: "int \<Rightarrow> trace_entry list \<Rightarrow> detector \<Rightarrow> detector" where
  "run_flags stage [] d = d"
| "run_flags stage (op # ops) d =
     run_flags stage ops (if func_ret op then d else flag_op stage (operation op) d)"

context shadow_env
begin

lemma report_writers_silent: "emits is_bug [] (xfor (report_write_ip E) segs found)"
  by (rule emits_xfor_silent)
    (auto simp: report_write_ip_def emits_xemit_silent intro!: emits_xbind_silent)

lemma report_writers_val:
  "xopt (xfor (report_write_ip E) segs found) = Some r \<Longrightarrow> r = (found \<or> segs \<noteq> [])"
  by (induction segs arbitrary: found) (auto simp: report_write_ip_def bind_eq_Some_conv)

lemma writers_Nil:
  "shadow_wf E s \<Longrightarrow> MAP_LOOKUP (ip_ops E) (write_addr_IP_mapping s) a n = [] \<longleftrightarrow>
     (\<forall>k \<in> bytes a n. b_writer (shadow_abs E s) k = None)"
  by (simp add: macro_defs ip.segments_inter_Nil refine_simps)

lemma inconsistent_read_debug:
  assumes wf: "shadow_wf E s"
  shows "emits is_bug [ConsistencyBug] (printInconsistentReadDebug E op s)"
    "xopt (printInconsistentReadDebug E op s) = Some r \<Longrightarrow>
       r \<longleftrightarrow> \<not> (\<forall>k \<in> bytes (src_addr op) (size_of op). b_writer (shadow_abs E s) k = None)"
proof -
  have 1: "emits is_bug [ConsistencyBug]
      (print_look_up_write_addr_IP_mapping E op (src_addr op) (size_of op) s)"
    using emits_xemit [OF report_writers_silent, where es = "[ConsistencyBug]"]
    by (auto simp: print_look_up_write_addr_IP_mapping_def intro!: emits_xassert)
  show "emits is_bug [ConsistencyBug] (printInconsistentReadDebug E op s)"
    unfolding printInconsistentReadDebug_def
    by (rule emits_xbind_first [OF 1]) (auto simp: emits_xemit_silent intro!: emits_xbind_silent)
  show "r \<longleftrightarrow> \<not> (\<forall>k \<in> bytes (src_addr op) (size_of op). b_writer (shadow_abs E s) k = None)"
    if "xopt (printInconsistentReadDebug E op s) = Some r"
    using that wf
    by (auto simp: printInconsistentReadDebug_def print_look_up_write_addr_IP_mapping_def
        bind_eq_Some_conv writers_Nil dest!: report_writers_val split: if_splits)
qed

lemma read_report:
  assumes wf: "shadow_wf E s" and nz: "size_of op \<noteq> 0" "src_addr op \<noteq> 0"
    and bad: "\<not> byte_read_ok op (shadow_abs E s)"
  shows "emits is_bug (byte_read_bugs op (shadow_abs E s)) (report_inconsistent_read E op s)"
proof -
  let ?A = "bytes (src_addr op) (size_of op)" and ?b = "shadow_abs E s"
  let ?why = "if \<forall>k \<in> ?A. b_writer ?b k = None then []
    else if all_status {WRITTEN_BACK} ?A ?b then [NotPersistedBeforeCommitVar] else [NotPersistedBeforeFailure]"
  have "emits is_bug ([ConsistencyBug] @ ?why) (report_inconsistent_read E op s)"
    unfolding report_inconsistent_read_def Let_def
  proof (rule emits_xbind [OF inconsistent_read_debug(1) [OF wf]])
    fix r assume "xopt (printInconsistentReadDebug E op s) = Some r"
    then have r: "r \<longleftrightarrow> \<not> (\<forall>k \<in> ?A. b_writer ?b k = None)"
      by (rule inconsistent_read_debug(2) [OF wf])
    have c: "\<not> committed ?A ?b" if "all_status {WRITTEN_BACK} ?A ?b"
      using bad that by (simp add: byte_read_ok_def Let_def)
    show "emits is_bug ?why (if r then xbind (is_writtenback E op (src_addr op) (size_of op) s)
        (\<lambda>writtenback. if \<not> writtenback then xemit [NotPersistedBeforeFailure] (xret ())
         else if \<not> is_recent_commit_update E op (src_addr op) (size_of op) s
         then xemit [NotPersistedBeforeCommitVar] (xret ()) else xemit [OtherBug] (xret ())) else xret ())"
      unfolding r using wf nz c
      by (auto simp: is_writtenback_val recent_commit_val intro!: emits_xbind_silent)
  qed
  then show ?thesis using bad by (simp add: byte_read_bugs_def Let_def)
qed

lemma read_bugs:
  assumes wf: "shadow_wf E s" and op: "operation op = READ"
  shows "emits is_bug (byte_bugs_op stage READ op (shadow_abs E s)) (check_read E stage op s)"
proof (cases "stage = POST_FAILURE \<and> thread_ok op \<and> of_thread (skipDetectionStatus s) op \<noteq> 1")
  case False
  then show ?thesis
    using wf by (auto simp: check_read_def is_detection_disabled_def refine_simps arr_get_def)
next
  case True
  let ?rest = "xbind (read_is_correct E op s)
    (\<lambda>isCorrect. if \<not> isCorrect then report_inconsistent_read E op s else xret ())"
  have rest: "emits is_bug (byte_read_bugs op (shadow_abs E s)) ?rest"
    if "size_of op \<noteq> 0" "src_addr op \<noteq> 0"
    using that True wf read_report [OF wf that]
    by (auto simp: read_is_correct_val byte_read_bugs_def intro!: emits_xbind_silent)
  show ?thesis
    using True wf rest
    by (auto simp: check_read_def is_detection_disabled_def lookup_checked_addr_def checked_key_def
        refine_simps xassert_def)
qed

lemma write_commit_var_keeps:
  assumes "xopt (write_commit_var E stage op s) = Some s1"
  shows "tx_level s1 = tx_level s" "tx_added_addr s1 = tx_added_addr s"
    "skipDetectionStatus s1 = skipDetectionStatus s" "pre_InternalFunctLevel s1 = pre_InternalFunctLevel s"
    "tx_non_added_write_addr s1 = tx_non_added_write_addr s"
  using assms
  by (auto simp: write_commit_var_def update_commitVar_timestamp_def add_write_addr_IP_mapping_def
      Let_def split: if_splits)

lemma write_in_tx_bugs:
  assumes wf: "shadow_wf E s" and lev: "tx_level s1 = tx_level s" "tx_added_addr s1 = tx_added_addr s"
    "tx_non_added_write_addr s1 = tx_non_added_write_addr s"
  shows "emits is_bug
    (if of_thread (tx_level s) op > 0 \<and> \<not> bytes (dst_addr op) (size_of op) \<subseteq> of_thread (b_added (shadow_abs E s)) op
     then [ModifyBeforeTxAdd (instr_ptr op) (dst_addr op)] else []) (write_in_tx E op s1)"
proof (cases "thread_ok op")
  case False
  with wf lev show ?thesis by (simp add: write_in_tx_def is_in_tx_def wf_idx arr_get_def)
next
  case t: True
  have "emits is_bug [ModifyBeforeTxAdd (instr_ptr op) (dst_addr op)]
      (xemit [ModifyBeforeTxAdd (instr_ptr op) (dst_addr op)]
        (xbind (print_IP_linenumber_mapping E (instr_ptr op) PRE_FAILURE) (\<lambda>_. xret s2)))" for s2
    by (auto intro!: emits_one emits_xbind_silent)
  with t wf lev show ?thesis
    by (auto simp: write_in_tx_def is_in_tx_def is_added_addr_def add_non_tx_add_addr_def refine_simps of_thread_map)
qed

lemma write_bugs:
  assumes wf: "shadow_wf E s"
  shows "emits is_bug (byte_bugs_op stage WRITE op (shadow_abs E s)) (handle_write E stage op s)"
  unfolding handle_write_def
proof (rule emits_xbind_silent)
  fix s1 assume s1: "xopt (write_commit_var E stage op s) = Some s1"
  note keeps = write_commit_var_keeps [OF s1]
  have t: "v = byte_trusted stage op (shadow_abs E s)" if "xopt (write_is_trusted stage op s1) = Some v" for v
    using that wf
    by (auto simp: write_is_trusted_def byte_trusted_def is_detection_disabled_def refine_simps keeps split: if_splits)
  have i: "v = (of_thread (b_internal (shadow_abs E s)) op > 0)"
    if "xopt (is_in_pre_internal_funct (tid op) s1) = Some v" for v
    using that by (auto simp: is_in_pre_internal_funct_def refine_simps keeps split: if_splits)
  show "emits is_bug (byte_bugs_op stage WRITE op (shadow_abs E s)) (write_data E stage op s1)"
    unfolding write_data_def Let_def
    using write_in_tx_bugs [OF wf keeps(1,2,5), of op]
    by (auto intro!: emits_xbind_silent [OF write_is_trusted_silent] emits_xbind_silent [OF observers_silent(4)]
        emits_xbind_first dest!: t i simp: abs_select split: if_splits)
qed simp

lemma tx_add_bugs:
  assumes wf: "shadow_wf E s"
  shows "emits is_bug (byte_tx_add_bugs stage op (shadow_abs E s))
    (add_tx_add_addr E op (dst_addr op) (size_of op) stage alloc s)"
proof (cases "thread_ok op")
  case False
  with wf show ?thesis
    by (simp add: add_tx_add_addr_def is_non_added_write_addr_def Let_def wf_idx arr_get_def)
next
  case t: True
  have first: "emits is_bug (if w then [TxAddAfterModification (instr_ptr op) a] else [])
      (if w then xemit [TxAddAfterModification (instr_ptr op) a]
         (print_IP_linenumber_mapping E (instr_ptr op) PRE_FAILURE) else xret False)" for w a
    by (auto intro!: emits_one)
  have second: "emits is_bug (if w then [PerfAlreadyAdded (instr_ptr op) a n] else [])
      (if w then xemit [PerfAlreadyAdded (instr_ptr op) a n]
         (xbind (print_IP_linenumber_mapping E (instr_ptr op) PRE_FAILURE) (\<lambda>_.
          xbind (arr_get (tx_added_addr_IP_mapping s) (tid op)) (\<lambda>m.
          xbind (report_first E AddedByTxAdd (MAP_LOOKUP (ip_ops E) m a n)) (\<lambda>_.
          xbind (arr_get (tx_alloc_addr_IP_mapping s) (tid op)) (\<lambda>m'.
          report_first E AddedByTxAlloc (MAP_LOOKUP (ip_ops E) m' a n))))))
       else xret ())" for w a n
    by (auto intro!: emits_one emits_xbind_silent report_first_silent)
  from t wf have obs: "is_non_added_write_addr E op a n s = xret (bytes a n \<subseteq> of_thread (b_unadded (shadow_abs E s)) op)"
    "is_added_addr E op a n s = xret (bytes a n \<subseteq> of_thread (b_added (shadow_abs E s)) op)" for a n
    by (simp_all add: is_non_added_write_addr_def is_added_addr_def refine_simps of_thread_map)
  show ?thesis
    unfolding add_tx_add_addr_def byte_tx_add_bugs_def Let_def obs xbind_xret
    by (intro emits_xbind [OF first] emits_xbind_first [OF second] stage_added_silent)
qed

lemma update_shadow_bugs:
  assumes "shadow_wf E s"
  shows "emits is_bug (byte_bugs stage op (shadow_abs E s)) (update_shadow E stage op s)"
proof (cases "func_ret op")
  case False
  then show ?thesis
  proof (cases "operation op")
    case READ
    with False read_bugs [OF assms READ, of stage] show ?thesis
      by (simp add: update_shadow_def byte_bugs_def emits_xbind_first del: byte_bugs_op.simps)
  next
    case WRITE
    with False write_bugs [OF assms, of stage op] show ?thesis
      by (simp add: update_shadow_def byte_bugs_def del: byte_bugs_op.simps)
  qed (use False assms in \<open>simp_all add: update_shadow_def byte_bugs_def tx_add_bugs emits_xemit_silent\<close>)
qed (simp add: update_shadow_def byte_bugs_def)

text \<open>The detector on one entry: dies exactly on an illegal one, else does and reports its effect.\<close>

lemma update_pm_status_step:
  assumes wf: "shadow_wf E s" and bt: "backtrace_files_ok E" and legal: "byte_legal stage op (shadow_abs E s)"
  shows "\<exists>s' es. update_pm_status E stage op (d, s) =
      Inr ((if func_ret op then d else flag_op stage (operation op) d, s'), es) \<and>
      shadow_wf E s' \<and> shadow_abs E s' = byte_effect stage op (shadow_abs E s) \<and>
      filter is_bug es = byte_bugs stage op (shadow_abs E s)"
proof -
  have "xopt (update_shadow E stage op s) \<noteq> None"
    using update_shadow_refines [OF wf, of stage op] bt legal by (auto simp: refines_def byte_step_def)
  then obtain s' es where u: "update_shadow E stage op s = Inr (s', es)"
    by (auto simp: xopt_eq_Some)
  with update_shadow_refines [OF wf, of stage op] update_shadow_bugs [OF wf, of stage op] legal
  show ?thesis by (auto simp: update_pm_status_def byte_step_def xret_def)
qed

lemma run_trace_step:
  assumes "shadow_wf E s" and "backtrace_files_ok E" and "byte_run stage ops (shadow_abs E s) = Some b"
  shows "\<exists>s' es. run_trace E stage ops (d, s) = Inr ((run_flags stage ops d, s'), es) \<and>
      shadow_wf E s' \<and> shadow_abs E s' = b \<and> filter is_bug es = byte_run_bugs stage ops (shadow_abs E s)"
  using assms
proof (induction ops arbitrary: d s)
  case Nil
  then show ?case by (simp add: run_trace_def xret_def)
next
  case (Cons op ops)
  from Cons.prems have legal: "byte_legal stage op (shadow_abs E s)"
    and rest: "byte_run stage ops (byte_effect stage op (shadow_abs E s)) = Some b"
    by (auto simp: byte_step_def split: if_splits)
  let ?d = "if func_ret op then d else flag_op stage (operation op) d"
  obtain s1 es1 where 1: "update_pm_status E stage op (d, s) = Inr ((?d, s1), es1)" "shadow_wf E s1"
      "shadow_abs E s1 = byte_effect stage op (shadow_abs E s)"
      "filter is_bug es1 = byte_bugs stage op (shadow_abs E s)"
    using update_pm_status_step [OF Cons.prems(1,2) legal] by blast
  obtain s2 es2 where 2: "run_trace E stage ops (?d, s1) = Inr ((run_flags stage ops ?d, s2), es2)" "shadow_wf E s2"
      "shadow_abs E s2 = b" "filter is_bug es2 = byte_run_bugs stage ops (shadow_abs E s1)"
    using Cons.IH [OF 1(2) Cons.prems(2), of ?d] rest 1(3) by auto
  have "run_trace E stage (op # ops) (d, s) = Inr ((run_flags stage (op # ops) d, s2), es1 @ es2)"
    using 1(1) 2(1) by (simp add: run_trace_def)
  with 1 2 show ?case by auto
qed

lemma failure_point_step:
  assumes wf: "shadow_wf E s" and bt: "backtrace_files_ok E" and g: "length garbage = MAX_THREADS"
    and fp: "byte_failure_point garbage pre post (shadow_abs E s) \<noteq> None"
  shows "\<exists>r es. failure_point E garbage pre post (d, s) = Inr (r, es) \<and>
      filter is_bug es = byte_failure_bugs garbage pre post (shadow_abs E s)"
proof -
  from fp obtain b1 b2 where b: "byte_run PRE_FAILURE pre (shadow_abs E s) = Some b1"
      "byte_run POST_FAILURE post (byte_crash garbage b1) = Some b2"
    by (auto simp: byte_failure_point_def bind_eq_None_conv)
  obtain s1 es1 where 1: "run_trace E PRE_FAILURE pre (d, s) = Inr ((run_flags PRE_FAILURE pre d, s1), es1)"
      "shadow_wf E s1" "shadow_abs E s1 = b1" "filter is_bug es1 = byte_run_bugs PRE_FAILURE pre (shadow_abs E s)"
    using run_trace_step [OF wf bt b(1)] by blast
  have "byte_run POST_FAILURE post (shadow_abs E (ShadowPM_copy garbage s1)) = Some b2"
    using b(2) 1(3) by (simp add: copy_abs)
  from run_trace_step [OF copy_wf [OF 1(2) g] bt this] obtain s2 es2 where
    "run_trace E POST_FAILURE post (run_flags PRE_FAILURE pre d, ShadowPM_copy garbage s1) =
       Inr ((run_flags POST_FAILURE post (run_flags PRE_FAILURE pre d), s2), es2)"
    "filter is_bug es2 = byte_run_bugs POST_FAILURE post (byte_crash garbage b1)"
    using 1(3) by (fastforce simp: copy_abs)
  with 1 b show ?thesis by (simp add: failure_point_def byte_failure_bugs_def)
qed

end

end
