(* ===== verification/XF_Detection.thy ===== *)
theory XF_Detection
  imports XF_Verdict
begin

text \<open>
  What the detector detects: the refinement of the whole trace handler, and what it reports for
  reads after a failure, stated for every implementation of the interval containers.
\<close>

section \<open>Entries for examples\<close>

definition entry :: "pm_op_t \<Rightarrow> int \<Rightarrow> addr_t \<Rightarrow> addr_t \<Rightarrow> sz_t \<Rightarrow> addr_t \<Rightarrow> trace_entry" where
  "entry opn t src dst n ip =
     \<lparr>operation = opn, func_ret = False, tid = t, src_addr = src, dst_addr = dst, size_of = n,
      instr_ptr = ip, non_temporal = 0\<rparr>"

abbreviation example_env where
  "example_env \<equiv> list_env (\<lambda>_. [])"

abbreviation no_garbage :: "int list" where
  "no_garbage \<equiv> replicate MAX_THREADS 0"

lemma example_env: "shadow_env example_env"
  by (rule list_env.shadow_env_axioms)

lemma example_files: "backtrace_files_ok example_env"
  by (simp add: backtrace_files_ok_def list_env_def)

lemma example_new: "shadow_wf example_env (ShadowPM_new example_env)"
  by (rule list_env.new_wf)

lemma example_abs: "shadow_abs example_env (ShadowPM_new example_env) = byte_init"
  by (rule list_env.new_abs)

lemmas example_facts = example_env example_files example_new

lemma entry_fields [simp]:
  "operation (entry opn t src dst n ip) = opn" "func_ret (entry opn t src dst n ip) = False"
  "tid (entry opn t src dst n ip) = t" "src_addr (entry opn t src dst n ip) = src"
  "dst_addr (entry opn t src dst n ip) = dst" "size_of (entry opn t src dst n ip) = n"
  "instr_ptr (entry opn t src dst n ip) = ip" "non_temporal (entry opn t src dst n ip) = 0"
  by (simp_all add: entry_def)

lemma thread_ok_entry [simp]: "thread_ok (entry opn t src dst n ip) \<longleftrightarrow> 0 \<le> t \<and> t < 32"
  by (auto simp: thread_ok_def MAX_THREADS_def)

section \<open>The trace handler implements the specification\<close>



text \<open>
  C5. The trace handler fails exactly on the illegal entries, when the backtrace files hold only
  addresses that can be parsed.
\<close>

theorem update_pm_status_fails_iff:
  assumes "shadow_env E" and "shadow_wf E s" and "backtrace_files_ok E"
  shows "(\<exists>f. update_pm_status E stage op (d, s) = Inl f) \<longleftrightarrow> \<not> byte_legal stage op (shadow_abs E s)"
  using shadow_env.update_shadow_refines [OF assms(1,2), of stage op] assms(3)
    shadow_env.update_pm_status_xopt [OF assms(1), of stage op d s]
  by (cases "xopt (update_shadow E stage op s)")
    (auto simp: refines_def byte_step_def simp flip: xopt_eq_None split: if_splits)

theorem update_pm_status_fails_iff_witness:
  "\<exists>f. update_pm_status example_env PRE_FAILURE (entry PM_TRACE_TX_END 3 0 0 0 0)
     (detector_init, ShadowPM_new example_env) = Inl f"
proof -
  have "\<not> byte_legal PRE_FAILURE (entry PM_TRACE_TX_END 3 0 0 0 0)
      (shadow_abs example_env (ShadowPM_new example_env))"
    by (simp add: byte_legal_def example_abs byte_init_def MAX_THREADS_def)
  then show ?thesis
    using update_pm_status_fails_iff [OF example_env example_new example_files] by blast
qed



section \<open>Reads after a failure\<close>

lemmas byte_defs = byte_step_def byte_legal_def byte_effect_def byte_bugs_def byte_write_def
  byte_data_def byte_commit_def byte_trusted_def byte_fence_def byte_map_def byte_crash_def

text \<open>Entries that leave the status of address \<open>k\<close> as it is, as long as it is not pending.\<close>

fun touches :: "trace_entry \<Rightarrow> addr_t \<Rightarrow> bool" where
  "touches op k \<longleftrightarrow>
     operation op \<in> {WRITE, PMEM_MAP_FILE, PM_TRACE_PM_ADDR_ADD} \<and> k \<in> bytes (dst_addr op) (size_of op) \<or>
     operation op \<in> {CLWB, PMEM_UNMAP, PM_TRACE_PM_ADDR_REMOVE} \<and> k \<in> bytes (src_addr op) (size_of op) \<or>
     operation op = PM_TRACE_TX_END"

lemma status_untouched:
  assumes "\<not> touches op k" and "b_status b k \<noteq> Some WRITEBACK_PENDING"
  shows "b_status (byte_effect stage op b) k = b_status b k"
proof (cases "func_ret op")
  case True
  then show ?thesis using assms by (auto simp: byte_effect_def byte_map_def)
next
  case False
  then show ?thesis
    using assms
    by (cases "operation op")
      (simp_all add: byte_defs fenced_def byte_tx_add_def byte_tx_end_def Let_def)
qed

lemma run_untouched:
  assumes "byte_run stage ops b = Some b'" and "\<forall>op \<in> set ops. \<not> touches op k"
    and "b_status b k = Some v" "v \<noteq> WRITEBACK_PENDING"
  shows "b_status b' k = Some v"
  using assms
proof (induction ops arbitrary: b)
  case (Cons op ops)
  then have "byte_run stage ops (byte_effect stage op b) = Some b'"
    by (auto simp: byte_step_def split: if_splits)
  with Cons status_untouched [of op k b stage] show ?case by simp
qed simp

lemma writer_stays:
  assumes "b_writer b k \<noteq> None"
  shows "b_writer (byte_effect stage op b) k \<noteq> None"
proof (cases "func_ret op")
  case True
  then show ?thesis using assms by (auto simp: byte_effect_def byte_map_def)
next
  case False
  then show ?thesis
    using assms
    by (cases "operation op")
      (auto simp: byte_defs put_def byte_tx_add_def byte_tx_end_def Let_def)
qed

lemma run_writer_stays:
  "byte_run stage ops b = Some b' \<Longrightarrow> b_writer b k \<noteq> None \<Longrightarrow> b_writer b' k \<noteq> None"
proof (induction ops arbitrary: b)
  case (Cons op ops)
  then have "byte_run stage ops (byte_effect stage op b) = Some b'"
    by (auto simp: byte_step_def split: if_splits)
  with Cons writer_stays [of b k stage op] show ?case by simp
qed simp

text \<open>A read of the recovery that the detector looks at.\<close>

definition checked_read :: "int list \<Rightarrow> trace_entry \<Rightarrow> bool" where
  "checked_read garbage r \<longleftrightarrow>
     operation r = READ \<and> \<not> func_ret r \<and> thread_ok r \<and> of_thread garbage r \<noteq> 1 \<and>
     src_addr r \<noteq> 0 \<and> size_of r \<noteq> 0 \<and> size_of r < 65536"

lemma checked_read_step:
  assumes "checked_read garbage r"
  shows "byte_run POST_FAILURE [r] (byte_crash garbage b) = Some (byte_crash garbage b)"
    "byte_run_bugs POST_FAILURE [r] (byte_crash garbage b) = byte_read_bugs r (byte_crash garbage b)"
  using assms by (simp_all add: checked_read_def byte_defs)

lemma failure_read:
  assumes "shadow_env E" "shadow_wf E s" "backtrace_files_ok E" "length garbage = MAX_THREADS"
    and "checked_read garbage r" and "byte_run PRE_FAILURE pre (shadow_abs E s) = Some b1"
  shows "\<exists>q es. failure_point E garbage pre [r] (d, s) = Inr (q, es) \<and>
      filter is_bug es = byte_run_bugs PRE_FAILURE pre (shadow_abs E s) @ byte_read_bugs r (byte_crash garbage b1)"
proof -
  have "byte_failure_point garbage pre [r] (shadow_abs E s) \<noteq> None"
    using assms(5,6) checked_read_step [of garbage r b1] by (simp add: byte_failure_point_def)
  from shadow_env.failure_point_step [OF assms(1-4) this, of d] show ?thesis
    using assms(5,6) checked_read_step(2) [of garbage r b1] by (simp add: byte_failure_bugs_def)
qed

lemma crash_fields [simp]:
  "b_status (byte_crash garbage b) = b_status b" "b_mtime (byte_crash garbage b) = b_mtime b"
  "b_writer (byte_crash garbage b) = b_writer b" "b_commit_vars (byte_crash garbage b) = b_commit_vars b"
  "b_commit_time (byte_crash garbage b) = b_commit_time b" "b_added (byte_crash garbage b) = b_added b"
  by (simp_all add: byte_crash_def)

lemma lost_write_bugs:
  assumes "shadow_env E" "shadow_wf E s" "backtrace_files_ok E" "length garbage = MAX_THREADS"
    and w: "operation w = WRITE" "\<not> func_ret w" "non_temporal w = 0"
      "of_thread (skipDetectionStatus s) w \<noteq> 1" "of_thread (pre_InternalFunctLevel s) w \<le> 0"
    and mid: "byte_run PRE_FAILURE (w # mid) (shadow_abs E s) = Some b1" "\<forall>op \<in> set mid. \<not> touches op k"
    and r: "checked_read garbage r" "k \<in> bytes (dst_addr w) (size_of w)" "k \<in> bytes (src_addr r) (size_of r)"
    and not_excused: "\<not> bytes (src_addr r) (size_of r) \<subseteq> b_commit_vars b1"
      "\<not> bytes (src_addr r) (size_of r) \<subseteq> of_thread (b_added b1) r"
  shows "\<exists>q es bugs. failure_point E garbage (w # mid) [r] (d, s) = Inr (q, es) \<and>
      filter is_bug es = bugs @ [ConsistencyBug, NotPersistedBeforeFailure]"
proof -
  let ?b = "shadow_abs E s"
  have legal: "byte_legal PRE_FAILURE w ?b" and rest: "byte_run PRE_FAILURE mid (byte_effect PRE_FAILURE w ?b) = Some b1"
    using mid(1) by (auto simp: byte_step_def split: if_splits)
  have eff: "b_status (byte_effect PRE_FAILURE w ?b) k = Some MODIFIED" "b_writer (byte_effect PRE_FAILURE w ?b) k \<noteq> None"
    using w r(2) by (auto simp: byte_defs Let_def stage_defs shadow_abs_def)
  have st: "b_status b1 k = Some MODIFIED" and wr: "b_writer b1 k \<noteq> None"
    using run_untouched [OF rest mid(2) eff(1)] run_writer_stays [OF rest eff(2)] by simp_all
  have bad: "\<not> byte_read_ok r (byte_crash garbage b1)" "\<not> all_status {WRITTEN_BACK} (bytes (src_addr r) (size_of r)) (byte_crash garbage b1)"
    using st r(3) not_excused by (auto simp: byte_read_ok_def all_status_def Let_def)
  then have "byte_read_bugs r (byte_crash garbage b1) = [ConsistencyBug, NotPersistedBeforeFailure]"
    using wr r(3) by (auto simp: byte_read_bugs_def Let_def)
  with failure_read [OF assms(1-4) r(1) mid(1), of d] show ?thesis by auto
qed

text \<open>
  C14. A lost write is reported: the program writes a location before the failure, nothing flushes,
  overwrites, maps or unmaps it and no transaction ends before the failure, and the recovery reads
  it. Unless the location is a commit variable or was added to a transaction of the reading thread,
  the last bug reported is that the data was not persisted before the failure.
\<close>

theorem lost_write_reported:
  assumes "shadow_env E" "shadow_wf E s" "backtrace_files_ok E" "length garbage = MAX_THREADS"
    and w: "operation w = WRITE" "\<not> func_ret w" "non_temporal w = 0"
      "of_thread (skipDetectionStatus s) w \<noteq> 1" "of_thread (pre_InternalFunctLevel s) w \<le> 0"
    and mid: "byte_run PRE_FAILURE (w # mid) (shadow_abs E s) = Some b1" "\<forall>op \<in> set mid. \<not> touches op k"
    and r: "checked_read garbage r" "k \<in> bytes (dst_addr w) (size_of w)" "k \<in> bytes (src_addr r) (size_of r)"
    and not_excused: "\<not> bytes (src_addr r) (size_of r) \<subseteq> b_commit_vars b1"
      "\<not> bytes (src_addr r) (size_of r) \<subseteq> of_thread (b_added b1) r"
  shows "\<exists>q es bugs. failure_point E garbage (w # mid) [r] (d, s) = Inr (q, es) \<and>
      filter is_bug es = bugs @ [ConsistencyBug, NotPersistedBeforeFailure]"
  using assms by (rule lost_write_bugs)

abbreviation example_write where
  "example_write \<equiv> entry WRITE 0 0 0x10000000040 8 0x400000"

abbreviation example_read where
  "example_read \<equiv> entry READ 0 0x10000000040 0 8 0x400100"

lemma example_checked_read: "checked_read no_garbage example_read"
  by (simp add: checked_read_def MAX_THREADS_def)

theorem lost_write_reported_witness:
  "\<exists>q es bugs. failure_point example_env no_garbage [example_write, entry SFENCE 0 0 0 0 0x400010] [example_read]
       (detector_init, ShadowPM_new example_env) = Inr (q, es) \<and>
     filter is_bug es = bugs @ [ConsistencyBug, NotPersistedBeforeFailure]"
proof -
  let ?k = "0x10000000040 :: addr_t"
  obtain b1 where b1: "byte_run PRE_FAILURE [example_write, entry SFENCE 0 0 0 0 0x400010] byte_init = Some b1"
      "b_commit_vars b1 = {}" "of_thread (b_added b1) example_read = {}"
    by (simp add: byte_defs byte_init_def MAX_THREADS_def stage_defs Let_def bytes_empty)
  have k: "?k \<in> bytes 0x10000000040 8" by (simp add: bytes_def)
  show ?thesis
    by (rule lost_write_reported [OF example_facts(1,3,2) _ _ _ _ _ _ b1(1) [folded example_abs] _
          example_checked_read, where k = ?k])
      (use b1 k in \<open>auto simp: ShadowPM_new_def MAX_THREADS_def bytes_def\<close>)
qed

text \<open>A thread outside every library call, transaction and skipped region.\<close>

definition idle :: "byte_state \<Rightarrow> int \<Rightarrow> bool" where
  "idle b t \<longleftrightarrow>
     0 \<le> t \<and> t < 32 \<and> b_skip b ! nat t \<noteq> 1 \<and> b_internal b ! nat t \<le> 0 \<and> b_tx_level b ! nat t = 0 \<and>
     b_added b ! nat t = {} \<and> b_unadded b ! nat t = {}"

text \<open>
  C23. A persisted write is not reported: after a write, a flush that covers it and a fence, a
  recovery that reads the written bytes reports no bug, as long as no commit variable was written.
\<close>

theorem persisted_write_not_reported:
  assumes "shadow_env E" "shadow_wf E s" "backtrace_files_ok E" "length garbage = MAX_THREADS"
    and "idle (shadow_abs E s) t" "a \<noteq> 0" "n \<noteq> 0" "bytes a n \<subseteq> bytes a' n'" "global_timestamp s \<noteq> 2147483647"
    and "commit_timestamp s < 0" "\<not> bytes a n \<subseteq> is_elems (is_ops E) (commit_var_set_addr s)"
    and "checked_read garbage r" "bytes (src_addr r) (size_of r) \<subseteq> bytes a n"
  shows "\<exists>q es. failure_point E garbage
        [entry WRITE t 0 a n ip1, entry CLWB t a' 0 n' ip2, entry SFENCE t 0 0 0 ip3] [r] (d, s) = Inr (q, es) \<and>
      filter is_bug es = []"
proof -
  let ?pre = "[entry WRITE t 0 a n ip1, entry CLWB t a' 0 n' ip2, entry SFENCE t 0 0 0 ip3]"
  let ?b = "shadow_abs E s"
  have c: "b_commit_vars ?b = is_elems (is_ops E) (commit_var_set_addr s)" "b_time ?b = global_timestamp s"
    "b_commit_time ?b = commit_timestamp s"
    by (simp_all add: shadow_abs_def)
  obtain b1 where b1: "byte_run PRE_FAILURE ?pre ?b = Some b1" "byte_run_bugs PRE_FAILURE ?pre ?b = []"
      "b_status b1 = fenced (put (put (b_status ?b) (bytes a n) MODIFIED) (bytes a' n') WRITEBACK_PENDING)"
      "b_commit_time b1 = commit_timestamp s"
    using assms c by (simp add: idle_def byte_defs Let_def stage_defs)
  have "byte_read_ok r (byte_crash garbage b1)"
    using assms b1(3,4) by (auto simp: byte_read_ok_def all_status_def committed_def Let_def fenced_def put_def)
  then have "byte_read_bugs r (byte_crash garbage b1) = []" by (simp add: byte_read_bugs_def Let_def)
  with failure_read [OF assms(1-4) assms(12) b1(1), of d] b1(2) show ?thesis by simp
qed

lemma example_idle: "idle (shadow_abs example_env (ShadowPM_new example_env)) 0"
  by (simp add: example_abs idle_def byte_init_def MAX_THREADS_def)

lemma new_commit_vars: "shadow_env E \<Longrightarrow> is_elems (is_ops E) (commit_var_set_addr (ShadowPM_new E)) = {}"
  using shadow_env.new_abs [of E] by (simp add: shadow_abs_def byte_init_def)

lemma new_fields [simp]:
  "global_timestamp (ShadowPM_new E) = 0" "commit_timestamp (ShadowPM_new E) = -1"
  by (simp_all add: ShadowPM_new_def)

theorem persisted_write_not_reported_witness:
  "\<exists>q es. failure_point example_env no_garbage
       [example_write, entry CLWB 0 0x10000000040 0 64 1, entry SFENCE 0 0 0 0 2] [example_read]
       (detector_init, ShadowPM_new example_env) = Inr (q, es) \<and> filter is_bug es = []"
proof -
  have "bytes 0x10000000040 8 \<subseteq> bytes 0x10000000040 64"
    by (auto simp: bytes_def)
  then show ?thesis
    by (intro persisted_write_not_reported [OF example_facts(1,3,2) _ example_idle _ _ _ _ _ _ example_checked_read])
      (simp_all add: new_commit_vars [OF example_env] bytes_empty)
qed

end
