(* ===== verification/XF_Recovery.thy ===== *)
theory XF_Recovery
  imports XF_Detection
begin

text \<open>
  Programs that protect their data: with a commit variable, or with transactions. What the
  detector reports about a recovery that reads such data, and what holds during every recovery.
\<close>

section \<open>Commit variables\<close>

lemma read_ok_silent: "byte_read_ok r b \<Longrightarrow> byte_read_bugs r b = []"
  by (simp add: byte_read_bugs_def Let_def)

text \<open>
  Data of \<open>n\<close> bytes at \<open>a\<close>, a commit variable of \<open>m\<close> bytes at \<open>c\<close>, a thread
  \<open>t\<close> that writes them, and a read \<open>r\<close> of the data by the recovery.
\<close>

definition commit_scenario ::
  "('sm, 'tm, 'im, 'is) xenv \<Rightarrow> ('sm, 'tm, 'im, 'is) ShadowPM \<Rightarrow> int list \<Rightarrow> int \<Rightarrow>
   addr_t \<Rightarrow> sz_t \<Rightarrow> addr_t \<Rightarrow> sz_t \<Rightarrow> trace_entry \<Rightarrow> bool" where
  "commit_scenario E s garbage t a n c m r \<longleftrightarrow>
     idle (shadow_abs E s) t \<and> a \<noteq> 0 \<and> n \<noteq> 0 \<and> c \<noteq> 0 \<and> m \<noteq> 0 \<and>
     0 \<le> global_timestamp s \<and> global_timestamp s \<noteq> 2147483647 \<and>
     bytes c m \<subseteq> is_elems (is_ops E) (commit_var_set_addr s) \<and> bytes a n \<inter> bytes c m = {} \<and>
     \<not> bytes (src_addr r) (size_of r) \<subseteq> is_elems (is_ops E) (commit_var_set_addr s) \<and>
     checked_read garbage r \<and> bytes (src_addr r) (size_of r) \<subseteq> bytes a n \<and>
     idle (shadow_abs E s) (tid r)"

lemma commit_scenarioD:
  assumes "commit_scenario E s garbage t a n c m r"
  shows "idle (shadow_abs E s) t" "a \<noteq> 0" "n \<noteq> 0" "c \<noteq> 0" "m \<noteq> 0" "0 \<le> b_time (shadow_abs E s)"
    "b_time (shadow_abs E s) \<noteq> 2147483647" "bytes c m \<subseteq> b_commit_vars (shadow_abs E s)"
    "\<not> bytes a n \<subseteq> b_commit_vars (shadow_abs E s)"
    "\<not> bytes (src_addr r) (size_of r) \<subseteq> b_commit_vars (shadow_abs E s)"
    "checked_read garbage r" "idle (shadow_abs E s) (tid r)"
    "\<And>k. k \<in> bytes (src_addr r) (size_of r) \<Longrightarrow> k \<in> bytes a n \<and> k \<notin> bytes c m"
  using assms by (auto simp: commit_scenario_def shadow_abs_def)

text \<open>
  C24. The protected order: the data is written, flushed and fenced before the commit variable is
  written. Then a recovery that reads the data reports no bug.
\<close>

theorem committed_data_not_reported:
  assumes "shadow_env E" "shadow_wf E s" "backtrace_files_ok E" "length garbage = MAX_THREADS"
    and "commit_scenario E s garbage t a n c m r"
  shows "\<exists>q es. failure_point E garbage
        [entry WRITE t 0 a n ip1, entry CLWB t a 0 n ip2, entry SFENCE t 0 0 0 ip3, entry WRITE t 0 c m ip4]
        [r] (d, s) = Inr (q, es) \<and> filter is_bug es = []"
proof -
  let ?pre = "[entry WRITE t 0 a n ip1, entry CLWB t a 0 n ip2, entry SFENCE t 0 0 0 ip3, entry WRITE t 0 c m ip4]"
  let ?b = "shadow_abs E s" and ?A = "bytes a n" and ?C = "bytes c m"
  note sc = commit_scenarioD [OF assms(5)]
  obtain b1 where b1: "byte_run PRE_FAILURE ?pre ?b = Some b1" "byte_run_bugs PRE_FAILURE ?pre ?b = []"
      "b_status b1 = put (fenced (put (b_status ?b) ?A WRITEBACK_PENDING)) ?C MODIFIED"
      "b_commit_time b1 = b_time ?b + 1"
      "b_mtime b1 = put (put (b_mtime ?b) ?A (b_time ?b)) ?C (b_time ?b + 1)"
    using sc by (simp add: idle_def byte_defs Let_def stage_defs)
  have "byte_read_ok r (byte_crash garbage b1)"
    using b1(3-5) sc(13)
    by (auto simp: byte_read_ok_def all_status_def committed_def Let_def fenced_def put_def)
  with failure_read [OF assms(1-4) sc(11) b1(1), of d] b1(2) show ?thesis
    by (simp add: read_ok_silent)
qed

text \<open>A shadow with one commit variable, for the examples.\<close>

abbreviation example_commit_shadow where
  "example_commit_shadow \<equiv>
     add_commit_var_addr example_env (entry ADD_COMMIT_VAR 0 0x10000000100 0 8 0) 0x10000000100 8
       (ShadowPM_new example_env)"

lemma example_commit_wf: "shadow_wf example_env example_commit_shadow"
  using list_env.update_shadow_refines [OF example_new, of PRE_FAILURE "entry ADD_COMMIT_VAR 0 0x10000000100 0 8 0"]
  by (simp add: update_shadow_def)

lemma example_commit_abs:
  "shadow_abs example_env example_commit_shadow = byte_init\<lparr>b_commit_vars := bytes 0x10000000100 8\<rparr>"
  using list_env.update_shadow_refines [OF example_new, of PRE_FAILURE "entry ADD_COMMIT_VAR 0 0x10000000100 0 8 0"]
  by (simp add: update_shadow_def byte_step_def byte_legal_def byte_effect_def example_abs byte_init_def)

lemma example_commit_scenario:
  "commit_scenario example_env example_commit_shadow no_garbage 0 0x10000000040 8 0x10000000100 8 example_read"
proof -
  have vars: "is_elems (is_ops example_env) (commit_var_set_addr example_commit_shadow) = bytes 0x10000000100 8"
    using arg_cong [OF example_commit_abs, of b_commit_vars] by (simp add: shadow_abs_def)
  have "(x :: addr_t) \<notin> bytes 0x10000000100 8" if "x \<in> bytes 0x10000000040 8" for x
    using that order_trans [of "0x10000000100" x "0x10000000047"] by (auto simp: bytes_def)
  then have sep: "bytes 0x10000000040 8 \<inter> bytes 0x10000000100 8 = {}" by blast
  have ne: "bytes 0x10000000040 8 \<noteq> {}" by (simp add: bytes_empty)
  have idle: "idle (shadow_abs example_env example_commit_shadow) 0"
    unfolding example_commit_abs by (simp add: idle_def byte_init_def MAX_THREADS_def)
  show ?thesis
    unfolding commit_scenario_def vars
    using sep ne idle example_checked_read
    by (auto simp: add_commit_var_addr_def ShadowPM_new_def)
qed

theorem committed_data_not_reported_witness:
  "\<exists>q es. failure_point example_env no_garbage
       [entry WRITE 0 0 0x10000000040 8 1, entry CLWB 0 0x10000000040 0 8 2, entry SFENCE 0 0 0 0 3,
        entry WRITE 0 0 0x10000000100 8 4] [example_read] (detector_init, example_commit_shadow) = Inr (q, es) \<and>
     filter is_bug es = []"
  by (rule committed_data_not_reported [OF example_env example_commit_wf example_files _ example_commit_scenario]) simp

text \<open>
  C20. The wrong order: the commit variable is written after the data but before the fence that
  persists the data. A recovery that reads the data reports that it was not persisted before the
  commit variable.
\<close>

theorem uncommitted_data_reported:
  assumes "shadow_env E" "shadow_wf E s" "backtrace_files_ok E" "length garbage = MAX_THREADS"
    and "commit_scenario E s garbage t a n c m r"
  shows "\<exists>q es. failure_point E garbage
        [entry WRITE t 0 a n ip1, entry WRITE t 0 c m ip2, entry CLWB t a 0 n ip3, entry SFENCE t 0 0 0 ip4]
        [r] (d, s) = Inr (q, es) \<and> filter is_bug es = [ConsistencyBug, NotPersistedBeforeCommitVar]"
proof -
  let ?pre = "[entry WRITE t 0 a n ip1, entry WRITE t 0 c m ip2, entry CLWB t a 0 n ip3, entry SFENCE t 0 0 0 ip4]"
  let ?b = "shadow_abs E s" and ?A = "bytes a n" and ?C = "bytes c m" and ?R = "bytes (src_addr r) (size_of r)"
  note sc = commit_scenarioD [OF assms(5)]
  obtain b1 where b1: "byte_run PRE_FAILURE ?pre ?b = Some b1" "byte_run_bugs PRE_FAILURE ?pre ?b = []"
      "b_status b1 = fenced (put (put (put (b_status ?b) ?A MODIFIED) ?C MODIFIED) ?A WRITEBACK_PENDING)"
      "b_commit_time b1 = b_time ?b" "b_mtime b1 = put (put (b_mtime ?b) ?A (b_time ?b)) ?C (b_time ?b)"
      "b_commit_vars b1 = b_commit_vars ?b" "b_added b1 = b_added ?b"
      "b_writer b1 = put (put (b_writer ?b) ?A ip1) ?C ip2"
    using sc by (simp add: idle_def byte_defs Let_def stage_defs)
  obtain k where k: "k \<in> ?R" using sc(10) by blast
  have wb: "all_status {WRITTEN_BACK} ?R (byte_crash garbage b1)"
    using b1(3) sc(13) by (auto simp: all_status_def fenced_def put_def)
  have nc: "\<not> committed ?R (byte_crash garbage b1)"
    using b1(4,5) sc(6,13) k by (auto simp: committed_def put_def)
  have "\<not> all_status {CONSISTENT, CLEAN} ?R (byte_crash garbage b1)"
    using b1(3) sc(13) [OF k] k by (auto simp: all_status_def fenced_def put_def)
  moreover have "of_thread (b_added b1) r = {}"
    using sc(12) b1(7) by (simp add: idle_def)
  ultimately have "\<not> byte_read_ok r (byte_crash garbage b1)"
    using nc sc(10) b1(6) k by (auto simp: byte_read_ok_def Let_def)
  moreover have "b_writer b1 k \<noteq> None" using b1(8) sc(13) [OF k] by (simp add: put_def)
  ultimately have "byte_read_bugs r (byte_crash garbage b1) = [ConsistencyBug, NotPersistedBeforeCommitVar]"
    using wb k by (auto simp: byte_read_bugs_def Let_def)
  with failure_read [OF assms(1-4) sc(11) b1(1), of d] b1(2) show ?thesis by simp
qed

theorem uncommitted_data_reported_witness:
  "\<exists>q es. failure_point example_env no_garbage
       [entry WRITE 0 0 0x10000000040 8 1, entry WRITE 0 0 0x10000000100 8 2, entry CLWB 0 0x10000000040 0 8 3,
        entry SFENCE 0 0 0 0 4] [example_read] (detector_init, example_commit_shadow) = Inr (q, es) \<and>
     filter is_bug es = [ConsistencyBug, NotPersistedBeforeCommitVar]"
  by (rule uncommitted_data_reported [OF example_env example_commit_wf example_files _ example_commit_scenario]) simp

section \<open>Transactions\<close>



text \<open>
  C21. A write inside a transaction to a range that is not completely added to it is reported at
  once, and the read of it by a recovery after a failure inside the transaction is reported too.
\<close>

theorem unprotected_tx_write_reported:
  assumes "shadow_env E" "shadow_wf E s" "backtrace_files_ok E" "length garbage = MAX_THREADS"
    and w: "operation w = WRITE" "\<not> func_ret w" "non_temporal w = 0" "thread_ok w" "dst_addr w \<noteq> 0" "size_of w \<noteq> 0"
      "of_thread (skipDetectionStatus s) w \<noteq> 1" "of_thread (pre_InternalFunctLevel s) w \<le> 0"
      "of_thread (tx_level s) w > 0" "\<not> bytes (dst_addr w) (size_of w) \<subseteq> is_elems (is_ops E) (of_thread (tx_added_addr s) w)"
    and r: "checked_read garbage r" "tid r = tid w" "src_addr r = dst_addr w" "size_of r = size_of w"
      "\<not> bytes (src_addr r) (size_of r) \<subseteq> is_elems (is_ops E) (commit_var_set_addr s)"
  shows "\<exists>q es. failure_point E garbage [w] [r] (d, s) = Inr (q, es) \<and>
      filter is_bug es = [ModifyBeforeTxAdd (instr_ptr w) (dst_addr w), ConsistencyBug, NotPersistedBeforeFailure]"
proof -
  let ?b = "shadow_abs E s" and ?A = "bytes (dst_addr w) (size_of w)"
  have added: "of_thread (b_added ?b) w = is_elems (is_ops E) (of_thread (tx_added_addr s) w)"
    using assms(2) w(4) by (simp add: shadow_abs_def shadow_wf_def thread_ok_def)
  have f: "b_skip ?b = skipDetectionStatus s" "b_internal ?b = pre_InternalFunctLevel s" "b_tx_level ?b = tx_level s"
    "b_commit_vars ?b = is_elems (is_ops E) (commit_var_set_addr s)"
    by (simp_all add: shadow_abs_def)
  obtain b1 where b1: "byte_run PRE_FAILURE [w] ?b = Some b1"
      "byte_run_bugs PRE_FAILURE [w] ?b = [ModifyBeforeTxAdd (instr_ptr w) (dst_addr w)]"
      "b_status b1 = put (b_status ?b) ?A MODIFIED" "b_commit_vars b1 = b_commit_vars ?b" "b_added b1 = b_added ?b"
      "b_writer b1 = put (b_writer ?b) ?A (instr_ptr w)"
    using w r f added by (simp add: byte_defs Let_def stage_defs)
  obtain k where k: "k \<in> ?A" using w(10) by blast
  have bad: "\<not> all_status {WRITTEN_BACK} ?A (byte_crash garbage b1)" "\<not> all_status {CONSISTENT, CLEAN} ?A (byte_crash garbage b1)"
    using b1(3) k by (auto simp: all_status_def)
  then have "\<not> byte_read_ok r (byte_crash garbage b1)"
    using r b1(4,5) f(4) added w(10) by (auto simp: byte_read_ok_def Let_def)
  then have "byte_read_bugs r (byte_crash garbage b1) = [ConsistencyBug, NotPersistedBeforeFailure]"
    using bad b1(6) k r by (auto simp: byte_read_bugs_def Let_def)
  with failure_read [OF assms(1-4) r(1) b1(1), of d] b1(2) show ?thesis by simp
qed

abbreviation example_tx_shadow where
  "example_tx_shadow \<equiv> (ShadowPM_new example_env)\<lparr>tx_level := replicate MAX_THREADS 1\<rparr>"

theorem unprotected_tx_write_reported_witness:
  "\<exists>q es. failure_point example_env no_garbage [example_write] [example_read] (detector_init, example_tx_shadow) = Inr (q, es) \<and>
     filter is_bug es = [ModifyBeforeTxAdd 0x400000 0x10000000040, ConsistencyBug, NotPersistedBeforeFailure]"
proof -
  have wf: "shadow_wf example_env example_tx_shadow"
    by (rule list_env.wf_field) (simp_all add: example_new)
  have "of_thread (tx_added_addr example_tx_shadow) example_write = is_empty_set (is_ops example_env)"
    "is_elems (is_ops example_env) (is_empty_set (is_ops example_env)) = {}"
    "is_elems (is_ops example_env) (commit_var_set_addr example_tx_shadow) = {}"
    by (simp_all add: ShadowPM_new_def MAX_THREADS_def list_env.sets.elems_empty)
  then show ?thesis
    using unprotected_tx_write_reported [OF example_env wf example_files, of no_garbage example_write example_read detector_init]
      example_checked_read
    by (simp add: MAX_THREADS_def ShadowPM_new_def bytes_empty)
qed

end
