(* ===== verification/XF_Invariants.thy ===== *)
theory XF_Invariants
  imports XF_Recovery
begin

text \<open>What every trace keeps: timestamps, nesting levels, the independence of the threads.\<close>

section \<open>Invariants of the specification\<close>

lemma byte_run_invariant:
  assumes "byte_run stage ops b = Some b'" and "P b"
    and "\<And>op b. op \<in> set ops \<Longrightarrow> byte_legal stage op b \<Longrightarrow> P b \<Longrightarrow> P (byte_effect stage op b)"
  shows "P b'"
  using assms
proof (induction ops arbitrary: b)
  case (Cons op ops)
  then have "byte_legal stage op b" "byte_run stage ops (byte_effect stage op b) = Some b'"
    by (auto simp: byte_step_def split: if_splits)
  with Cons show ?case by simp
qed simp

context shadow_env
begin

lemma run_trace_bugs:
  assumes "shadow_wf E s" and "run_trace E stage ops (d, s) = Inr (r, es)"
  shows "filter is_bug es = byte_run_bugs stage ops (shadow_abs E s)"
  using assms
proof (induction ops arbitrary: d s es)
  case Nil
  then show ?case by (simp add: run_trace_def xret_def)
next
  case (Cons op ops)
  from Cons.prems(2) obtain ds es1 es2 where
    1: "update_pm_status E stage op (d, s) = Inr (ds, es1)" and
    2: "run_trace E stage ops ds = Inr (r, es2)" "es = es1 @ es2"
    by (auto simp: run_trace_def xbind_eq_Inr)
  then obtain s1 where s1: "update_shadow E stage op s = Inr (s1, es1)" "snd ds = s1"
    by (auto simp: update_pm_status_def xbind_eq_Inr xret_def)
  from update_shadow_refines [OF Cons.prems(1), of stage op] s1 have wf1: "shadow_wf E s1"
      and abs1: "byte_step stage op (shadow_abs E s) = Some (shadow_abs E s1)"
    by (simp_all add: refines_def)
  from update_shadow_bugs [OF Cons.prems(1), of stage op] s1
  have "filter is_bug es1 = byte_bugs stage op (shadow_abs E s)" by simp
  moreover have "filter is_bug es2 = byte_run_bugs stage ops (shadow_abs E s1)"
    using Cons.IH [OF wf1, of "fst ds" es2] 2(1) s1(2) by (cases ds) simp
  ultimately show ?case
    using abs1 2(2) by (auto simp: byte_step_def split: if_splits)
qed

lemma run_trace_abs:
  assumes "shadow_wf E s" and "run_trace E stage ops (d, s) = Inr ((d', s'), es)"
  shows "byte_run stage ops (shadow_abs E s) = Some (shadow_abs E s')"
  using run_trace_refines [OF assms(1), of stage ops d] assms(2) by (simp add: refines_def)

end

text \<open>A trace for the examples.\<close>

abbreviation example_trace where
  "example_trace \<equiv> [example_write, entry SFENCE 0 0 0 0 0]"

lemma example_run:
  "\<exists>s' es. run_trace example_env PRE_FAILURE example_trace (detector_init, ShadowPM_new example_env) =
     Inr ((detector_init, s'), es)"
proof -
  obtain b where "byte_run PRE_FAILURE example_trace byte_init = Some b"
    by (simp add: byte_defs byte_init_def MAX_THREADS_def stage_defs Let_def bytes_empty)
  from list_env.run_trace_step [OF example_new example_files this [folded example_abs], of detector_init]
  show ?thesis by (auto simp: flag_op_def)
qed

text \<open>
  The report for data that is persisted and committed and still wrong is never given: no
  trace of any stage makes the detector reach it.
\<close>

lemma other_bug_never_reported:
  assumes "shadow_env E" and "shadow_wf E s" and "run_trace E stage ops (d, s) = Inr (r, es)"
  shows "OtherBug \<notin> set es"
proof -
  have "OtherBug \<notin> set (byte_run_bugs stage ops b)" for b
  proof (induction ops arbitrary: b)
    case (Cons op ops)
    have "OtherBug \<notin> set (byte_bugs_op stage (operation op) op b)"
      by (cases "operation op") (auto simp: byte_read_bugs_def byte_tx_add_bugs_def Let_def)
    with Cons show ?case by (simp add: byte_bugs_def)
  qed simp
  then have "OtherBug \<notin> set (filter is_bug es)"
    using shadow_env.run_trace_bugs [OF assms] by simp
  then show ?thesis by simp
qed

lemma other_bug_never_reported_example:
  "\<exists>r es. run_trace example_env PRE_FAILURE example_trace (detector_init, ShadowPM_new example_env) = Inr (r, es) \<and>
     OtherBug \<notin> set es"
proof -
  obtain r es where
    r: "run_trace example_env PRE_FAILURE example_trace (detector_init, ShadowPM_new example_env) = Inr (r, es)"
    using example_run by blast
  with other_bug_never_reported [OF example_env example_new r] show ?thesis by blast
qed

section \<open>Timestamps\<close>

definition times_ok :: "byte_state \<Rightarrow> bool" where
  "times_ok b \<longleftrightarrow>
     0 \<le> b_time b \<and> b_time b \<le> 2147483647 \<and> -1 \<le> b_commit_time b \<and> b_commit_time b \<le> b_time b \<and>
     (\<forall>k t. b_mtime b k = Some t \<longrightarrow> 0 \<le> t \<and> t \<le> b_time b)"

lemma times_ok_effect:
  assumes "times_ok b" and "byte_legal stage op b"
  shows "times_ok (byte_effect stage op b)"
proof (cases "func_ret op")
  case True
  then show ?thesis using assms by (simp add: byte_effect_def byte_map_def times_ok_def)
next
  case False
  then show ?thesis
    using assms
    by (cases "operation op")
      (auto simp: byte_defs byte_tx_add_def byte_tx_end_def Let_def times_ok_def put_def intro: add_increasing2)
qed



section \<open>Nesting levels\<close>

definition level_change :: "pm_op_t \<Rightarrow> pm_op_t \<Rightarrow> int \<Rightarrow> trace_entry \<Rightarrow> int" where
  "level_change up down t op =
     (if \<not> func_ret op \<and> tid op = t then
        (if operation op = up then 1 else if operation op = down then -1 else 0)
      else 0)"

text \<open>How an entry changes each field that belongs to the threads.\<close>

lemma map_fields [simp]:
  "b_tx_level (byte_map stage op b) = b_tx_level b" "b_internal (byte_map stage op b) = b_internal b"
  "b_skip (byte_map stage op b) = b_skip b" "b_added (byte_map stage op b) = b_added b"
  "b_unadded (byte_map stage op b) = b_unadded b" "b_checked (byte_map stage op b) = b_checked b"
  by (simp_all add: byte_map_def)

lemma write_fields [simp]:
  "b_tx_level (byte_write stage op b) = b_tx_level b" "b_internal (byte_write stage op b) = b_internal b"
  "b_skip (byte_write stage op b) = b_skip b" "b_added (byte_write stage op b) = b_added b"
  "b_checked (byte_write stage op b) = b_checked b"
  by (simp_all add: byte_write_def byte_data_def byte_commit_def Let_def)

lemma write_unadded:
  "b_unadded (byte_write stage op b) = b_unadded b \<or>
   stage \<noteq> POST_FAILURE \<and> b_unadded (byte_write stage op b) =
     arr_set (b_unadded b) (tid op) (of_thread (b_unadded b) op \<union> bytes (dst_addr op) (size_of op))"
  by (simp add: byte_write_def byte_data_def byte_commit_def byte_trusted_def Let_def)

lemma tx_fields [simp]:
  "b_tx_level (byte_tx_add alloc op b) = b_tx_level b" "b_internal (byte_tx_add alloc op b) = b_internal b"
  "b_skip (byte_tx_add alloc op b) = b_skip b" "b_unadded (byte_tx_add alloc op b) = b_unadded b"
  "b_checked (byte_tx_add alloc op b) = b_checked b"
  "b_added (byte_tx_add alloc op b) =
     arr_set (b_added b) (tid op) (of_thread (b_added b) op \<union> bytes (dst_addr op) (size_of op))"
  "b_tx_level (byte_tx_end op b) = arr_set (b_tx_level b) (tid op) (of_thread (b_tx_level b) op - 1)"
  "b_internal (byte_tx_end op b) = b_internal b" "b_skip (byte_tx_end op b) = b_skip b"
  "b_checked (byte_tx_end op b) = b_checked b"
  "b_added (byte_tx_end op b) =
     (if of_thread (b_tx_level b) op = 1 then arr_set (b_added b) (tid op) {} else b_added b)"
  "b_unadded (byte_tx_end op b) =
     (if of_thread (b_tx_level b) op = 1 then arr_set (b_unadded b) (tid op) {} else b_unadded b)"
  by (simp_all add: byte_tx_add_def byte_tx_end_def Let_def)

lemma fence_fields [simp]:
  "b_tx_level (byte_fence stage b) = b_tx_level b" "b_internal (byte_fence stage b) = b_internal b"
  "b_skip (byte_fence stage b) = b_skip b" "b_added (byte_fence stage b) = b_added b"
  "b_unadded (byte_fence stage b) = b_unadded b" "b_checked (byte_fence stage b) = b_checked b"
  by (simp_all add: byte_fence_def)

lemma level_effect:
  assumes "byte_legal stage op b" "length (b_tx_level b) = MAX_THREADS" "length (b_internal b) = MAX_THREADS" "0 \<le> t"
  shows "b_tx_level (byte_effect stage op b) ! nat t =
      b_tx_level b ! nat t + level_change PM_TRACE_TX_BEGIN PM_TRACE_TX_END t op"
    "b_internal (byte_effect stage op b) ! nat t =
      b_internal b ! nat t + level_change PMDK_INTERNAL_CALL PMDK_INTERNAL_RET t op"
proof -
  have idx: "idx_ok (b_tx_level b) (tid op)" "idx_ok (b_internal b) (tid op)" if "thread_ok op"
    using that assms by (simp_all add: thread_ok_def idx_ok_def)
  show "b_tx_level (byte_effect stage op b) ! nat t =
      b_tx_level b ! nat t + level_change PM_TRACE_TX_BEGIN PM_TRACE_TX_END t op"
    using assms(1,4) idx(1) unfolding byte_effect_def byte_legal_def level_change_def
    by (cases "operation op") (auto simp: nth_arr_set)
  show "b_internal (byte_effect stage op b) ! nat t =
      b_internal b ! nat t + level_change PMDK_INTERNAL_CALL PMDK_INTERNAL_RET t op"
    using assms(1,4) idx(2) unfolding byte_effect_def byte_legal_def level_change_def
    by (cases "operation op") (auto simp: nth_arr_set)
qed

lemma length_effect:
  "length (b_tx_level (byte_effect stage op b)) = length (b_tx_level b)"
  "length (b_internal (byte_effect stage op b)) = length (b_internal b)"
  "b_checked (byte_effect stage op b) = b_checked b"
  unfolding byte_effect_def by (cases "operation op"; simp)+

text \<open>
  The nesting levels count: after every trace that the detector handles, the transaction
  level of a thread is its level before plus the begins minus the ends of that thread, and the
  library call level likewise.
\<close>

lemma levels_balance:
  assumes "shadow_env E" and "shadow_wf E s" and "run_trace E stage ops (d, s) = Inr ((d', s'), es)" and "0 \<le> t"
  shows "tx_level s' ! nat t =
      tx_level s ! nat t + (\<Sum>op \<leftarrow> ops. level_change PM_TRACE_TX_BEGIN PM_TRACE_TX_END t op) \<and>
    pre_InternalFunctLevel s' ! nat t =
      pre_InternalFunctLevel s ! nat t + (\<Sum>op \<leftarrow> ops. level_change PMDK_INTERNAL_CALL PMDK_INTERNAL_RET t op)"
proof -
  have "b_tx_level b' ! nat t = b_tx_level b ! nat t + (\<Sum>op \<leftarrow> ops. level_change PM_TRACE_TX_BEGIN PM_TRACE_TX_END t op) \<and>
      b_internal b' ! nat t = b_internal b ! nat t + (\<Sum>op \<leftarrow> ops. level_change PMDK_INTERNAL_CALL PMDK_INTERNAL_RET t op)"
    if "byte_run stage ops b = Some b'" "length (b_tx_level b) = MAX_THREADS" "length (b_internal b) = MAX_THREADS" for b b'
    using that
  proof (induction ops arbitrary: b)
    case (Cons op ops)
    then have "byte_legal stage op b" "byte_run stage ops (byte_effect stage op b) = Some b'"
      by (auto simp: byte_step_def split: if_splits)
    with Cons level_effect [of stage op b t] assms(4) show ?case by (simp add: length_effect)
  qed simp
  from this [OF shadow_env.run_trace_abs [OF assms(1-3)]] assms(2) show ?thesis
    by (simp add: shadow_abs_def shadow_wf_def)
qed

lemma levels_balance_example:
  "\<exists>d' s' es. run_trace example_env PRE_FAILURE example_trace (detector_init, ShadowPM_new example_env) =
      Inr ((d', s'), es) \<and> tx_level s' ! nat 0 = 0"
proof -
  obtain d' s' es where
    r: "run_trace example_env PRE_FAILURE example_trace (detector_init, ShadowPM_new example_env) = Inr ((d', s'), es)"
    using example_run by blast
  from levels_balance [OF example_env example_new r, of 0] r show ?thesis
    by (auto simp: level_change_def ShadowPM_new_def MAX_THREADS_def)
qed

section \<open>Threads\<close>

lemma other_threads:
  assumes legal: "byte_legal stage op b" and t: "0 \<le> t" "t \<noteq> tid op"
  shows "b_tx_level (byte_effect stage op b) ! nat t = b_tx_level b ! nat t"
    "b_internal (byte_effect stage op b) ! nat t = b_internal b ! nat t"
    "b_skip (byte_effect stage op b) ! nat t = b_skip b ! nat t"
    "b_added (byte_effect stage op b) ! nat t = b_added b ! nat t"
    "b_unadded (byte_effect stage op b) ! nat t = b_unadded b ! nat t"
proof -
  have keep: "arr_set xs (tid op) v ! nat t = xs ! nat t" if "thread_ok op" for xs :: "'z list" and v
    using that t by (simp add: thread_ok_def arr_set_def nth_list_update_neq nat_eq_iff)
  have legal': "\<not> func_ret op \<Longrightarrow> byte_legal_op stage (operation op) op b"
    using legal by (simp add: byte_legal_def)
  show "b_tx_level (byte_effect stage op b) ! nat t = b_tx_level b ! nat t"
    using legal' keep [of "b_tx_level b"] by (cases "operation op") (auto simp: byte_effect_def)
  show "b_internal (byte_effect stage op b) ! nat t = b_internal b ! nat t"
    using legal' keep [of "b_internal b"] by (cases "operation op") (auto simp: byte_effect_def)
  show "b_skip (byte_effect stage op b) ! nat t = b_skip b ! nat t"
    using legal' keep [of "b_skip b"] by (cases "operation op") (auto simp: byte_effect_def)
  show "b_added (byte_effect stage op b) ! nat t = b_added b ! nat t"
    using legal' keep [of "b_added b"] by (cases "operation op") (auto simp: byte_effect_def)
  show "b_unadded (byte_effect stage op b) ! nat t = b_unadded b ! nat t"
    using legal' keep [of "b_unadded b"] write_unadded [of stage op b]
    by (cases "operation op") (auto simp: byte_effect_def)
qed

text \<open>
  A trace entry of one thread leaves the levels, the skip flag and the transaction sets of every
  other thread as they are.
\<close>

lemma threads_independent:
  assumes "shadow_env E" and "shadow_wf E s" and "update_shadow E stage op s = Inr (s', es)"
    and "0 \<le> t" "t < 32" "t \<noteq> tid op"
  shows "tx_level s' ! nat t = tx_level s ! nat t \<and>
    pre_InternalFunctLevel s' ! nat t = pre_InternalFunctLevel s ! nat t \<and>
    skipDetectionStatus s' ! nat t = skipDetectionStatus s ! nat t \<and>
    is_elems (is_ops E) (tx_added_addr s' ! nat t) = is_elems (is_ops E) (tx_added_addr s ! nat t) \<and>
    is_elems (is_ops E) (tx_non_added_write_addr s' ! nat t) =
      is_elems (is_ops E) (tx_non_added_write_addr s ! nat t)"
proof -
  have st: "byte_step stage op (shadow_abs E s) = Some (shadow_abs E s')" and wf': "shadow_wf E s'"
    using shadow_env.update_shadow_refines [OF assms(1,2), of stage op] assms(3) by (simp_all add: refines_def)
  then have legal: "byte_legal stage op (shadow_abs E s)" and eff: "shadow_abs E s' = byte_effect stage op (shadow_abs E s)"
    by (auto simp: byte_step_def split: if_splits)
  have len: "nat t < length (tx_added_addr s)" "nat t < length (tx_added_addr s')"
      "nat t < length (tx_non_added_write_addr s)" "nat t < length (tx_non_added_write_addr s')"
    using assms(2,4,5) wf' by (simp_all add: shadow_wf_def MAX_THREADS_def)
  from other_threads [OF legal assms(4,6), folded eff] len show ?thesis
    by (simp add: shadow_abs_def)
qed

lemma threads_independent_example:
  "\<exists>s' es. update_shadow example_env PRE_FAILURE (entry PM_TRACE_TX_BEGIN 3 0 0 0 0) (ShadowPM_new example_env) = Inr (s', es) \<and>
     tx_level s' ! nat 5 = 0"
proof -
  obtain s' es where
    r: "update_shadow example_env PRE_FAILURE (entry PM_TRACE_TX_BEGIN 3 0 0 0 0) (ShadowPM_new example_env) = Inr (s', es)"
    by (simp add: update_shadow_def increment_tx_level_def ShadowPM_new_def MAX_THREADS_def arr_get_def
        idx_ok_def int_inc_def xret_def)
  with threads_independent [OF example_env example_new r, of 5] show ?thesis
    by (auto simp: ShadowPM_new_def MAX_THREADS_def)
qed

section \<open>Checked addresses\<close>

text \<open>
  The set of checked addresses never changes: no trace entry inserts into it, so the test that
  bypasses the checks of a read never succeeds on a shadow the constructors made.
\<close>

lemma checked_set_constant:
  assumes "shadow_env E" and "shadow_wf E s" and "run_trace E stage ops (d, s) = Inr ((d', s'), es)"
  shows "checked_addr_set s' = checked_addr_set s"
proof -
  have "b_checked (shadow_abs E s') = b_checked (shadow_abs E s)"
    by (rule byte_run_invariant [OF shadow_env.run_trace_abs [OF assms]]) (simp_all add: length_effect)
  then show ?thesis by (simp add: shadow_abs_def)
qed

lemma checked_set_constant_example:
  "\<exists>d' s' es. run_trace example_env PRE_FAILURE example_trace (detector_init, ShadowPM_new example_env) =
      Inr ((d', s'), es) \<and> checked_addr_set s' = {}"
proof -
  obtain d' s' es where
    r: "run_trace example_env PRE_FAILURE example_trace (detector_init, ShadowPM_new example_env) = Inr ((d', s'), es)"
    using example_run by blast
  from checked_set_constant [OF example_env example_new r] r show ?thesis
    by (auto simp: ShadowPM_new_def)
qed

end
