(* ===== verification/XF_Rounds.thy ===== *)
theory XF_Rounds
  imports XF_Main XF_Invariants
begin

text \<open>
  What \<open>main\<close> does over a whole session: the pieces in which the pipes deliver the traces do not
  matter, the recovery of one failure point leaves nothing behind for the next, and a failing
  \<open>read\<close> leads out of the buffer.
\<close>

section \<open>Lifted messages\<close>

lemma xlift_simps [simp]:
  "xlift f (Inl e) = Inl e" "xlift f (Inr (x, es)) = Inr (x, map f es)" "xlift f (xret x) = xret x"
  by (simp_all add: xlift_def xret_def)

lemma xlift_xemit [simp]: "xlift f (xemit es m) = xemit (map f es) (xlift f m)"
  by (cases m) auto

lemma xlift_xbind: "xlift f (xbind m k) = xbind (xlift f m) (\<lambda>x. xlift f (k x))"
proof (cases m)
  case (Inr p)
  then show ?thesis by (cases p) simp
qed simp

section \<open>Buffers\<close>

lemma run_trace_xfor: "run_trace E stage ops = xfor (update_pm_status E stage) ops"
  by (simp add: run_trace_def fun_eq_iff)

lemma for_buf_take:
  "n \<le> length buf \<Longrightarrow> for_buf E stage n buf ds = run_trace E stage (take n buf) ds"
proof (induction E stage n buf ds rule: for_buf.induct)
  case (2 E stage n e es ds)
  show ?case
  proof (cases n)
    case (Suc m)
    have "for_buf E stage m es = run_trace E stage (take m es)"
      using 2 Suc by (intro ext) simp
    then show ?thesis by (simp add: Suc run_trace_xfor)
  qed (simp add: run_trace_def)
qed (simp add: run_trace_def)

lemma entries_read_whole:
  "k \<le> 1024 \<Longrightarrow> entries_read (56 * int k) = k"
proof -
  assume k: "k \<le> 1024"
  then have "unat (of_nat (56 * k) :: sz_t) = 56 * k"
    by (simp add: unat_of_nat del: of_nat_mult)
  then have "unat ((of_nat (56 * k) :: sz_t) div 56) = k"
    by (simp add: unat_div_distrib del: of_nat_mult)
  moreover have "(of_int (56 * int k) :: sz_t) = of_nat (56 * k)" by simp
  ultimately show ?thesis
    unfolding entries_read_def sizeof_trace_entry_def by (simp only:)
qed

lemma entries_read_negative: "entries_read (-1) = 329406144173384850"
  by (simp add: entries_read_def sizeof_trace_entry_def unat_div_distrib)

text \<open>A \<open>read\<close> that delivers whole entries, at most as many as the buffer holds.\<close>

definition whole_read :: "fifo_input \<Rightarrow> bool" where
  "whole_read r \<longleftrightarrow> in_size r = 56 * int (length (in_data r)) \<and> length (in_data r) \<le> FIFO_BUF_ENTRIES"

definition trace_of :: "fifo_input list \<Rightarrow> trace_entry list" where
  "trace_of rs = concat (map in_data rs)"

lemma trace_of_simps [simp]:
  "trace_of [] = []" "trace_of (r # rs) = in_data r @ trace_of rs"
  by (simp_all add: trace_of_def)

lemma for_buf_whole:
  assumes "whole_read r" and "length buf = FIFO_BUF_ENTRIES"
  shows "for_buf E stage (entries_read (in_size r)) (fill_buf (in_data r) buf) ds = run_trace E stage (in_data r) ds"
  using assms by (simp add: whole_read_def FIFO_BUF_ENTRIES_def entries_read_whole for_buf_take)

lemma run_trace_append: "run_trace E stage (xs @ ys) ds = xbind (run_trace E stage xs ds) (run_trace E stage ys)"
  by (simp add: run_trace_xfor xfor_append)

section \<open>When the loops end\<close>

definition pre_ends :: "trace_entry \<Rightarrow> bool" where
  "pre_ends e \<longleftrightarrow> \<not> func_ret e \<and> (operation e = TRACE_END \<or> operation e = TESTING_END)"

definition post_ends :: "trace_entry \<Rightarrow> bool" where
  "post_ends e \<longleftrightarrow> \<not> func_ret e \<and> operation e = TESTING_END"

lemma run_trace_flags:
  assumes "run_trace E stage ops ds = Inr (ds', es)"
  shows "fst ds' = fold (\<lambda>e d. if func_ret e then d else flag_op stage (operation e) d) ops (fst ds)"
  using assms
proof (induction ops arbitrary: ds es)
  case (Cons e ops)
  from Cons.prems obtain ds1 es1 es2 where
    1: "update_pm_status E stage e ds = Inr (ds1, es1)" and 2: "run_trace E stage ops ds1 = Inr (ds', es2)"
    by (auto simp: run_trace_def xbind_eq_Inr)
  from 1 have "fst ds1 = (if func_ret e then fst ds else flag_op stage (operation e) (fst ds))"
    by (auto simp: update_pm_status_def xbind_eq_Inr xret_def)
  with Cons.IH [OF 2] show ?case by simp
qed (simp add: run_trace_def xret_def)

lemma pre_flags_fold:
  fixes ops :: "trace_entry list"
  defines "D \<equiv> \<lambda>d. fold (\<lambda>e d. if func_ret e then d else flag_op PRE_FAILURE (operation e) d) ops d"
  shows "pre_failure_point_complete (D d) \<or> pre_testing_complete (D d) \<longleftrightarrow>
    pre_failure_point_complete d \<or> pre_testing_complete d \<or> (\<exists>e \<in> set ops. pre_ends e)"
  and "post_testing_complete (D d) = post_testing_complete d"
  and "pre_testing_complete (D d) \<longleftrightarrow> pre_testing_complete d \<or> (\<exists>e \<in> set ops. \<not> func_ret e \<and> operation e = TESTING_END)"
  unfolding D_def
  by (induction ops arbitrary: d) (auto simp: flag_op_def pre_ends_def stage_defs)

lemma post_flags_fold:
  fixes ops :: "trace_entry list"
  defines "D \<equiv> \<lambda>d. fold (\<lambda>e d. if func_ret e then d else flag_op POST_FAILURE (operation e) d) ops d"
  shows "post_testing_complete (D d) \<longleftrightarrow> post_testing_complete d \<or> (\<exists>e \<in> set ops. post_ends e)"
  and "pre_testing_complete (D d) = pre_testing_complete d"
  and "pre_failure_point_complete (D d) = pre_failure_point_complete d"
  unfolding D_def
  by (induction ops arbitrary: d) (auto simp: flag_op_def post_ends_def stage_defs)

section \<open>Chunks do not matter\<close>

text \<open>
  Reads that end with the chunk in which the program announces the failure point, none of them
  later than the limit after the last read that delivered something.
\<close>

fun timely :: "int \<Rightarrow> fifo_input list \<Rightarrow> bool" where
  "timely start [] \<longleftrightarrow> True"
| "timely start (r # rs) \<longleftrightarrow>
     in_end r - (if in_size r \<noteq> 0 then in_start r else start) \<le> PRE_FAILURE_FIFO_TIMEOUT \<and>
     timely (if in_size r \<noteq> 0 then in_start r else start) rs"

fun chunks_until :: "(trace_entry \<Rightarrow> bool) \<Rightarrow> fifo_input list \<Rightarrow> bool" where
  "chunks_until ends [] \<longleftrightarrow> False"
| "chunks_until ends [r] \<longleftrightarrow> whole_read r \<and> list_ex ends (in_data r)"
| "chunks_until ends (r # rs) \<longleftrightarrow> whole_read r \<and> \<not> list_ex ends (in_data r) \<and> chunks_until ends rs"

definition fifo_wf :: "fifo \<Rightarrow> bool" where
  "fifo_wf F \<longleftrightarrow> length (pre_fifo_buf F) = FIFO_BUF_ENTRIES \<and> length (post_fifo_buf F) = FIFO_BUF_ENTRIES"

lemma clear_wf [simp]:
  "fifo_wf F \<Longrightarrow> fifo_wf (clear_pre_fifo_buf (F\<lparr>pre_fifo_buf := b\<rparr>))"
  "fifo_wf F \<Longrightarrow> fifo_wf (clear_post_fifo_buf (F\<lparr>post_fifo_buf := b\<rparr>))"
  by (simp_all add: fifo_wf_def clear_pre_fifo_buf_def clear_post_fifo_buf_def)

text \<open>The descriptors and names, which the loops do not change.\<close>

definition same_pipes :: "fifo \<Rightarrow> fifo \<Rightarrow> bool" where
  "same_pipes F F' \<longleftrightarrow>
     F' = F\<lparr>pre_fifo_buf := pre_fifo_buf F', post_fifo_buf := post_fifo_buf F'\<rparr>"

lemma same_pipes_refl [simp]: "same_pipes F F"
  by (simp add: same_pipes_def)

lemma same_pipes_trans: "same_pipes F G \<Longrightarrow> same_pipes G K \<Longrightarrow> same_pipes F K"
  by (cases F, cases G, cases K) (simp add: same_pipes_def)

lemma same_pipes_clear [simp]:
  "same_pipes F (clear_pre_fifo_buf (F\<lparr>pre_fifo_buf := b\<rparr>))"
  "same_pipes F (clear_post_fifo_buf (F\<lparr>post_fifo_buf := b\<rparr>))"
  by (simp_all add: same_pipes_def clear_pre_fifo_buf_def clear_post_fifo_buf_def)

lemma pre_loop_stop:
  "pre_failure_point_complete (fst ds) \<or> pre_testing_complete (fst ds) \<Longrightarrow> pre_loop E rs start F ds = xret (Some (rs, F, ds))"
  by (cases rs) auto

lemma pre_loop_step:
  assumes "\<not> (pre_failure_point_complete (fst ds) \<or> pre_testing_complete (fst ds))"
    and "whole_read r" "fifo_wf F" "timely start (r # rs)"
    and "run_trace E PRE_FAILURE (in_data r) ds = Inr (ds1, es)"
  shows "pre_loop E (r # rs) start F ds =
    xemit (map Report es) (pre_loop E rs (if in_size r \<noteq> 0 then in_start r else start)
      (clear_pre_fifo_buf (F\<lparr>pre_fifo_buf := fill_buf (in_data r) (pre_fifo_buf F)\<rparr>)) ds1)"
  using assms by (auto simp: pre_fifo_read_def for_buf_whole fifo_wf_def Let_def)

lemma pre_loop_chunks:
  assumes "chunks_until pre_ends rs" "timely start rs" "fifo_wf F"
    and "\<not> (pre_failure_point_complete (fst ds) \<or> pre_testing_complete (fst ds))"
    and "run_trace E PRE_FAILURE (trace_of rs) ds = Inr (ds', es)"
  shows "\<exists>F'. pre_loop E (rs @ rest) start F ds = Inr (Some (rest, F', ds'), map Report es) \<and>
      fifo_wf F' \<and> same_pipes F F'"
  using assms
proof (induction rs arbitrary: start F ds es)
  case (Cons r rs)
  let ?F = "clear_pre_fifo_buf (F\<lparr>pre_fifo_buf := fill_buf (in_data r) (pre_fifo_buf F)\<rparr>)"
  let ?start = "if in_size r \<noteq> 0 then in_start r else start"
  from Cons.prems(5) obtain ds1 es1 es2 where
    1: "run_trace E PRE_FAILURE (in_data r) ds = Inr (ds1, es1)" and
    2: "run_trace E PRE_FAILURE (trace_of rs) ds1 = Inr (ds', es2)" and es: "es = es1 @ es2"
    by (auto simp: run_trace_append xbind_eq_Inr)
  have whole: "whole_read r" using Cons.prems(1) by (cases rs) auto
  have flags: "pre_failure_point_complete (fst ds1) \<or> pre_testing_complete (fst ds1) \<longleftrightarrow> list_ex pre_ends (in_data r)"
    using run_trace_flags [OF 1] pre_flags_fold(1) [of "in_data r" "fst ds"] Cons.prems(4)
    by (simp add: list_ex_iff)
  have timely: "timely start (r # (rs @ rest))" if "timely ?start (rs @ rest)"
    using Cons.prems(2) that by simp
  have step: "pre_loop E (r # rs @ rest) start F ds = xemit (map Report es1) (pre_loop E (rs @ rest) ?start ?F ds1)"
    using Cons.prems(2,3,4) whole 1 by (auto simp: pre_fifo_read_def for_buf_whole fifo_wf_def Let_def)
  show ?case
  proof (cases rs)
    case Nil
    then have "ds1 = ds'" "es2 = []" using 2 by (auto simp: run_trace_def xret_def)
    moreover have "pre_loop E rest ?start ?F ds1 = xret (Some (rest, ?F, ds1))"
      using flags Cons.prems(1) Nil by (intro pre_loop_stop) simp
    ultimately show ?thesis
      using step Nil Cons.prems(3) es by (intro exI [of _ ?F]) simp
  next
    case (Cons r' rs')
    then have "chunks_until pre_ends rs" "\<not> list_ex pre_ends (in_data r)"
      using Cons.prems(1) by auto
    then obtain F' where "pre_loop E (rs @ rest) ?start ?F ds1 = Inr (Some (rest, F', ds'), map Report es2)"
        "fifo_wf F'" "same_pipes ?F F'"
      using Cons.IH [of ?start ?F ds1 es2] Cons.prems(2,3) flags 2 by auto
    moreover from this(3) have "same_pipes F F'" by (rule same_pipes_trans [OF same_pipes_clear(1)])
    ultimately show ?thesis using step es by auto
  qed
qed simp

lemma post_loop_stop:
  "post_testing_complete (fst ds) \<Longrightarrow> post_loop E C kill_ret start rs F ds = xret (Some (False, F, ds))"
  by (cases rs) auto

lemma post_loop_chunks:
  assumes "chunks_until post_ends rs" "\<forall>r \<in> set rs. in_end r - start \<le> POST_FAILURE_EXEC_TIMEOUT" "fifo_wf F"
    and "\<not> post_testing_complete (fst ds)"
    and "run_trace E POST_FAILURE (trace_of rs) ds = Inr (ds', es)"
  shows "\<exists>F'. post_loop E C kill_ret start (rs @ rest) F ds = Inr (Some (False, F', ds'), map Report es) \<and>
      fifo_wf F' \<and> same_pipes F F'"
  using assms
proof (induction rs arbitrary: F ds es)
  case (Cons r rs)
  let ?F = "clear_post_fifo_buf (F\<lparr>post_fifo_buf := fill_buf (in_data r) (post_fifo_buf F)\<rparr>)"
  from Cons.prems(5) obtain ds1 es1 es2 where
    1: "run_trace E POST_FAILURE (in_data r) ds = Inr (ds1, es1)" and
    2: "run_trace E POST_FAILURE (trace_of rs) ds1 = Inr (ds', es2)" and es: "es = es1 @ es2"
    by (auto simp: run_trace_append xbind_eq_Inr)
  have whole: "whole_read r" using Cons.prems(1) by (cases rs) auto
  have flags: "post_testing_complete (fst ds1) \<longleftrightarrow> list_ex post_ends (in_data r)"
    using run_trace_flags [OF 1] post_flags_fold(1) [of "in_data r" "fst ds"] Cons.prems(4)
    by (simp add: list_ex_iff)
  have step: "post_loop E C kill_ret start (r # rs @ rest) F ds =
      xemit (map Report es1) (post_loop E C kill_ret start (rs @ rest) ?F ds1)"
    using Cons.prems(2,3,4) whole 1 by (auto simp: post_fifo_read_def for_buf_whole fifo_wf_def Let_def)
  show ?case
  proof (cases rs)
    case Nil
    then have "ds1 = ds'" "es2 = []" using 2 by (auto simp: run_trace_def xret_def)
    moreover have "post_loop E C kill_ret start rest ?F ds1 = xret (Some (False, ?F, ds1))"
      using flags Cons.prems(1) Nil by (intro post_loop_stop) simp
    ultimately show ?thesis
      using step Nil Cons.prems(3) es by (intro exI [of _ ?F]) simp
  next
    case (Cons r' rs')
    then have "chunks_until post_ends rs" "\<not> list_ex post_ends (in_data r)"
      using Cons.prems(1) by auto
    then obtain F' where "post_loop E C kill_ret start (rs @ rest) ?F ds1 = Inr (Some (False, F', ds'), map Report es2)"
        "fifo_wf F'" "same_pipes ?F F'"
      using Cons.IH [of ?F ds1 es2] Cons.prems(2,3) flags 2 by auto
    moreover from this(3) have "same_pipes F F'" by (rule same_pipes_trans [OF same_pipes_clear(2)])
    ultimately show ?thesis using step es by auto
  qed
qed simp

section \<open>A whole session\<close>

text \<open>
  The specification of a session: every round handles its part of the trace, and the recovery of
  the round works on a copy that is then forgotten.
\<close>

fun session ::
  "('sm, 'tm, 'im, 'is) xenv \<Rightarrow> (int list \<times> trace_entry list \<times> trace_entry list) list \<Rightarrow>
   ('sm, 'tm, 'im, 'is) ShadowPM \<Rightarrow> (event, ('sm, 'tm, 'im, 'is) ShadowPM) outcome" where
  "session E [] S = xret S"
| "session E ((g, pre, post) # rounds) S =
     xbind (run_trace E PRE_FAILURE pre (detector_init, S)) (\<lambda>ds1.
     xbind (run_trace E POST_FAILURE post (detector_init, ShadowPM_copy g (snd ds1))) (\<lambda>_.
     session E rounds (snd ds1)))"

text \<open>The flags of the detector do not influence the shadow or the reports.\<close>

lemma run_trace_detector:
  "run_trace E stage ops (D, S) = Inr ((D', S'), es) \<Longrightarrow>
   \<exists>D2'. run_trace E stage ops (D2, S) = Inr ((D2', S'), es)"
proof (induction ops arbitrary: D D2 S es)
  case (Cons e ops)
  from Cons.prems obtain D1 S1 es1 es2 where
    1: "update_pm_status E stage e (D, S) = Inr ((D1, S1), es1)" and
    2: "run_trace E stage ops (D1, S1) = Inr ((D', S'), es2)" and es: "es = es1 @ es2"
    by (auto simp: run_trace_xfor xbind_eq_Inr)
  from 1 obtain D3 where "update_pm_status E stage e (D2, S) = Inr ((D3, S1), es1)"
    by (auto simp: update_pm_status_def xbind_eq_Inr xret_def)
  moreover from Cons.IH [OF 2, of D3] obtain D4 where "run_trace E stage ops (D3, S1) = Inr ((D4, S'), es2)" by blast
  ultimately show ?case using es by (auto simp: run_trace_xfor xemit_eq_Inr)
qed (auto simp: run_trace_def xret_def)

fun reports :: "main_msg list \<Rightarrow> event list" where
  "reports [] = []"
| "reports (Report e # ms) = e # reports ms"
| "reports (Sys c # ms) = reports ms"
| "reports (Console c # ms) = reports ms"

lemma reports_append [simp]: "reports (ms @ ns) = reports ms @ reports ns"
  by (induction ms rule: reports.induct) auto

lemma reports_map [simp]: "reports (map Report es) = es" "reports (map Sys cs) = []"
  by (induction es, auto) (induction cs, auto)

text \<open>
  A host that answers: the recovery starts, its pipe opens, it announces its end in time, the
  signal is sent, and the recovery process is waited for.
\<close>

definition answers :: "host \<Rightarrow> exe_ctrl \<Rightarrow> string \<Rightarrow> round_input \<Rightarrow> bool" where
  "answers H C path R \<longleftrightarrow>
     xopt (execute_post_failure (getenv H) (environ H) (random R) (cp_status R) (post_pid R) (post_exec_ret R) C) \<noteq> None \<and>
     post_pid R > 0 \<and> open_fd H path \<ge> 0 \<and> write_fd H (PIN_CONTINUE_SIGNAL @ [CHR 0x00]) \<ge> 0 \<and>
     waitpid_ret R \<noteq> -1 \<and> chunks_until post_ends (post_inputs R) \<and>
     list_all (\<lambda>r. in_end r - fst (post_start R) \<le> POST_FAILURE_EXEC_TIMEOUT) (post_inputs R)"

lemma genPinCommand_pid [simp]:
  "genPinCommand ge stage img (C\<lparr>post_failure_pid := p\<rparr>) = genPinCommand ge stage img C"
  by (cases "ge ''PIN_ROOT''") (simp_all add: genPinCommand_def rename_pool_img_def)

lemma copy_pm_image_pid [simp]: "copy_pm_image rnd status (C\<lparr>post_failure_pid := p\<rparr>) = copy_pm_image rnd status C"
  by (simp add: copy_pm_image_def Let_def)

lemma answers_pid [simp]: "answers H (C\<lparr>post_failure_pid := p\<rparr>) path R = answers H C path R"
proof -
  have "xopt (execute_post_failure ge env rnd st cpid er (C\<lparr>post_failure_pid := p\<rparr>)) = None \<longleftrightarrow>
      xopt (execute_post_failure ge env rnd st cpid er C) = None" if "cpid > 0" for ge env rnd st cpid er
    using that by (simp add: execute_post_failure_def)
  then show ?thesis by (cases "post_pid R > 0") (simp_all add: answers_def)
qed

lemma post_failure_part_ok:
  assumes ans: "answers H C (post_failure_fifo_str F) R" and F: "fifo_wf F" "signal_fifo_fd F = Some sig"
    and D: "\<not> post_testing_complete D"
    and run: "run_trace E POST_FAILURE (trace_of (post_inputs R)) (D, ShadowPM_copy (garbage R) S) = Inr ((D2, S2), es)"
  shows "\<exists>F' ms. post_failure_part E H R (C, F, D, S) =
      Inr (Some (True, C\<lparr>post_failure_pid := post_pid R\<rparr>, F', D2\<lparr>post_testing_complete := False\<rparr>, S), ms) \<and>
      reports ms = es \<and> fifo_wf F' \<and> signal_fifo_fd F' = Some sig \<and>
      post_failure_fifo_str F' = post_failure_fifo_str F"
proof -
  from ans have pid: "post_pid R > 0" by (simp add: answers_def)
  from ans pid obtain name cs where exe:
    "execute_post_failure (getenv H) (environ H) (random R) (cp_status R) (post_pid R) (post_exec_ret R) C =
      Inr ((name, C\<lparr>post_failure_pid := post_pid R\<rparr>), cs)"
    by (auto simp: answers_def execute_post_failure_def xopt_eq_Some xbind_eq_Inr xret_def Option.bind_eq_Some_conv)
  let ?F = "F\<lparr>post_fifo_fd := Some (open_fd H (post_failure_fifo_str F))\<rparr>"
  have opn: "fifo_open (open_fd H) POST_FAILURE_FIFO F = Inr (?F, [OpenFifo (post_failure_fifo_str F)])"
    using ans by (simp add: fifo_open_def answers_def)
  have "fifo_wf ?F" using F(1) by (simp add: fifo_wf_def)
  with ans D run obtain F' where F': "post_loop E (C\<lparr>post_failure_pid := post_pid R\<rparr>) (kill_post_ret R) (fst (post_start R))
      (post_inputs R) ?F (D, ShadowPM_copy (garbage R) S) = Inr (Some (False, F', D2, S2), map Report es)"
      "fifo_wf F'" "same_pipes ?F F'"
    using post_loop_chunks [of "post_inputs R" "fst (post_start R)" ?F "(D, ShadowPM_copy (garbage R) S)" E "(D2, S2)" es _ _ "[]"]
    by (fastforce simp: answers_def list_all_iff)
  from F'(3) have pipes: "post_fifo_fd F' = post_fifo_fd ?F" "signal_fifo_fd F' = Some sig"
      "post_failure_fifo_str F' = post_failure_fifo_str F"
    using F(2) by (cases F', simp add: same_pipes_def)+
  have cont: "pin_continue_send (write_fd H) F' = Inr ((), [WriteFd sig (PIN_CONTINUE_SIGNAL @ [CHR 0x00])])"
    using ans pipes(2) by (simp add: pin_continue_send_def signal_send_def with_fd_def answers_def)
  have "\<not> post_failure_status (waitpid_ret R) (wait_status R) < 0"
    using ans by (simp add: post_failure_status_def answers_def WEXITSTATUS_def not_less)
  then show ?thesis
    using exe opn F' pipes cont
    by (simp add: post_failure_part_def finish_round_def fifo_close_def with_fd_def Let_def)
qed

text \<open>The rounds before the last one do not end the program, the last one does.\<close>

fun finishes :: "fifo_input list list \<Rightarrow> bool" where
  "finishes [] \<longleftrightarrow> False"
| "finishes (rs # rss) \<longleftrightarrow> (if list_ex post_ends (trace_of rs) then rss = [] else finishes rss)"

definition well_played :: "host \<Rightarrow> exe_ctrl \<Rightarrow> fifo \<Rightarrow> (fifo_input list \<times> round_input) list \<Rightarrow> bool" where
  "well_played H C F rounds \<longleftrightarrow>
     list_all (\<lambda>(rs, R). chunks_until pre_ends rs \<and> timely (round_start R) rs \<and>
       answers H C (post_failure_fifo_str F) R \<and> length (garbage R) = MAX_THREADS) rounds \<and>
     finishes (map fst rounds) \<and> fifo_wf F \<and> signal_fifo_fd F \<noteq> None"

definition traces :: "(fifo_input list \<times> round_input) list \<Rightarrow> (int list \<times> trace_entry list \<times> trace_entry list) list" where
  "traces rounds = map (\<lambda>(rs, R). (garbage R, trace_of rs, trace_of (post_inputs R))) rounds"

lemma main_loop_done: "pre_testing_complete D \<Longrightarrow> main_loop E H ins Rs (C, F, D, S) = xret (Some (0, F))"
  by (cases Rs) auto

lemma main_loop_round:
  assumes "chunks_until pre_ends rs" "timely (round_start R) rs" "answers H C (post_failure_fifo_str F) R"
    and F: "fifo_wf F" "signal_fifo_fd F = Some sig"
    and D: "\<not> pre_testing_complete D" "\<not> post_testing_complete D"
    and pre: "run_trace E PRE_FAILURE (trace_of rs) (detector_init, S) = Inr ((D1, S1), es1)"
    and post: "run_trace E POST_FAILURE (trace_of (post_inputs R)) (detector_init, ShadowPM_copy (garbage R) S1) = Inr ((D2, S2), es2)"
  shows "\<exists>F' D' ms. main_loop E H (rs @ ins) (R # Rs) (C, F, D, S) =
      xemit ms (main_loop E H ins Rs (C\<lparr>post_failure_pid := post_pid R\<rparr>, F', D', S1)) \<and>
      reports ms = es1 @ es2 \<and> fifo_wf F' \<and> signal_fifo_fd F' = Some sig \<and>
      post_failure_fifo_str F' = post_failure_fifo_str F \<and>
      pre_testing_complete D' = list_ex post_ends (trace_of rs) \<and> \<not> post_testing_complete D'"
proof -
  let ?D = "D\<lparr>pre_failure_point_complete := False\<rparr>"
  from run_trace_detector [OF pre] obtain D1' where
    1: "run_trace E PRE_FAILURE (trace_of rs) (?D, S) = Inr ((D1', S1), es1)" by blast
  from run_trace_detector [OF post] obtain D2' where 2: "run_trace E POST_FAILURE (trace_of (post_inputs R))
      (D1', ShadowPM_copy (garbage R) S1) = Inr ((D2', S2), es2)" by blast
  from pre_loop_chunks [OF assms(1,2) F(1) _ 1, of ins] D(1) obtain F1 where
    F1: "pre_loop E (rs @ ins) (round_start R) F (?D, S) = Inr (Some (ins, F1, D1', S1), map Report es1)"
      "fifo_wf F1" "same_pipes F F1" by auto
  have D1': "\<not> post_testing_complete D1'" "pre_testing_complete D1' = list_ex post_ends (trace_of rs)"
    using run_trace_flags [OF 1] pre_flags_fold(2,3) [of "trace_of rs" ?D] D
    by (simp_all add: list_ex_iff post_ends_def)
  have pipes: "signal_fifo_fd F1 = Some sig" "post_failure_fifo_str F1 = post_failure_fifo_str F"
    using F1(3) F(2) by (cases F1, simp add: same_pipes_def)+
  have "answers H C (post_failure_fifo_str F1) R" using assms(3) pipes(2) by simp
  from post_failure_part_ok [OF this F1(2) pipes(1) D1'(1) 2] obtain F2 ms2 where
    F2: "post_failure_part E H R (C, F1, D1', S1) = Inr (Some (True, C\<lparr>post_failure_pid := post_pid R\<rparr>, F2,
        D2'\<lparr>post_testing_complete := False\<rparr>, S1), ms2)"
      "reports ms2 = es2" "fifo_wf F2" "signal_fifo_fd F2 = Some sig" "post_failure_fifo_str F2 = post_failure_fifo_str F"
    using pipes(2) by auto
  have "pre_testing_complete D2' = list_ex post_ends (trace_of rs)"
    using run_trace_flags [OF 2] post_flags_fold(2) [of "trace_of (post_inputs R)" D1'] D1'(2) by simp
  with F1(1) F2 D(1) show ?thesis
    by (intro exI [of _ F2] exI [of _ "D2'\<lparr>post_testing_complete := False\<rparr>"]
        exI [of _ "Console ''--------Switching to Pre failure--------'' # map Report es1 @ ms2"]) simp
qed

lemma main_loop_session:
  assumes "well_played H C F rounds" "\<not> pre_testing_complete D" "\<not> post_testing_complete D"
    and "session E (traces rounds) S = Inr (S', es)"
  shows "\<exists>F' ms. main_loop E H (concat (map fst rounds)) (map snd rounds) (C, F, D, S) = Inr (Some (0, F'), ms) \<and>
      reports ms = es"
  using assms
proof (induction rounds arbitrary: C F D S es)
  case Nil
  then show ?case by (simp add: well_played_def)
next
  case (Cons round rounds)
  obtain rs R where r: "round = (rs, R)" by (cases round)
  let ?C = "C\<lparr>post_failure_pid := post_pid R\<rparr>" and ?ins = "concat (map fst rounds)"
  from Cons.prems(1) obtain sig where ok: "chunks_until pre_ends rs" "timely (round_start R) rs"
      "answers H C (post_failure_fifo_str F) R" "fifo_wf F" "signal_fifo_fd F = Some sig"
    by (auto simp: well_played_def r)
  from Cons.prems(4) obtain D1 S1 es1 D2 S2 es2 es3 where
    1: "run_trace E PRE_FAILURE (trace_of rs) (detector_init, S) = Inr ((D1, S1), es1)" and
    2: "run_trace E POST_FAILURE (trace_of (post_inputs R)) (detector_init, ShadowPM_copy (garbage R) S1) = Inr ((D2, S2), es2)" and
    3: "session E (traces rounds) S1 = Inr (S', es3)" and es: "es = es1 @ es2 @ es3"
    by (auto simp: traces_def r xbind_eq_Inr)
  from main_loop_round [OF ok Cons.prems(2,3) 1 2] obtain F2 D3 ms where
    step: "main_loop E H (rs @ ?ins) (R # map snd rounds) (C, F, D, S) = xemit ms (main_loop E H ?ins (map snd rounds) (?C, F2, D3, S1))"
      "reports ms = es1 @ es2" and F2: "fifo_wf F2" "signal_fifo_fd F2 = Some sig" "post_failure_fifo_str F2 = post_failure_fifo_str F"
      and D3: "pre_testing_complete D3 = list_ex post_ends (trace_of rs)" "\<not> post_testing_complete D3"
    by blast
  have "\<exists>F' ms. main_loop E H ?ins (map snd rounds) (?C, F2, D3, S1) = Inr (Some (0, F'), ms) \<and> reports ms = es3"
  proof (cases "list_ex post_ends (trace_of rs)")
    case True
    then have "es3 = []" using Cons.prems(1) 3 by (simp add: well_played_def r traces_def xret_def)
    with True D3(1) show ?thesis by (simp add: main_loop_done xret_def)
  next
    case False
    then have "well_played H ?C F2 rounds"
      using Cons.prems(1) F2 by (simp add: well_played_def r)
    from Cons.IH [OF this _ D3(2) 3] False D3(1) show ?thesis by simp
  qed
  then show ?case
    using step es by (auto simp: r)
qed

section \<open>The bugs of a session\<close>

text \<open>The byte-wise meaning of a session: the bugs of its rounds, in order.\<close>

fun byte_session ::
  "(int list \<times> trace_entry list \<times> trace_entry list) list \<Rightarrow> byte_state \<Rightarrow> event list option" where
  "byte_session [] b = Some []"
| "byte_session ((g, pre, post) # rounds) b =
     Option.bind (byte_run PRE_FAILURE pre b) (\<lambda>b1.
     Option.bind (byte_run POST_FAILURE post (byte_crash g b1)) (\<lambda>_.
     Option.bind (byte_session rounds b1) (\<lambda>bugs.
     Some (byte_run_bugs PRE_FAILURE pre b @ byte_run_bugs POST_FAILURE post (byte_crash g b1) @ bugs))))"

context shadow_env
begin

lemma session_bugs:
  assumes "shadow_wf E S" "backtrace_files_ok E" "list_all (\<lambda>(g, _). length g = MAX_THREADS) rounds"
    and "byte_session rounds (shadow_abs E S) = Some bugs"
  shows "\<exists>S' es. session E rounds S = Inr (S', es) \<and> filter is_bug es = bugs"
  using assms
proof (induction rounds arbitrary: S bugs)
  case Nil
  then show ?case by (simp add: xret_def)
next
  case (Cons round rounds)
  obtain g pre post where r: "round = (g, pre, post)" by (cases round)
  from Cons.prems(4) obtain b1 b2 bugs' where
    b: "byte_run PRE_FAILURE pre (shadow_abs E S) = Some b1" "byte_run POST_FAILURE post (byte_crash g b1) = Some b2"
      "byte_session rounds b1 = Some bugs'" and bugs:
      "bugs = byte_run_bugs PRE_FAILURE pre (shadow_abs E S) @ byte_run_bugs POST_FAILURE post (byte_crash g b1) @ bugs'"
    by (auto simp: r Option.bind_eq_Some_conv)
  from run_trace_step [OF Cons.prems(1,2) b(1)] obtain S1 es1 where
    1: "run_trace E PRE_FAILURE pre (detector_init, S) = Inr ((run_flags PRE_FAILURE pre detector_init, S1), es1)"
      "shadow_wf E S1" "shadow_abs E S1 = b1" "filter is_bug es1 = byte_run_bugs PRE_FAILURE pre (shadow_abs E S)"
    by blast
  have "shadow_wf E (ShadowPM_copy g S1)" "shadow_abs E (ShadowPM_copy g S1) = byte_crash g b1"
    using copy_wf [OF 1(2)] Cons.prems(3) 1(3) by (simp_all add: copy_abs r)
  with run_trace_step [OF this(1) Cons.prems(2), of POST_FAILURE post b2 detector_init] b(2) obtain S2 es2 where
    2: "run_trace E POST_FAILURE post (detector_init, ShadowPM_copy g S1) = Inr ((run_flags POST_FAILURE post detector_init, S2), es2)"
      "filter is_bug es2 = byte_run_bugs POST_FAILURE post (byte_crash g b1)"
    by auto
  from Cons.IH [OF 1(2) Cons.prems(2)] Cons.prems(3) b(3) 1(3) obtain S' es3 where
    "session E rounds S1 = Inr (S', es3)" "filter is_bug es3 = bugs'" by auto
  with 1 2 bugs show ?case by (simp add: r)
qed

end


text \<open>A host and a round for examples: one read for each trace.\<close>

definition example_host :: host where
  "example_host =
     \<lparr>getenv = (\<lambda>_. Some ''/opt''), environ = [], mkfifo = (\<lambda>_. 0), open_fd = (\<lambda>_. 5), write_fd = (\<lambda>_. 13),
      malloc_pre = [], malloc_post = [], malloc_sig = [], pre_pid = 100, pre_exec_ret = 0,
      total_start = (0, 0), total_end = (1, 0)\<rparr>"

definition example_input :: "trace_entry list \<Rightarrow> fifo_input" where
  "example_input ops = \<lparr>in_size = 56 * int (length ops), in_data = ops, in_start = 0, in_end = 0\<rparr>"

definition example_round :: "trace_entry list \<Rightarrow> round_input" where
  "example_round ops =
     \<lparr>round_start = 0, garbage = no_garbage, random = 7, cp_status = 0, post_pid = 101, post_exec_ret = 0,
      post_start = (0, 0), post_end = (1, 0), post_inputs = [example_input ops], kill_post_ret = 0,
      waitpid_ret = 101, wait_status = 0, kill_pre_ret = 0\<rparr>"

definition example_ctrl :: exe_ctrl where
  "example_ctrl = exe_ctrl_init\<lparr>target_cmd := [''prog'', ''__POOL_IMAGE__''], pintool_path := ''t.so'', pm_image_name := ''img''\<rparr>"

definition example_fifo :: fifo where
  "example_fifo =
     \<lparr>pre_failure_fifo_str = ''/tmp/pre_fifo.1'', post_failure_fifo_str = ''/tmp/post_fifo.1'',
      signal_fifo_str = ''/tmp/signal_fifo.1'', pre_fifo_buf = replicate FIFO_BUF_ENTRIES (trace_entry_init 0),
      post_fifo_buf = replicate FIFO_BUF_ENTRIES (trace_entry_init 0), signal_buf = [],
      pre_fifo_fd = Some 3, post_fifo_fd = None, signal_fifo_fd = Some 4\<rparr>"

lemma to_string_7: "to_string 7 = ''7''"
  by code_simp

lemma example_answers:
  "list_ex post_ends ops \<Longrightarrow> length ops \<le> 1024 \<Longrightarrow> answers example_host example_ctrl path (example_round ops)"
  by (simp add: answers_def example_host_def example_ctrl_def example_round_def example_input_def
      execute_post_failure_def copy_pm_image_def genPinCommand_def rename_pool_img_def str2cmd_def alloc_print_def
      c_str_def exe_ctrl_init_def pin_flag_defs POOL_IMAGE_IDENTIFIER_def str_contains_def str_prefix_def
      stage_defs whole_read_def FIFO_BUF_ENTRIES_def POST_FAILURE_EXEC_TIMEOUT_def Let_def to_string_7)

lemma unpersisted_read_bugs:
  assumes "k \<in> bytes (src_addr r) (size_of r)" "b_status b k = Some MODIFIED" "b_writer b k \<noteq> None"
    and "\<not> bytes (src_addr r) (size_of r) \<subseteq> b_commit_vars b" "\<not> bytes (src_addr r) (size_of r) \<subseteq> of_thread (b_added b) r"
  shows "byte_read_bugs r b = [ConsistencyBug, NotPersistedBeforeFailure]"
proof -
  have "\<not> byte_read_ok r b" "\<not> all_status {WRITTEN_BACK} (bytes (src_addr r) (size_of r)) b"
    using assms by (auto simp: byte_read_ok_def all_status_def Let_def)
  with assms(1,3) show ?thesis by (auto simp: byte_read_bugs_def Let_def)
qed

abbreviation example_rounds :: "(fifo_input list \<times> round_input) list" where
  "example_rounds \<equiv>
     [([example_input [example_write], example_input [entry TRACE_END 0 0 0 0 1]],
       example_round [example_read, entry TESTING_END 0 0 0 0 3]),
      ([example_input [entry TESTING_END 0 0 0 0 4]], example_round [entry TESTING_END 0 0 0 0 3])]"

lemma example_session:
  "byte_session (traces example_rounds) byte_init = Some [ConsistencyBug, NotPersistedBeforeFailure]"
proof -
  have k: "(0x10000000040 :: addr_t) \<in> bytes 0x10000000040 8" by (simp add: bytes_def)
  show ?thesis
    by (simp add: traces_def example_input_def example_round_def byte_defs byte_init_def MAX_THREADS_def stage_defs
        Let_def bytes_empty)
      (rule unpersisted_read_bugs [of "0x10000000040"]; use k in \<open>auto simp: put_def\<close>)
qed

lemma example_well_played: "well_played example_host example_ctrl example_fifo example_rounds"
proof -
  have "whole_read (example_input ops) \<longleftrightarrow> length ops \<le> 1024" for ops
    by (simp add: whole_read_def example_input_def FIFO_BUF_ENTRIES_def)
  then show ?thesis
    by (simp add: well_played_def example_answers pre_ends_def post_ends_def fifo_wf_def example_fifo_def)
      (simp add: example_input_def example_round_def pre_ends_def post_ends_def PRE_FAILURE_FIFO_TIMEOUT_def)
qed


section \<open>Pieces, silence and failing reads\<close>

text \<open>
  C28. The pieces in which the pipe delivers a trace do not matter: for two ways to cut the same trace
  into reads, the loop before the failure ends with the same flags, the same shadow and the same
  reports, and leaves the reads that follow for the next round.
\<close>

theorem chunks_do_not_matter:
  assumes "chunks_until pre_ends rs" "chunks_until pre_ends rs'" "trace_of rs = trace_of rs'"
    and "timely start rs" "timely start' rs'" "fifo_wf F" "fifo_wf F'"
    and "\<not> (pre_failure_point_complete (fst ds) \<or> pre_testing_complete (fst ds))"
    and "run_trace E PRE_FAILURE (trace_of rs) ds = Inr (ds1, es)"
  shows "\<exists>G G'. pre_loop E (rs @ rest) start F ds = Inr (Some (rest, G, ds1), map Report es) \<and>
      pre_loop E (rs' @ rest) start' F' ds = Inr (Some (rest, G', ds1), map Report es)"
  using pre_loop_chunks [OF assms(1,4,6,8,9)] pre_loop_chunks [OF assms(2,5,7,8) assms(9) [unfolded assms(3)]]
  by blast

theorem chunks_do_not_matter_witness:
  "\<exists>G G' ds1 es. pre_loop example_env
        ([example_input [entry SFENCE 0 0 0 0 1, entry TRACE_END 0 0 0 0 2]] @ []) 0 example_fifo
        (detector_init, ShadowPM_new example_env) = Inr (Some ([], G, ds1), map Report es) \<and>
      pre_loop example_env
        ([example_input [entry SFENCE 0 0 0 0 1], example_input [entry TRACE_END 0 0 0 0 2]] @ []) 0 example_fifo
        (detector_init, ShadowPM_new example_env) = Inr (Some ([], G', ds1), map Report es)"
proof -
  let ?ops = "[entry SFENCE 0 0 0 0 1, entry TRACE_END 0 0 0 0 2]"
  obtain b where "byte_run PRE_FAILURE ?ops (shadow_abs example_env (ShadowPM_new example_env)) = Some b"
    by (simp add: byte_defs byte_init_def MAX_THREADS_def stage_defs example_abs Let_def)
  from shadow_env.run_trace_step [OF example_env example_new example_files this, of detector_init]
  obtain ds1 es where run: "run_trace example_env PRE_FAILURE ?ops (detector_init, ShadowPM_new example_env) = Inr (ds1, es)"
    by blast
  have "fifo_wf example_fifo" by (simp add: fifo_wf_def example_fifo_def)
  then have "\<exists>G G'. pre_loop example_env ([example_input ?ops] @ []) 0 example_fifo
        (detector_init, ShadowPM_new example_env) = Inr (Some ([], G, ds1), map Report es) \<and>
      pre_loop example_env ([example_input [entry SFENCE 0 0 0 0 1], example_input [entry TRACE_END 0 0 0 0 2]] @ []) 0
        example_fifo (detector_init, ShadowPM_new example_env) = Inr (Some ([], G', ds1), map Report es)"
    using run
    by (intro chunks_do_not_matter)
      (simp_all add: example_input_def whole_read_def FIFO_BUF_ENTRIES_def pre_ends_def
        PRE_FAILURE_FIFO_TIMEOUT_def detector_init_def)
  then show ?thesis by blast
qed





text \<open>
  A failing \<open>read\<close> is not noticed: the byte count \<open>-1\<close> becomes a huge unsigned bound, and the
  loop runs through the cleared buffer and out of it.
\<close>

lemma failed_read_undefined:
  assumes "pre_fifo_buf F = replicate FIFO_BUF_ENTRIES (trace_entry_init 0)"
    and "in_size r = -1" "in_data r = []" "in_end r - in_start r \<le> 15"
    and "\<not> (pre_failure_point_complete (fst ds) \<or> pre_testing_complete (fst ds))"
  shows "pre_loop E (r # rs) start F ds = Inl (UB ''array index'')"
proof -
  have zero: "update_pm_status E PRE_FAILURE (trace_entry_init 0) ds = Inr (ds, [InvalidOps])" for ds
    by (cases ds) (simp add: update_pm_status_def update_shadow_def trace_entry_init_def flag_op_def)
  have "for_buf E PRE_FAILURE m (replicate k (trace_entry_init 0)) ds = Inl (UB ''array index'')" if "k < m" for k m ds
    using that by (induction k arbitrary: m) (simp_all add: zero)
  from this [of FIFO_BUF_ENTRIES "entries_read (-1)" ds] show ?thesis
    using assms by (simp add: pre_fifo_read_def fill_buf_def entries_read_negative FIFO_BUF_ENTRIES_def PRE_FAILURE_FIFO_TIMEOUT_def)
qed

lemma failed_read_undefined_example:
  "pre_loop example_env [\<lparr>in_size = -1, in_data = [], in_start = 0, in_end = 0\<rparr>] 0 example_fifo
     (detector_init, ShadowPM_new example_env) = Inl (UB ''array index'')"
  by (rule failed_read_undefined) (simp_all add: example_fifo_def detector_init_def)

end
