(* ===== verification/XF_Command.thy ===== *)
theory XF_Command
  imports XF_ExeCtrl
begin

text \<open>
  What the execution controller makes of a command line: the round trip between command strings
  and command vectors, the arguments that are accepted and rejected, and the vector the pintool is
  started with.
\<close>

section \<open>Command strings and command vectors\<close>

text \<open>A word that \<open>str2cmd\<close> keeps as it is.\<close>

definition clean_word :: "string \<Rightarrow> bool" where
  "clean_word w \<longleftrightarrow> length w < 1024 \<and> (\<forall>c \<in> set w. c \<noteq> CHR '' '' \<and> c \<noteq> CHR ''%'' \<and> c \<noteq> CHR 0x00)"

fun unwords :: "string list \<Rightarrow> string" where
  "unwords [] = []"
| "unwords [w] = w"
| "unwords (w # v # ws) = w @ '' '' @ unwords (v # ws)"

lemma cmd2str_unwords: "ws \<noteq> [] \<Longrightarrow> cmd2str ws = unwords ws @ '' ''"
  by (induction ws rule: unwords.induct) (simp_all add: cmd2str_def)

lemma unwords_append: "vs \<noteq> [] \<Longrightarrow> ws \<noteq> [] \<Longrightarrow> unwords (vs @ ws) = unwords vs @ '' '' @ unwords ws"
proof (induction vs rule: unwords.induct)
  case (2 w)
  then show ?case by (cases ws) simp_all
qed simp_all

lemma split_words_word: "\<forall>c \<in> set w. c \<noteq> CHR '' '' \<Longrightarrow> split_words tmp w = [tmp @ w]"
  by (induction w arbitrary: tmp) simp_all

lemma split_words_blank:
  "\<forall>c \<in> set w. c \<noteq> CHR '' '' \<Longrightarrow> split_words tmp (w @ CHR '' '' # s) = (tmp @ w) # split_words [] s"
  by (induction w arbitrary: tmp) simp_all

lemma split_unwords:
  "ws \<noteq> [] \<Longrightarrow> \<forall>w \<in> set ws. \<forall>c \<in> set w. c \<noteq> CHR '' '' \<Longrightarrow> split_words [] (unwords ws) = ws"
  by (induction ws rule: unwords.induct) (simp_all add: split_words_word split_words_blank)

lemma expand_plain: "\<forall>c \<in> set s. c \<noteq> CHR ''%'' \<Longrightarrow> expand_format s = xret s"
  by (induction s) simp_all

lemma c_str_clean: "clean_word w \<Longrightarrow> c_str w = w"
  unfolding c_str_def clean_word_def takeWhile_eq_all_conv by blast

lemma alloc_print_clean: "clean_word w \<Longrightarrow> alloc_print w = xret w"
  by (simp add: alloc_print_def c_str_clean) (simp add: clean_word_def expand_plain)

lemma alloc_words_clean: "\<forall>w \<in> set ws. clean_word w \<Longrightarrow> alloc_words ws = xret ws"
  by (induction ws) (simp_all add: alloc_print_clean)

text \<open>
  The string of a command vector splits into that vector again, when no word holds a blank, a
  percent sign or a null character, no word is longer than 1023 characters and there are at most
  1023 words.
\<close>

lemma str2cmd_cmd2str:
  assumes "ws \<noteq> []" and "length ws < 1024" and "\<forall>w \<in> set ws. clean_word w"
  shows "str2cmd (butlast (cmd2str ws)) = xret ws"
proof -
  have "butlast (cmd2str ws) = unwords ws"
    using assms(1) by (simp add: cmd2str_unwords butlast_append)
  moreover have "split_words [] (unwords ws) = ws"
    using assms(1,3) by (intro split_unwords) (auto simp: clean_word_def)
  ultimately show ?thesis
    using assms by (simp add: str2cmd_def alloc_words_clean)
qed

lemma str2cmd_cmd2str_example:
  "str2cmd (butlast (cmd2str [''ls'', ''-l'', ''/tmp''])) = xret [''ls'', ''-l'', ''/tmp'']"
  by (rule str2cmd_cmd2str) (auto simp: clean_word_def)

section \<open>Parsing\<close>

lemma parse_args_keeps:
  assumes "parse_args i args pool C = Inr ((pool', C'), es)"
  shows "pin_pre_failure_option C' = pin_pre_failure_option C \<and>
    pin_post_failure_option C' = pin_post_failure_option C \<and> exec_id C' = exec_id C"
  using assms
proof (induction i args pool C rule: parse_args.induct)
  case (2 i arg args pool C)
  then show ?case
    by (auto simp: Let_def err_and_exit_def xret_def split: if_splits)
qed (simp add: xret_def)

text \<open>
  The option \<open>--failure-points\<close> has no effect: whatever the arguments are, the pintool
  options after a successful initialisation are those of the execution id alone, although the file
  name was parsed.
\<close>

lemma failure_points_ignored:
  assumes "init new_id args exe_ctrl_init = Inr (C, es)"
  shows "pin_pre_failure_option C = ''-f 1 -t 1 '' @ (if new_id \<ge> 0 then ''-i '' @ to_string new_id else [])"
  using assms
  by (auto simp: init_def exe_ctrl_init_def parse_exec_command_def err_and_exit_def Let_def xbind_eq_Inr
      pin_flag_defs xret_def dest!: parse_args_keeps split: if_splits)

text \<open>The witness parses the option and still builds the same pintool options.\<close>

abbreviation example_args :: "string list" where
  "example_args \<equiv> [''xfdetector'', ''tool.so'', ''7'', ''--failure-points=fp'', ''--'', ''prog'', ''__POOL_IMAGE__'']"

lemma example_init:
  "\<exists>C es. init 7 example_args exe_ctrl_init = Inr (C, es) \<and> failure_point_file C = ''fp'' \<and>
     pintool_path C = ''tool.so'' \<and> target_cmd C = [''prog'', ''__POOL_IMAGE__''] \<and>
     pm_image_name C = ''7'' \<and> pre_failure_exec_command C = ''prog 7''"
  by (simp add: init_def exe_ctrl_init_def parse_exec_command_def rename_pool_img_def Let_def
      POOL_IMAGE_IDENTIFIER_def str_contains_def str_prefix_def xret_def)

lemma failure_points_ignored_example:
  "\<exists>C es. init 7 example_args exe_ctrl_init = Inr (C, es) \<and> failure_point_file C = ''fp'' \<and>
     pin_pre_failure_option C = ''-f 1 -t 1 -i '' @ to_string 7"
proof -
  obtain C es where "init 7 example_args exe_ctrl_init = Inr (C, es)" "failure_point_file C = ''fp''"
    using example_init by blast
  with failure_points_ignored [OF this(1)] show ?thesis by simp
qed

lemma index_not_less:
  assumes "k < l" and "l < 2 ^ 64"
  shows "\<not> (of_nat l - 1 :: sz_t) < of_nat k"
proof -
  obtain m where l: "l = Suc m" using assms(1) by (cases l) auto
  have "unat (of_nat m :: sz_t) = m" "unat (of_nat k :: sz_t) = k"
    using assms l by (simp_all add: unat_of_nat)
  then show ?thesis
    using assms(1) by (simp add: l word_less_nat_alt)
qed

lemma find_separator_append: "''--'' \<notin> set as \<Longrightarrow> find_separator (as @ ''--'' # bs) = Some (length as)"
  by (induction as) auto

lemma parse_args_options:
  assumes "''--'' \<notin> set opts" and "cmd \<noteq> []" and "3 \<le> i"
  shows "\<exists>f. parse_args i (opts @ ''--'' # cmd) pool C = xret (pool, C\<lparr>failure_point_file := f, target_cmd := cmd\<rparr>)"
  using assms
proof (induction opts arbitrary: i C)
  case Nil
  then show ?case by (intro exI [of _ "failure_point_file C"]) (simp add: Let_def)
next
  case (Cons a opts)
  from Cons.prems Cons.IH [of "Suc i" "C\<lparr>failure_point_file := drop (length ''--failure-points='') a\<rparr>"] Cons.IH [of "Suc i" C]
  show ?case by (auto simp: Let_def)
qed

lemma parse_args_wellformed:
  assumes "prog \<noteq> ''--''" and "''--'' \<notin> set opts" and "cmd \<noteq> []"
  shows "\<exists>f. parse_args 0 (prog # tool # img # opts @ ''--'' # cmd) [] C =
    xret (img, C\<lparr>pintool_path := tool, failure_point_file := f, target_cmd := cmd\<rparr>)"
proof -
  have "\<exists>f. parse_args 0 (prog # tool # img # opts @ ''--'' # cmd) [] C =
      parse_args 3 (opts @ ''--'' # cmd) img (C\<lparr>failure_point_file := f, pintool_path := tool\<rparr>)"
  proof (cases "take (length ''--failure-points='') prog = ''--failure-points=''")
    case False
    with assms(1) show ?thesis
      by (intro exI [of _ "failure_point_file C"]) (simp add: numeral_3_eq_3)
  next
    case True
    with assms(1) show ?thesis by (auto simp: numeral_3_eq_3)
  qed
  then obtain f where f: "parse_args 0 (prog # tool # img # opts @ ''--'' # cmd) [] C =
      parse_args 3 (opts @ ''--'' # cmd) img (C\<lparr>failure_point_file := f, pintool_path := tool\<rparr>)" ..
  from parse_args_options [OF assms(2,3), of 3 img "C\<lparr>failure_point_file := f, pintool_path := tool\<rparr>"] f
  show ?thesis by auto
qed

lemma fold_last_match:
  assumes "P w" and "\<forall>v \<in> set post. \<not> P v"
  shows "fold (\<lambda>v name. if P v then f v else name) (pre @ w # post) name = f w"
proof -
  have "fold (\<lambda>v name. if P v then f v else name) post n = n" for n
    using assms(2) by (induction post) auto
  with assms(1) show ?thesis by simp
qed

text \<open>The target command with its image replaced.\<close>

definition renamed :: "string \<Rightarrow> string list \<Rightarrow> string list" where
  "renamed img cmd = map (\<lambda>w. if str_contains POOL_IMAGE_IDENTIFIER w then img else w) cmd"

lemma rename_pool_img_unwords:
  assumes "target_cmd C \<noteq> []"
  shows "rename_pool_img img C = xret (unwords (renamed img (target_cmd C)))"
proof -
  have "concat (map (\<lambda>w. (if str_contains POOL_IMAGE_IDENTIFIER w then img else w) @ '' '') (target_cmd C)) =
      unwords (renamed img (target_cmd C)) @ '' ''"
    using assms cmd2str_unwords [of "renamed img (target_cmd C)"]
    by (simp add: renamed_def cmd2str_def comp_def)
  then show ?thesis by (simp add: rename_pool_img_def butlast_append)
qed



text \<open>
  A command line of at least four words without the separator is not rejected: the target
  command stays empty, and building the command of the first run is undefined behaviour.
\<close>

lemma missing_separator_undefined:
  assumes "''--'' \<notin> set args" and "4 \<le> length args" "length args < 2 ^ 64"
  shows "parse_exec_command args exe_ctrl_init = Inl (UB ''string iterator'')"
proof -
  have none: "find_separator args = None" using assms(1) by (induction args) auto
  have guard: "\<not> (of_nat (length args) - 1 :: sz_t) < 3"
    using index_not_less [of 3 "length args"] assms(2,3) by simp
  have "\<exists>r C'. parse_args i as pool C = xret (r, C') \<and> target_cmd C' = target_cmd C"
    if "''--'' \<notin> set as" for i as pool C
    using that by (induction i as pool C rule: parse_args.induct) (auto simp: Let_def)
  from this [OF assms(1), of 0 "[]" exe_ctrl_init] obtain r C' where
    "parse_args 0 args [] exe_ctrl_init = xret (r, C')" "target_cmd C' = []"
    by (auto simp: exe_ctrl_init_def)
  then show ?thesis
    unfolding parse_exec_command_def none option.case
    using guard by (simp add: rename_pool_img_def Let_def)
qed

lemma missing_separator_undefined_example:
  "parse_exec_command [''xfd'', ''tool.so'', ''pool'', ''prog''] exe_ctrl_init = Inl (UB ''string iterator'')"
  by (rule missing_separator_undefined) simp_all

section \<open>The command of the pintool\<close>

lemma str2cmd_unwords:
  "ws \<noteq> [] \<Longrightarrow> length ws < 1024 \<Longrightarrow> \<forall>w \<in> set ws. clean_word w \<Longrightarrow> str2cmd (unwords ws) = xret ws"
  by (auto simp: str2cmd_def split_unwords alloc_words_clean clean_word_def)

lemma length_nat_str: "n < 10 ^ Suc k \<Longrightarrow> length (nat_str n) \<le> Suc k"
proof (induction k arbitrary: n)
  case 0
  then show ?case by (simp add: nat_str.simps)
next
  case (Suc k)
  then have "n div 10 < 10 ^ Suc k" by (simp add: less_mult_imp_div_less mult.commute)
  with Suc.IH [of "n div 10"] show ?case by (subst nat_str.simps) simp
qed

lemma clean_to_string:
  assumes "0 \<le> i" and "i < 2147483648"
  shows "clean_word (to_string i)"
proof -
  have "length (nat_str (nat i)) \<le> Suc 9" using assms by (intro length_nat_str) simp
  moreover have "c \<noteq> CHR '' '' \<and> c \<noteq> CHR ''%'' \<and> c \<noteq> CHR 0x00" if "c \<in> set (nat_str (nat i))" for c
    using nat_str_digits [OF that] by (auto simp: is_digit_def)
  ultimately show ?thesis using assms by (auto simp: clean_word_def to_string_def)
qed

text \<open>
  The vector the first run is started with: the pin binary, the tool, the options for failures,
  tracing and the execution id, and after the separator the words of the target command.
\<close>

lemma pin_command_pre:
  assumes "getenv ''PIN_ROOT'' = Some root" "root \<noteq> []" "clean_word (root @ ''/pin'')" "clean_word (pintool_path C)"
    and "0 \<le> n" "n < 2147483648" "pin_pre_failure_option C = ''-f 1 -t 1 -i '' @ to_string n"
    and "pre_failure_exec_command C = unwords ws" "ws \<noteq> []" "\<forall>w \<in> set ws. clean_word w" "length ws < 1000"
  shows "genPinCommand getenv PRE_FAILURE img C =
    xret (Some ([root @ ''/pin'', ''-t'', pintool_path C, ''-f'', ''1'', ''-t'', ''1'', ''-i'', to_string n, ''--''] @ ws))"
proof -
  let ?ws = "[root @ ''/pin'', ''-t'', pintool_path C, ''-f'', ''1'', ''-t'', ''1'', ''-i'', to_string n, ''--''] @ ws"
  obtain v vs where ws: "ws = v # vs" using assms(9) by (cases ws) auto
  have "root @ ''/pin -t '' @ pintool_path C @ '' '' @ pin_pre_failure_option C @ '' -- '' @
      pre_failure_exec_command C = unwords ?ws"
    using assms(7,8) by (simp add: ws)
  moreover have "\<forall>w \<in> set ?ws. clean_word w"
    using assms clean_to_string [OF assms(5,6)] by (auto simp: clean_word_def)
  then have "str2cmd (unwords ?ws) = xret ?ws"
    using assms(11) by (intro str2cmd_unwords) auto
  ultimately show ?thesis
    using assms(1,2) by (simp add: genPinCommand_def stage_defs)
qed

lemma pin_command_pre_example:
  "genPinCommand (\<lambda>_. Some ''/opt'') PRE_FAILURE ''img''
     (exe_ctrl_init\<lparr>pintool_path := ''t.so'', pin_pre_failure_option := ''-f 1 -t 1 -i '' @ to_string 5,
        pre_failure_exec_command := ''prog img''\<rparr>) =
   xret (Some [''/opt/pin'', ''-t'', ''t.so'', ''-f'', ''1'', ''-t'', ''1'', ''-i'', to_string 5, ''--'', ''prog'', ''img''])"
  by (subst pin_command_pre [where root = "''/opt''" and n = 5 and ws = "[''prog'', ''img'']"])
    (auto simp: clean_word_def exe_ctrl_init_def)

section \<open>The recovery process\<close>

text \<open>
  The recovery is taken as failed only when \<open>waitpid\<close> itself fails: no exit status, not
  even a failing one, and no signal makes the result negative.
\<close>

lemma post_failure_status_negative_iff:
  "post_failure_status waitpid_ret status < 0 \<longleftrightarrow> waitpid_ret = -1"
proof -
  have "0 \<le> WEXITSTATUS status" by (simp add: WEXITSTATUS_def)
  then show ?thesis by (simp add: post_failure_status_def)
qed

end
