(* ===== verification/XF_PinTables.thy ===== *)
theory XF_PinTables
  imports XF_Fifo XF_Shadow
begin

text \<open>
  The tables and classes of \<open>pintool/xfdetector_pintool.hh\<close>: the functions the pintool traces,
  its ends of the pipes, the counter of threads, and the tracker of the region of interest (RoI).
  What PIN and the operating system answer is an argument.
\<close>

section \<open>Traced functions\<close>

datatype pm_op_type = PM_ALLOCATION_FUNC | PM_WRITEBACK_FUNC | PM_LIBRARY_FUNC | PM_LOW_LEVEL_FUNC

record pm_func_t =
  enum_name :: pm_op_t
  func_type :: pm_op_type
  num_args :: int
  arg_src :: int
  arg_dst :: int
  arg_size :: int

definition pm_func :: "pm_op_t \<Rightarrow> pm_op_type \<Rightarrow> int \<Rightarrow> int \<Rightarrow> int \<Rightarrow> int \<Rightarrow> pm_func_t" where
  "pm_func e t n s d z =
     \<lparr>enum_name = e, func_type = t, num_args = n, arg_src = s, arg_dst = d, arg_size = z\<rparr>"

definition pm_function_entries :: "(string \<times> pm_func_t) list" where
  "pm_function_entries =
     [(''pmem_map_file'', pm_func PMEM_MAP_FILE PM_ALLOCATION_FUNC 6 (-1) 6 4),
      (''pmem_unmap'', pm_func PMEM_UNMAP PM_ALLOCATION_FUNC 2 0 (-1) 1),
      (''pm_trace_pm_addr_add'', pm_func PM_TRACE_PM_ADDR_ADD PM_LIBRARY_FUNC 2 (-1) 0 1),
      (''pm_trace_pm_addr_remove'', pm_func PM_TRACE_PM_ADDR_REMOVE PM_LIBRARY_FUNC 2 0 (-1) 1),
      (''pm_trace_tx_begin'', pm_func PM_TRACE_TX_BEGIN PM_LIBRARY_FUNC 0 (-1) (-1) (-1)),
      (''pm_trace_tx_end'', pm_func PM_TRACE_TX_END PM_LIBRARY_FUNC 0 (-1) (-1) (-1)),
      (''pm_trace_tx_addr_add'', pm_func PM_TRACE_TX_ADDR_ADD PM_LIBRARY_FUNC 2 (-1) 0 1),
      (''pm_trace_tx_alloc'', pm_func PM_TRACE_TX_ALLOC PM_LIBRARY_FUNC 2 (-1) 0 1),
      (''clwb'', pm_func CLWB PM_WRITEBACK_FUNC 2 0 (-1) 1),
      (''flush_clwb_nolog'', pm_func CLWB PM_WRITEBACK_FUNC 2 0 (-1) 1),
      (''flush_clflush_nolog'', pm_func CLWB PM_WRITEBACK_FUNC 2 0 (-1) 1),
      (''flush_clflushopt_nolog'', pm_func CLWB PM_WRITEBACK_FUNC 2 0 (-1) 1),
      (''sfence'', pm_func SFENCE PM_WRITEBACK_FUNC 0 (-1) (-1) (-1)),
      (''predrain_memory_barrier'', pm_func SFENCE PM_WRITEBACK_FUNC 0 (-1) (-1) (-1)),
      (''_add_commit_var'', pm_func ADD_COMMIT_VAR PM_LOW_LEVEL_FUNC 2 0 (-1) 1)]"

definition failure_point_funcs_array :: "string list" where
  "failure_point_funcs_array = [''pmfuzz_inject_failure'']"

text \<open>
  \<open>pm_func_init\<close> fills the two tables in the order of the arrays, a later entry replacing an
  earlier one.
\<close>

definition pm_func_init :: "(string \<rightharpoonup> pm_func_t) \<times> (string \<rightharpoonup> bool)" where
  "pm_func_init =
     (fold (\<lambda>e m. m(fst e \<mapsto> snd e)) pm_function_entries Map.empty,
      fold (\<lambda>f m. m(f \<mapsto> True)) failure_point_funcs_array Map.empty)"

text \<open>\<open>operator[]\<close>: an absent key yields a zero-initialised entry.\<close>

definition pm_functions :: "string \<Rightarrow> pm_func_t" where
  "pm_functions name =
     (case fst pm_func_init name of
        Some f \<Rightarrow> f
      | None \<Rightarrow> pm_func INVALID PM_ALLOCATION_FUNC 0 0 0 0)"

definition is_failure_point_func :: "string \<Rightarrow> bool" where
  "is_failure_point_func name \<longleftrightarrow> snd pm_func_init name \<noteq> None"

section \<open>The state of the pintool\<close>

text \<open>
  The global variables of \<open>pintool.cpp\<close> and of the headers it includes. The table of selected
  failure points is the list of its keys. The null pointer is zero. A routine that ends with
  \<open>exit\<close> after it has sent something notes the exit code in the state.
\<close>

record 'is pintool =
  stage :: int
  read_enable :: bool
  failure_enable :: bool
  failure_list_enable :: bool
  fifo_enable :: bool
  failure_map :: "int list"
  cur_failure_id :: int
  skip_failure :: bool
  failure_point_count :: int
  roi_tid :: "64 word"
  roi_tid_set :: bool
  thread_count :: int
  active_thread :: "bool list"
  pm_addr_set :: 'is
  pm_alloc_size_ptr :: addr_t
  execIDStr :: string
  pin_fifo_str :: string
  pin_signal_str :: string
  trace_fd :: "int option"
  signal_fd :: "int option"
  exit_code :: "int option"

text \<open>Static storage is zero where no initialiser is given.\<close>

definition pintool_init :: "'is icl_set_ops \<Rightarrow> 'is pintool" where
  "pintool_init S =
     \<lparr>stage = 0, read_enable = False, failure_enable = False, failure_list_enable = False,
      fifo_enable = False, failure_map = [], cur_failure_id = -1, skip_failure = False,
      failure_point_count = 0, roi_tid = 0, roi_tid_set = False, thread_count = 0,
      active_thread = replicate MAX_THREADS False, pm_addr_set = is_empty_set S,
      pm_alloc_size_ptr = 0, execIDStr = [], pin_fifo_str = [], pin_signal_str = [],
      trace_fd = None, signal_fd = None, exit_code = None\<rparr>"

text \<open>
  What the pintool does to the outside: trace entries put into the pipe, lines of its files, threads
  stopped and resumed, text for the console.
\<close>

datatype pin_msg =
    Trace trace_entry
  | BtText string
  | FuncMapText string
  | StopThreads "64 word"
  | ResumeThreads "64 word"
  | PinConsole string
  | PinSys sys_call

text \<open>
  The host of the pintool: how many bytes a \<open>write\<close> of an entry returns, what \<open>open\<close> returns,
  and the content of the memory of the program.
\<close>

record pin_host =
  trace_write :: "trace_entry \<Rightarrow> int"
  pin_open :: "string \<Rightarrow> int"
  deref :: "addr_t \<Rightarrow> 64 word"

section \<open>The trace pipe\<close>

definition pinfifo_open :: "pin_host \<Rightarrow> string \<Rightarrow> 'is pintool \<Rightarrow> (pin_msg, int \<times> 'is pintool) outcome" where
  "pinfifo_open H fifo_name P =
     (if pin_open H fifo_name < 0 then Inl (Abort ''PINFifo open failed.'')
      else Inr ((pin_open H fifo_name, P\<lparr>trace_fd := Some (pin_open H fifo_name)\<rparr>), [PinSys (OpenFifo fifo_name)]))"

definition pinfifo_close :: "'is pintool \<Rightarrow> (pin_msg, unit) outcome" where
  "pinfifo_close P =
     (case trace_fd P of None \<Rightarrow> Inl (UB ''uninitialised file descriptor'') | Some n \<Rightarrow> Inr ((), [PinSys (CloseFd n)]))"

text \<open>
  The result of \<open>write\<close> is converted to an unsigned 32-bit number before the comparison, so the
  result \<open>-1\<close> of a call that wrote nothing is not found too small.
\<close>

definition pinfifo_write :: "pin_host \<Rightarrow> trace_entry \<Rightarrow> 'is pintool \<Rightarrow> (pin_msg, int) outcome" where
  "pinfifo_write H trace P =
     (if fifo_enable P then
        (if (ucast (of_int (trace_write H trace) :: 32 word) :: sz_t) < sizeof_trace_entry then Inl (Exit 0)
         else Inr (trace_write H trace, if trace_write H trace < 0 then [] else [Trace trace]))
      else xret 0)"

definition pinfifo_init :: "pin_host \<Rightarrow> int \<Rightarrow> 'is pintool \<Rightarrow> (pin_msg, 'is pintool) outcome" where
  "pinfifo_init H st P =
     (let P1 = (if st = PRE_FAILURE then P\<lparr>pin_fifo_str := ''/tmp/'' @ PRE_FAILURE_FIFO @ ''.'' @ execIDStr P\<rparr>
                else if st = POST_FAILURE then P\<lparr>pin_fifo_str := ''/tmp/'' @ POST_FAILURE_FIFO @ ''.'' @ execIDStr P\<rparr>
                else P)
      in xbind (pinfifo_open H (pin_fifo_str P1) P1) (\<lambda>(fd, P2).
         if fd < 0 then Inl (Abort ''PINFifo open failed.'') else xret P2))"

section \<open>The signal pipe\<close>

definition signalfifo_open :: "pin_host \<Rightarrow> 'is pintool \<Rightarrow> (pin_msg, int \<times> 'is pintool) outcome" where
  "signalfifo_open H P =
     (let P1 = P\<lparr>pin_signal_str := ''/tmp/'' @ SIGNAL_FIFO @ ''.'' @ execIDStr P\<rparr>;
          fd = pin_open H (pin_signal_str P1)
      in if fd < 0 then Inl (Abort ''SignalFifo open failed.'')
         else Inr ((fd, P1\<lparr>signal_fd := Some fd\<rparr>), [PinSys (OpenFifo (pin_signal_str P1))]))"

definition signalfifo_init :: "pin_host \<Rightarrow> 'is pintool \<Rightarrow> (pin_msg, 'is pintool) outcome" where
  "signalfifo_init H P =
     xbind (signalfifo_open H P) (\<lambda>(fd, P1).
     if fd < 0 then Inl (Abort ''PINFifo open failed.'') else xret P1)"

definition signalfifo_close :: "'is pintool \<Rightarrow> (pin_msg, unit) outcome" where
  "signalfifo_close P =
     (case signal_fd P of None \<Rightarrow> Inl (UB ''uninitialised file descriptor'') | Some n \<Rightarrow> Inr ((), [PinSys (CloseFd n)]))"

definition pin_signal_send :: "int \<Rightarrow> string \<Rightarrow> 'is pintool \<Rightarrow> (pin_msg, int) outcome" where
  "pin_signal_send num_written message P =
     (case signal_fd P of
        None \<Rightarrow> Inl (UB ''uninitialised file descriptor'')
      | Some n \<Rightarrow>
          if num_written < 0 then Inl (Abort ''SignalFifo write failed.'')
          else Inr (num_written, [PinSys (WriteFd n message)]))"

text \<open>One \<open>read\<close> of the signal pipe gave a byte count and filled the front of the buffer.\<close>

definition pin_signal_recv :: "int \<times> string \<Rightarrow> string \<Rightarrow> (pin_msg, int \<times> string) outcome" where
  "pin_signal_recv answer buf =
     (if fst answer < 0 then Inl (Abort ''SignalFifo read failed.'')
      else xret (fst answer, snd answer @ drop (length (snd answer)) buf))"

section \<open>Threads\<close>

definition thread_increment :: "32 word \<Rightarrow> 'is pintool \<Rightarrow> (pin_msg, 'is pintool) outcome" where
  "thread_increment t P =
     xbind (int_inc (thread_count P)) (\<lambda>n.
     if idx_ok (active_thread P) (uint t)
     then xret (P\<lparr>thread_count := n, active_thread := arr_set (active_thread P) (uint t) True\<rparr>)
     else Inl (UB ''array index''))"

definition thread_decrement :: "32 word \<Rightarrow> 'is pintool \<Rightarrow> (pin_msg, 'is pintool) outcome" where
  "thread_decrement t P =
     xassert (thread_count P > 0) ''count > 0''
     (if idx_ok (active_thread P) (uint t)
      then xret (P\<lparr>thread_count := thread_count P - 1, active_thread := arr_set (active_thread P) (uint t) False\<rparr>)
      else Inl (UB ''array index''))"

section \<open>The region of interest\<close>

definition trySetRoIThread :: "64 word \<Rightarrow> 'is pintool \<Rightarrow> bool \<times> 'is pintool" where
  "trySetRoIThread t P =
     (if \<not> roi_tid_set P then (True, P\<lparr>roi_tid_set := True, roi_tid := t\<rparr>) else (False, P))"

definition unsetRoIThread :: "64 word \<Rightarrow> 'is pintool \<Rightarrow> (pin_msg, 'is pintool) outcome" where
  "unsetRoIThread t P =
     (if roi_tid P = t then
        xassert (roi_tid_set P) ''RoI has not been pinned to one thread'' (xret (P\<lparr>roi_tid_set := False\<rparr>))
      else xret P)"

definition isInRoI :: "64 word \<Rightarrow> 'is pintool \<Rightarrow> bool" where
  "isInRoI t P \<longleftrightarrow> t = roi_tid P \<and> roi_tid_set P"

section \<open>Lemmas on the tables\<close>

lemma pm_functions_names:
  "pm_functions ''pmem_map_file'' = pm_func PMEM_MAP_FILE PM_ALLOCATION_FUNC 6 (-1) 6 4"
  "pm_functions ''pmem_unmap'' = pm_func PMEM_UNMAP PM_ALLOCATION_FUNC 2 0 (-1) 1"
  "pm_functions ''pm_trace_pm_addr_add'' = pm_func PM_TRACE_PM_ADDR_ADD PM_LIBRARY_FUNC 2 (-1) 0 1"
  "pm_functions ''pm_trace_pm_addr_remove'' = pm_func PM_TRACE_PM_ADDR_REMOVE PM_LIBRARY_FUNC 2 0 (-1) 1"
  "pm_functions ''pm_trace_tx_begin'' = pm_func PM_TRACE_TX_BEGIN PM_LIBRARY_FUNC 0 (-1) (-1) (-1)"
  "pm_functions ''pm_trace_tx_end'' = pm_func PM_TRACE_TX_END PM_LIBRARY_FUNC 0 (-1) (-1) (-1)"
  "pm_functions ''pm_trace_tx_addr_add'' = pm_func PM_TRACE_TX_ADDR_ADD PM_LIBRARY_FUNC 2 (-1) 0 1"
  "pm_functions ''pm_trace_tx_alloc'' = pm_func PM_TRACE_TX_ALLOC PM_LIBRARY_FUNC 2 (-1) 0 1"
  "pm_functions ''clwb'' = pm_func CLWB PM_WRITEBACK_FUNC 2 0 (-1) 1"
  "pm_functions ''_add_commit_var'' = pm_func ADD_COMMIT_VAR PM_LOW_LEVEL_FUNC 2 0 (-1) 1"
  by (simp_all add: pm_functions_def pm_func_init_def pm_function_entries_def)

lemma is_failure_point_func_iff [simp]: "is_failure_point_func name \<longleftrightarrow> name = ''pmfuzz_inject_failure''"
  by (auto simp: is_failure_point_func_def pm_func_init_def failure_point_funcs_array_def)

end
