(* ===== verification/XF_Pintool.thy ===== *)
theory XF_Pintool
  imports XF_PinTables
begin

text \<open>
  The analysis routines of the pintool, which run inside the program under test: the recorders of
  \<open>xfdetector_pmem.hh\<close> and \<open>xfdetector_tx.hh\<close>, and the handlers of \<open>pintool.cpp\<close> for the
  region of interest and the failure points. A routine takes the host, the values PIN passes to it
  and the state.
\<close>

section \<open>Entries\<close>

text \<open>The 64-bit thread number is assigned to a field of type \<open>int\<close>.\<close>

definition tid_int :: "64 word \<Rightarrow> int" where
  "tid_int t = sint (ucast t :: 32 word)"

definition assert_tid :: "64 word \<Rightarrow> (pin_msg, 'a) outcome \<Rightarrow> (pin_msg, 'a) outcome" where
  "assert_tid t m = xassert (unat t < MAX_THREADS) ''tid < MAX_THREADS'' m"

text \<open>The end of every recorder: the operation must not be the invalid one, and the entry is sent.\<close>

definition send_entry :: "pin_host \<Rightarrow> trace_entry \<Rightarrow> 'is pintool \<Rightarrow> (pin_msg, 'is pintool) outcome" where
  "send_entry H e P =
     xassert (operation e \<noteq> INVALID) ''0!=trace_entry.operation''
     (xbind (pinfifo_write H e P) (\<lambda>_. xret P))"

section \<open>Recording instructions\<close>

definition recordPmemRead ::
  "pin_host \<Rightarrow> addr_t \<Rightarrow> addr_t \<Rightarrow> sz_t \<Rightarrow> 64 word \<Rightarrow> 'is pintool \<Rightarrow> (pin_msg, 'is pintool) outcome" where
  "recordPmemRead H ip addr sz t P =
     (if \<not> isInRoI t P then xret P
      else assert_tid t
        (if isPmemAddr addr sz then
           send_entry H ((trace_entry_init (tid_int t))\<lparr>operation := READ, func_ret := False,
             src_addr := addr, size_of := sz, instr_ptr := ip\<rparr>) P
         else xret P))"

definition recordPmemWrite ::
  "pin_host \<Rightarrow> addr_t \<Rightarrow> addr_t \<Rightarrow> sz_t \<Rightarrow> 64 word \<Rightarrow> bool \<Rightarrow> 'is pintool \<Rightarrow> (pin_msg, 'is pintool) outcome" where
  "recordPmemWrite H ip addr sz t is_non_temporal_write P =
     assert_tid t
     (if isPmemAddr addr sz then
        xassert (addr \<noteq> 0) ''Cannot write address=0''
        (send_entry H ((trace_entry_init (tid_int t))\<lparr>operation := WRITE, func_ret := False,
           dst_addr := addr, size_of := sz, instr_ptr := ip,
           non_temporal := (if is_non_temporal_write then 1 else 0)\<rparr>) P)
      else xret P)"

section \<open>Recording functions\<close>

definition recordPmemWriteback ::
  "pin_host \<Rightarrow> string \<Rightarrow> addr_t \<Rightarrow> 64 word \<Rightarrow> 64 word \<Rightarrow> 64 word \<Rightarrow> 'is pintool \<Rightarrow> (pin_msg, 'is pintool) outcome" where
  "recordPmemWriteback H rtnName return_ip t arg1 arg2 P =
     (if arg2 = 0 then xret P
      else assert_tid t
        (xassert (arg1 \<noteq> 0) ''Cannot flush address=0''
          (send_entry H ((trace_entry_init (tid_int t))\<lparr>operation := CLWB, func_ret := False,
             src_addr := arg1, size_of := arg2, instr_ptr := return_ip\<rparr>) P)))"

definition recordPmemFence ::
  "pin_host \<Rightarrow> string \<Rightarrow> addr_t \<Rightarrow> 64 word \<Rightarrow> 'is pintool \<Rightarrow> (pin_msg, 'is pintool) outcome" where
  "recordPmemFence H rtnName return_ip t P =
     xemit (if rtnName \<noteq> ''predrain_memory_barrier''
            then [PinConsole (''Wrong sfence function. Funct name: '' @ rtnName)] else [])
     (assert_tid t
       (send_entry H ((trace_entry_init (tid_int t))\<lparr>operation := SFENCE, func_ret := False,
          instr_ptr := return_ip\<rparr>) P))"

definition recordPmemAllocation ::
  "pin_host \<Rightarrow> string \<Rightarrow> addr_t \<Rightarrow> 64 word \<Rightarrow> addr_t \<Rightarrow> 'is pintool \<Rightarrow> (pin_msg, 'is pintool) outcome" where
  "recordPmemAllocation H rtnName return_ip t size_ptr P =
     xassert (func_type (pm_functions rtnName) = PM_ALLOCATION_FUNC) ''PM_ALLOCATION_FUNC''
     (assert_tid t
       (send_entry H ((trace_entry_init (tid_int t))\<lparr>operation := enum_name (pm_functions rtnName),
          func_ret := False, instr_ptr := return_ip\<rparr>) (P\<lparr>pm_alloc_size_ptr := size_ptr\<rparr>)))"

definition recordPmemRetAllocation ::
  "'is icl_set_ops \<Rightarrow> pin_host \<Rightarrow> string \<Rightarrow> addr_t \<Rightarrow> 64 word \<Rightarrow> addr_t \<Rightarrow> 'is pintool \<Rightarrow> (pin_msg, 'is pintool) outcome" where
  "recordPmemRetAllocation S H rtnName return_ip t addr P =
     assert_tid t
     (xassert (pm_alloc_size_ptr P \<noteq> 0) ''size pointer is invalid''
       (let interval_size = deref H (pm_alloc_size_ptr P);
            P1 = P\<lparr>pm_alloc_size_ptr := 0, pm_addr_set := is_add S (pm_addr_set P) (closed_ival addr interval_size)\<rparr>
        in send_entry H ((trace_entry_init (tid_int t))\<lparr>operation := enum_name (pm_functions rtnName),
             func_ret := True, dst_addr := addr, size_of := interval_size, instr_ptr := return_ip\<rparr>) P1))"

definition recordPmemDeallocation ::
  "'is icl_set_ops \<Rightarrow> pin_host \<Rightarrow> string \<Rightarrow> addr_t \<Rightarrow> 64 word \<Rightarrow> addr_t \<Rightarrow> sz_t \<Rightarrow> 'is pintool \<Rightarrow> (pin_msg, 'is pintool) outcome" where
  "recordPmemDeallocation S H rtnName return_ip t addr sz P =
     assert_tid t
     (send_entry H ((trace_entry_init (tid_int t))\<lparr>operation := enum_name (pm_functions rtnName),
        func_ret := False, src_addr := addr, size_of := sz, instr_ptr := return_ip\<rparr>)
        (P\<lparr>pm_addr_set := is_erase S (pm_addr_set P) (closed_ival addr sz)\<rparr>))"

definition recordPmemRetCommon ::
  "pin_host \<Rightarrow> string \<Rightarrow> addr_t \<Rightarrow> 64 word \<Rightarrow> addr_t \<Rightarrow> 'is pintool \<Rightarrow> (pin_msg, 'is pintool) outcome" where
  "recordPmemRetCommon H rtnName return_ip t addr P =
     (if \<not> isInRoI t P then xret P
      else assert_tid t
        (send_entry H ((trace_entry_init (tid_int t))\<lparr>operation := enum_name (pm_functions rtnName),
           func_ret := True, dst_addr := addr, instr_ptr := return_ip\<rparr>) P))"

definition recordCommitVar ::
  "pin_host \<Rightarrow> string \<Rightarrow> addr_t \<Rightarrow> 64 word \<Rightarrow> addr_t \<Rightarrow> sz_t \<Rightarrow> 'is pintool \<Rightarrow> (pin_msg, 'is pintool) outcome" where
  "recordCommitVar H rtnName return_ip t addr sz P =
     assert_tid t
     (send_entry H ((trace_entry_init (tid_int t))\<lparr>operation := enum_name (pm_functions rtnName),
        func_ret := False, src_addr := addr, size_of := sz, instr_ptr := return_ip\<rparr>) P)"

definition recordTXBound ::
  "pin_host \<Rightarrow> string \<Rightarrow> addr_t \<Rightarrow> 64 word \<Rightarrow> 'is pintool \<Rightarrow> (pin_msg, 'is pintool) outcome" where
  "recordTXBound H rtnName return_ip t P =
     assert_tid t
     (send_entry H ((trace_entry_init (tid_int t))\<lparr>operation := enum_name (pm_functions rtnName),
        func_ret := False, instr_ptr := return_ip\<rparr>) P)"

definition recordPmemAllocationTX ::
  "'is icl_set_ops \<Rightarrow> pin_host \<Rightarrow> string \<Rightarrow> addr_t \<Rightarrow> 64 word \<Rightarrow> addr_t \<Rightarrow> sz_t \<Rightarrow> 'is pintool \<Rightarrow> (pin_msg, 'is pintool) outcome" where
  "recordPmemAllocationTX S H rtnName return_ip t addr sz P =
     assert_tid t
     (send_entry H ((trace_entry_init (tid_int t))\<lparr>operation := enum_name (pm_functions rtnName),
        func_ret := False, dst_addr := addr, size_of := sz, instr_ptr := return_ip\<rparr>)
        (P\<lparr>pm_addr_set := is_add S (pm_addr_set P) (closed_ival addr sz)\<rparr>))"

text \<open>The handler of library calls does not check the thread number.\<close>

definition PMDKInternalFunctHandler ::
  "pin_host \<Rightarrow> string \<Rightarrow> 64 word \<Rightarrow> nat \<Rightarrow> 'is pintool \<Rightarrow> (pin_msg, 'is pintool) outcome" where
  "PMDKInternalFunctHandler H func_name t typ P =
     send_entry H ((trace_entry_init (tid_int t))\<lparr>operation :=
       (if typ = pm_op_index PMDK_INTERNAL_CALL then PMDK_INTERNAL_CALL else PMDK_INTERNAL_RET)\<rparr>) P"

section \<open>The region of interest\<close>

text \<open>The entries of this handler are written without the check of the operation.\<close>

definition write_entry :: "pin_host \<Rightarrow> trace_entry \<Rightarrow> 'is pintool \<Rightarrow> (pin_msg, 'is pintool) outcome" where
  "write_entry H e P = xbind (pinfifo_write H e P) (\<lambda>_. xret P)"

definition RoIHandler :: "pin_host \<Rightarrow> string \<Rightarrow> 64 word \<Rightarrow> 'is pintool \<Rightarrow> (pin_msg, 'is pintool) outcome" where
  "RoIHandler H name t P =
     (let e = trace_entry_init (tid_int t) in
      if stage P = PRE_FAILURE then
        (if name = ''_roi_pre_begin'' then xret (snd (trySetRoIThread t P))
         else if name = ''_roi_pre_end'' then unsetRoIThread t P
         else if name = ''_skipDetectionBegin'' then write_entry H (e\<lparr>operation := PM_TRACE_DETECTION_SKIP_BEGIN\<rparr>) P
         else if name = ''_skipDetectionEnd'' then write_entry H (e\<lparr>operation := PM_TRACE_DETECTION_SKIP_END\<rparr>) P
         else if name = ''_testing_pre_complete'' then write_entry H (e\<lparr>operation := TESTING_END\<rparr>) P
         else xret P)
      else
        (if name = ''_roi_post_begin'' then xret (snd (trySetRoIThread t P))
         else if name = ''_roi_post_end'' then unsetRoIThread t P
         else if name = ''_skipDetectionBegin'' then write_entry H (e\<lparr>operation := PM_TRACE_DETECTION_SKIP_BEGIN\<rparr>) P
         else if name = ''_skipDetectionEnd'' then write_entry H (e\<lparr>operation := PM_TRACE_DETECTION_SKIP_END\<rparr>) P
         else if name = ''_testing_post_complete'' then
           xbind (write_entry H (e\<lparr>operation := TESTING_END\<rparr>) P) (\<lambda>P1. xret (P1\<lparr>exit_code := Some 1\<rparr>))
         else xret P))"

section \<open>Failure points\<close>

text \<open>\<open>strncmp(a, b, n) == 0\<close>; a string ends at its null character or at the end of the list.\<close>

definition c_char :: "string \<Rightarrow> char" where
  "c_char s = (case s of [] \<Rightarrow> CHR 0x00 | c # _ \<Rightarrow> c)"

fun strncmp_eq :: "nat \<Rightarrow> string \<Rightarrow> string \<Rightarrow> bool" where
  "strncmp_eq 0 a b \<longleftrightarrow> True"
| "strncmp_eq (Suc n) a b \<longleftrightarrow>
     c_char a = c_char b \<and> (c_char a = CHR 0x00 \<or> strncmp_eq n (tl a) (tl b))"

text \<open>
  The loop over the reads of the signal pipe; the reads that are left are returned, and without an
  accepted read the loop is still waiting. The last character of a read is not compared.
\<close>

fun waitOnSignal ::
  "string \<Rightarrow> string \<Rightarrow> (int \<times> string) list \<Rightarrow> (pin_msg, (int \<times> string) list option) outcome" where
  "waitOnSignal signal buf [] = xret None"
| "waitOnSignal signal buf (a # as) =
     xbind (pin_signal_recv a buf) (\<lambda>(signal_len, buf1).
     if signal_len > 0 \<and> strncmp_eq (nat (signal_len - 1)) buf1 signal then xret (Some as)
     else waitOnSignal signal buf1 as)"

text \<open>
  The injection itself: all threads stop, the detector is told, and the program waits. The result is
  \<open>None\<close> as long as the signal has not come.
\<close>

definition inject_failure ::
  "pin_host \<Rightarrow> string \<Rightarrow> (int \<times> string) list \<Rightarrow> addr_t \<Rightarrow> 64 word \<Rightarrow> 'is pintool \<Rightarrow>
   (pin_msg, ('is pintool \<times> (int \<times> string) list) option) outcome" where
  "inject_failure H buf signals writeIP t P =
     xemit [StopThreads t]
     (xbind (int_inc (failure_point_count P)) (\<lambda>n.
      xbind (write_entry H ((trace_entry_init (tid_int t))\<lparr>operation := TRACE_END, instr_ptr := writeIP\<rparr>)
               (P\<lparr>failure_point_count := n\<rparr>)) (\<lambda>P1.
      xbind (waitOnSignal PIN_CONTINUE_SIGNAL buf signals) (\<lambda>res.
      case res of
        None \<Rightarrow> xret None
      | Some rest \<Rightarrow> xemit [ResumeThreads t] (xret (Some (P1, rest)))))))"

text \<open>A failure point: the failures are numbered even outside the region of interest.\<close>

definition addFailurePoint ::
  "pin_host \<Rightarrow> string \<Rightarrow> (int \<times> string) list \<Rightarrow> addr_t \<Rightarrow> string \<Rightarrow> 64 word \<Rightarrow> 'is pintool \<Rightarrow>
   (pin_msg, ('is pintool \<times> (int \<times> string) list) option) outcome" where
  "addFailurePoint H buf signals writeIP func_name t P =
     xbind (int_inc (cur_failure_id P)) (\<lambda>fid.
     let P1 = P\<lparr>cur_failure_id := fid\<rparr>
     in if \<not> isInRoI t P1 then xret (Some (P1, signals))
        else if failure_list_enable P1 \<and> fid \<notin> set (failure_map P1) then xret (Some (P1, signals))
        else if func_name = ''_skip_failure_point_begin'' then
          xassert (roi_tid P1 = t) ''roi_tracker.roi_tid == tid'' (xret (Some (P1\<lparr>skip_failure := True\<rparr>, signals)))
        else if func_name = ''_skip_failure_point_end'' then
          xassert (roi_tid P1 = t) ''roi_tracker.roi_tid == tid'' (xret (Some (P1\<lparr>skip_failure := False\<rparr>, signals)))
        else inject_failure H buf signals writeIP t P1)"

section \<open>Threads\<close>

definition ThreadStart :: "32 word \<Rightarrow> 'is pintool \<Rightarrow> (pin_msg, 'is pintool) outcome" where
  "ThreadStart t P = thread_increment t P"

definition ThreadFini :: "32 word \<Rightarrow> 'is pintool \<Rightarrow> (pin_msg, 'is pintool) outcome" where
  "ThreadFini t P = thread_decrement t P"

section \<open>The list of failure points\<close>

text \<open>
  \<open>fscanf\<close> with \<open>%d\<close>: white space, an optional sign and digits. A number that does not fit is
  undefined.
\<close>

datatype scan = ScanEOF | ScanNone | ScanInt int string | ScanUB

definition scan_int :: "string \<Rightarrow> scan" where
  "scan_int s =
     (let t = dropWhile is_space s;
          neg = (t \<noteq> [] \<and> hd t = CHR ''-'');
          u = (if t \<noteq> [] \<and> (hd t = CHR ''-'' \<or> hd t = CHR ''+'') then tl t else t);
          v = (if neg then - int (dec_value 0 u) else int (dec_value 0 u))
      in if t = [] then ScanEOF
         else if u = [] \<or> \<not> is_digit (hd u) then ScanNone
         else if v < -2147483648 \<or> v > 2147483647 then ScanUB
         else ScanInt v (dropWhile is_digit u))"

lemma length_dropWhile_less: "u \<noteq> [] \<Longrightarrow> P (hd u) \<Longrightarrow> length (dropWhile P u) < length u"
  by (cases u) (auto simp: le_imp_less_Suc length_dropWhile_le)

lemma scan_int_shorter: "scan_int s = ScanInt v r \<Longrightarrow> length r < length s"
proof -
  assume r: "scan_int s = ScanInt v r"
  let ?t = "dropWhile is_space s"
  let ?u = "if ?t \<noteq> [] \<and> (hd ?t = CHR ''-'' \<or> hd ?t = CHR ''+'') then tl ?t else ?t"
  from r have "?u \<noteq> []" "is_digit (hd ?u)" "r = dropWhile is_digit ?u"
    unfolding scan_int_def Let_def by (auto split: if_splits)
  then have "length r < length ?u" using length_dropWhile_less [of ?u is_digit] by blast
  also have "length ?u \<le> length ?t" by simp
  also have "\<dots> \<le> length s" by (rule length_dropWhile_le)
  finally show ?thesis .
qed

definition MAX_FAILURE_COUNT :: nat where
  "MAX_FAILURE_COUNT = 100000"

function scan_failures :: "string \<Rightarrow> int list \<Rightarrow> (pin_msg, int list) outcome" where
  "scan_failures s m =
     (case scan_int s of
        ScanEOF \<Rightarrow> xret m
      | ScanNone \<Rightarrow> Inl (Abort ''Failure file incorret format'')
      | ScanUB \<Rightarrow> Inl (UB ''fscanf range'')
      | ScanInt failure_id r \<Rightarrow>
          if length m < MAX_FAILURE_COUNT then
            scan_failures r (if failure_id \<in> set m then m else m @ [failure_id])
          else xret m)"
  by pat_completeness auto

termination
  by (relation "measure (\<lambda>(s, m). length s)") (auto dest: scan_int_shorter)

declare scan_failures.simps [simp del]

definition parseFailureList :: "string option \<Rightarrow> 'is pintool \<Rightarrow> (pin_msg, 'is pintool) outcome" where
  "parseFailureList infile P =
     (case infile of
        None \<Rightarrow> Inl (UB ''null pointer'')
      | Some s \<Rightarrow> xbind (scan_failures s (failure_map P)) (\<lambda>m. xret (P\<lparr>failure_map := m\<rparr>)))"

end
