(* ===== verification/XF_Instrument.thy ===== *)
theory XF_Instrument
  imports XF_Pintool
begin

text \<open>
  The instrumentation of the pintool: which analysis routines the instrumentation functions insert
  into which function or instruction of the program under test, how a call of an instrumented
  function runs them, and the function \<open>main\<close> of the pintool. PIN itself is a parameter: it
  gives the name of a function, the values of its arguments, and the operands of an instruction.
\<close>

section \<open>Inserted calls\<close>

datatype ipoint = IPOINT_BEFORE | IPOINT_AFTER

text \<open>
  An analysis routine with the positions of the arguments it is given
  (\<open>IARG_FUNCARG_ENTRYPOINT_VALUE\<close>).
\<close>

datatype routine =
    AddFailurePoint
  | CallRoIHandler
  | RecordPmemAllocation int
  | RecordPmemRetAllocation
  | RecordPmemDeallocation int int
  | RecordPmemRetCommon
  | RecordPmemFence
  | RecordPmemWriteback int int
  | RecordCommitVar int int
  | RecordPmemAllocationTX int int
  | RecordTXBound
  | CallPMDKInternalFunctHandler nat

type_synonym hook = "ipoint \<times> routine"

definition FailurePointInst :: "string \<Rightarrow> hook list" where
  "FailurePointInst func_name =
     (if is_failure_point_func func_name then [(IPOINT_BEFORE, AddFailurePoint)]
      else if func_name = ''_skip_failure_point_begin'' \<or> func_name = ''_skip_failure_point_end''
        then [(IPOINT_AFTER, AddFailurePoint)]
      else [])"

definition RoISelection :: "string \<Rightarrow> hook list" where
  "RoISelection func_name =
     (if func_name = ''_roi_pre_begin'' \<or> func_name = ''_roi_pre_end'' \<or>
         func_name = ''_roi_post_begin'' \<or> func_name = ''_roi_post_end'' \<or>
         func_name = ''_testing_pre_complete'' \<or> func_name = ''_testing_post_complete''
      then [(IPOINT_BEFORE, CallRoIHandler)] else [])"

definition PMOpTraceInstPmem :: "string \<Rightarrow> hook list" where
  "PMOpTraceInstPmem func_name =
     (if func_name = ''pmem_map_file'' then
        [(IPOINT_BEFORE, RecordPmemAllocation (arg_size (pm_functions ''pmem_map_file''))),
         (IPOINT_AFTER, RecordPmemRetAllocation)]
      else if func_name = ''pmem_unmap'' then
        [(IPOINT_BEFORE, RecordPmemDeallocation (arg_src (pm_functions ''pmem_unmap'')) (arg_size (pm_functions ''pmem_unmap''))),
         (IPOINT_AFTER, RecordPmemRetCommon)]
      else if func_name = ''predrain_memory_barrier'' then [(IPOINT_BEFORE, RecordPmemFence)]
      else if func_name = ''flush_clwb_nolog'' \<or> func_name = ''flush_clflushopt_nolog'' \<or>
              func_name = ''flush_clflush_nolog'' then
        [(IPOINT_BEFORE, RecordPmemWriteback (arg_src (pm_functions ''clwb'')) (arg_size (pm_functions ''clwb'')))]
      else if func_name = ''_add_commit_var'' then
        [(IPOINT_BEFORE, RecordCommitVar (arg_src (pm_functions ''_add_commit_var'')) (arg_size (pm_functions ''_add_commit_var'')))]
      else [])"

definition PMOpTraceInstTX :: "string \<Rightarrow> hook list" where
  "PMOpTraceInstTX func_name =
     (if func_name = ''pm_trace_pm_addr_add'' then
        [(IPOINT_BEFORE, RecordPmemAllocationTX (arg_dst (pm_functions ''pm_trace_pm_addr_add''))
            (arg_size (pm_functions ''pm_trace_pm_addr_add''))),
         (IPOINT_AFTER, RecordPmemRetCommon)]
      else if func_name = ''pm_trace_pm_addr_remove'' then
        [(IPOINT_BEFORE, RecordPmemDeallocation (arg_src (pm_functions ''pm_trace_pm_addr_remove''))
            (arg_size (pm_functions ''pm_trace_pm_addr_remove''))),
         (IPOINT_AFTER, RecordPmemRetCommon)]
      else if func_name = ''pm_trace_tx_begin'' then
        [(IPOINT_BEFORE, RecordTXBound), (IPOINT_AFTER, RecordPmemRetCommon)]
      else if func_name = ''pm_trace_tx_end'' then
        [(IPOINT_BEFORE, RecordTXBound), (IPOINT_AFTER, RecordPmemRetCommon)]
      else if func_name = ''pm_trace_tx_addr_add'' then
        [(IPOINT_BEFORE, RecordPmemAllocationTX (arg_dst (pm_functions ''pm_trace_tx_addr_add''))
            (arg_size (pm_functions ''pm_trace_tx_addr_add''))),
         (IPOINT_AFTER, RecordPmemRetCommon)]
      else if func_name = ''pm_trace_tx_alloc'' then
        [(IPOINT_BEFORE, RecordPmemAllocationTX (arg_dst (pm_functions ''pm_trace_tx_alloc''))
            (arg_size (pm_functions ''pm_trace_tx_alloc''))),
         (IPOINT_AFTER, RecordPmemRetCommon)]
      else [])"

text \<open>The library functions whose inside is taken to be correct.\<close>

definition pmdk_internal_functs :: "string list" where
  "pmdk_internal_functs =
     [''pmemobj_tx_begin'', ''pmemobj_tx_stage'', ''pmemobj_tx_process'', ''pmemobj_tx_lock'',
      ''pmemobj_tx_abort'', ''pmemobj_tx_commit'', ''pmemobj_tx_end'', ''pmemobj_tx_alloc'',
      ''pmemobj_tx_add_range_direct'', ''pmemobj_tx_xadd_range_direct'', ''pmemobj_tx_add_range'',
      ''pmemobj_tx_xadd_range'', ''pmemobj_tx_alloc'', ''pmemobj_tx_zalloc'', ''pmemobj_tx_xalloc'',
      ''pmemobj_tx_realloc'', ''pmemobj_tx_zrealloc'', ''pmemobj_tx_strdup'', ''pmemobj_tx_wcsdup'',
      ''pmemobj_tx_free'', ''pmemobj_tx_publish'',
      ''pmemobj_create'', ''pmemobj_open'', ''pmemobj_close'', ''pmemobj_check'', ''pmemobj_alloc'',
      ''pmemobj_xalloc'', ''pmemobj_zalloc'', ''pmemobj_realloc'', ''pmemobj_zrealloc'',
      ''pmemobj_strdup'', ''pmemobj_wcsdup'', ''pmemobj_free'', ''pmemobj_root_construct'',
      ''pmemobj_root'', ''pmemobj_reserve'', ''pmemobj_xreserve'', ''pmemobj_publish'',
      ''pmemobj_cancel'', ''pmemobj_list_insert'', ''pmemobj_list_insert_new'',
      ''pmemobj_list_remove'', ''pmemobj_list_move'', ''pmemobj_ctl_set'', ''pmemobj_ctl_exec'']"

definition PMDKInternalFunct :: "string \<Rightarrow> hook list" where
  "PMDKInternalFunct func_name =
     (if func_name \<in> set pmdk_internal_functs
      then [(IPOINT_BEFORE, CallPMDKInternalFunctHandler (pm_op_index PMDK_INTERNAL_CALL)),
            (IPOINT_AFTER, CallPMDKInternalFunctHandler (pm_op_index PMDK_INTERNAL_RET))]
      else [])"

text \<open>The functions \<open>main\<close> registers for every routine of the program, in its order.\<close>

definition rtn_hooks :: "'is pintool \<Rightarrow> string \<Rightarrow> hook list" where
  "rtn_hooks P name =
     (if failure_enable P then FailurePointInst name else []) @ PMDKInternalFunct name @
     PMOpTraceInstPmem name @ PMOpTraceInstTX name @ RoISelection name"

section \<open>Instructions\<close>

text \<open>
  An instruction: its text, and for every memory operand whether it is read and written
  (\<open>INS_MemoryOperandIsRead\<close>, \<open>INS_MemoryOperandIsWritten\<close>).
\<close>

record instruction =
  ins_text :: string
  ins_operands :: "(bool \<times> bool) list"

datatype ins_hook = CallPmemRead nat | CallPmemWrite nat bool

fun operand_hooks :: "bool \<Rightarrow> bool \<Rightarrow> nat \<Rightarrow> (bool \<times> bool) list \<Rightarrow> ins_hook list" where
  "operand_hooks reads nt memOp [] = []"
| "operand_hooks reads nt memOp ((is_read, is_written) # ops) =
     (if reads \<and> is_read then [CallPmemRead memOp] else []) @
     (if is_written then [CallPmemWrite memOp nt] else []) @
     operand_hooks reads nt (Suc memOp) ops"

definition PMReadAndWriteInst :: "'is pintool \<Rightarrow> instruction \<Rightarrow> ins_hook list" where
  "PMReadAndWriteInst P ins =
     (if str_contains ''clwb'' (ins_text ins) then []
      else operand_hooks (read_enable P) (str_contains ''movnt'' (ins_text ins)) 0 (ins_operands ins))"

text \<open>
  One execution of an instruction: the address of the instruction, the addresses of its operands,
  the sizes of its read and write, and the thread.
\<close>

record ins_exec =
  x_ip :: addr_t
  x_ea :: "nat \<Rightarrow> addr_t"
  x_read_size :: sz_t
  x_write_size :: sz_t
  x_tid :: "64 word"

fun run_ins_hook :: "pin_host \<Rightarrow> ins_exec \<Rightarrow> ins_hook \<Rightarrow> 'is pintool \<Rightarrow> (pin_msg, 'is pintool) outcome" where
  "run_ins_hook H X (CallPmemRead memOp) P = recordPmemRead H (x_ip X) (x_ea X memOp) (x_read_size X) (x_tid X) P"
| "run_ins_hook H X (CallPmemWrite memOp nt) P = recordPmemWrite H (x_ip X) (x_ea X memOp) (x_write_size X) (x_tid X) nt P"

definition run_instruction ::
  "pin_host \<Rightarrow> instruction \<Rightarrow> ins_exec \<Rightarrow> 'is pintool \<Rightarrow> (pin_msg, 'is pintool) outcome" where
  "run_instruction H ins X P = xfor (run_ins_hook H X) (PMReadAndWriteInst P ins) P"

section \<open>Calls\<close>

text \<open>One call of a function: its name, arguments, result and return address, and the thread.\<close>

record call_info =
  c_name :: string
  c_args :: "nat \<Rightarrow> 64 word"
  c_result :: "64 word"
  c_return_ip :: addr_t
  c_tid :: "64 word"

definition func_arg :: "call_info \<Rightarrow> int \<Rightarrow> 64 word" where
  "func_arg C i = c_args C (nat i)"

text \<open>
  An analysis routine at one call; only a failure point waits for the signal pipe, whose further
  reads it leaves.
\<close>

type_synonym 'is pin_run = "(pin_msg, ('is pintool \<times> (int \<times> string) list) option) outcome"

definition keep_signals :: "(int \<times> string) list \<Rightarrow> (pin_msg, 'is pintool) outcome \<Rightarrow> 'is pin_run" where
  "keep_signals signals m = xbind m (\<lambda>P. xret (Some (P, signals)))"

fun run_routine ::
  "'is icl_set_ops \<Rightarrow> pin_host \<Rightarrow> string \<Rightarrow> call_info \<Rightarrow> routine \<Rightarrow> (int \<times> string) list \<Rightarrow> 'is pintool \<Rightarrow> 'is pin_run" where
  "run_routine S H buf C AddFailurePoint sg P =
     addFailurePoint H buf sg (c_return_ip C) (c_name C) (c_tid C) P"
| "run_routine S H buf C CallRoIHandler sg P = keep_signals sg (RoIHandler H (c_name C) (c_tid C) P)"
| "run_routine S H buf C (RecordPmemAllocation a) sg P =
     keep_signals sg (recordPmemAllocation H (c_name C) (c_return_ip C) (c_tid C) (func_arg C a) P)"
| "run_routine S H buf C RecordPmemRetAllocation sg P =
     keep_signals sg (recordPmemRetAllocation S H (c_name C) (c_return_ip C) (c_tid C) (c_result C) P)"
| "run_routine S H buf C (RecordPmemDeallocation a b) sg P =
     keep_signals sg (recordPmemDeallocation S H (c_name C) (c_return_ip C) (c_tid C) (func_arg C a) (func_arg C b) P)"
| "run_routine S H buf C RecordPmemRetCommon sg P =
     keep_signals sg (recordPmemRetCommon H (c_name C) (c_return_ip C) (c_tid C) (c_result C) P)"
| "run_routine S H buf C RecordPmemFence sg P =
     keep_signals sg (recordPmemFence H (c_name C) (c_return_ip C) (c_tid C) P)"
| "run_routine S H buf C (RecordPmemWriteback a b) sg P =
     keep_signals sg (recordPmemWriteback H (c_name C) (c_return_ip C) (c_tid C) (func_arg C a) (func_arg C b) P)"
| "run_routine S H buf C (RecordCommitVar a b) sg P =
     keep_signals sg (recordCommitVar H (c_name C) (c_return_ip C) (c_tid C) (func_arg C a) (func_arg C b) P)"
| "run_routine S H buf C (RecordPmemAllocationTX a b) sg P =
     keep_signals sg (recordPmemAllocationTX S H (c_name C) (c_return_ip C) (c_tid C) (func_arg C a) (func_arg C b) P)"
| "run_routine S H buf C RecordTXBound sg P =
     keep_signals sg (recordTXBound H (c_name C) (c_return_ip C) (c_tid C) P)"
| "run_routine S H buf C (CallPMDKInternalFunctHandler typ) sg P =
     keep_signals sg (PMDKInternalFunctHandler H (c_name C) (c_tid C) typ P)"

fun run_routines ::
  "'is icl_set_ops \<Rightarrow> pin_host \<Rightarrow> string \<Rightarrow> call_info \<Rightarrow> routine list \<Rightarrow> (int \<times> string) list \<Rightarrow> 'is pintool \<Rightarrow> 'is pin_run" where
  "run_routines S H buf C [] sg P = xret (Some (P, sg))"
| "run_routines S H buf C (r # rs) sg P =
     xbind (run_routine S H buf C r sg P) (\<lambda>res.
     case res of None \<Rightarrow> xret None | Some (P1, sg1) \<Rightarrow> run_routines S H buf C rs sg1 P1)"

text \<open>What runs when a function is entered, and when it returns.\<close>

definition run_call ::
  "'is icl_set_ops \<Rightarrow> pin_host \<Rightarrow> string \<Rightarrow> ipoint \<Rightarrow> call_info \<Rightarrow> (int \<times> string) list \<Rightarrow> 'is pintool \<Rightarrow> 'is pin_run" where
  "run_call S H buf point C sg P =
     run_routines S H buf C (map snd (filter (\<lambda>h. fst h = point) (rtn_hooks P (c_name C)))) sg P"

section \<open>The function main\<close>

text \<open>The command line switches, as PIN has parsed them.\<close>

record knobs =
  KnobOutputFile :: string
  KnobEnableRead :: string
  KnobEnableFailure :: string
  KnobFailureListFile :: string
  KnobEnableFIFO :: string
  KnobSetExecID :: string

text \<open>
  \<open>main\<close> up to the start of the program. \<open>init_failed\<close> is what \<open>PIN_Init\<close> returned, \<open>read_file\<close>
  gives the content of a file, and \<open>bt_ok\<close> tells whether the file of backtraces could be opened.
  The result is the exit code, if the program was not started, and the state together with whether
  the backtraces are recorded.
\<close>

definition pin_main ::
  "'is icl_set_ops \<Rightarrow> pin_host \<Rightarrow> bool \<Rightarrow> knobs \<Rightarrow> (string \<Rightarrow> string option) \<Rightarrow> bool \<Rightarrow>
   (pin_msg, int + ('is pintool \<times> bool)) outcome" where
  "pin_main S H init_failed K read_file bt_ok =
     (if init_failed then
        Inr (Inl (-1), [PinConsole ''This tool tracks PM opeartions and functions in PM workloads''])
      else
        let P1 = (pintool_init S)\<lparr>execIDStr := KnobSetExecID K,
               read_enable := (KnobEnableRead K \<noteq> []), failure_enable := (KnobEnableFailure K \<noteq> []),
               failure_list_enable := (KnobFailureListFile K \<noteq> []), fifo_enable := (KnobEnableFIFO K \<noteq> [])\<rparr>;
            P2 = P1\<lparr>stage := (if read_enable P1 \<and> \<not> failure_enable P1 then POST_FAILURE else PRE_FAILURE)\<rparr>
        in xbind (pinfifo_init H (stage P2) P2) (\<lambda>P3.
           xbind (signalfifo_init H P3) (\<lambda>P4.
           xbind (if failure_enable P4 \<and> failure_list_enable P4 then parseFailureList (read_file (KnobFailureListFile K)) P4
                  else xret P4) (\<lambda>P5.
           xemit ([PinConsole ''This application is instrumented by XFDetectorPinTool''] @
                  (if KnobOutputFile K \<noteq> [] then [PinConsole (''See file '' @ KnobOutputFile K @ '' for analysis results'')] else []) @
                  (if KnobEnableRead K \<noteq> [] then [PinConsole ''Read tracking enabled''] else []) @
                  (if KnobEnableRead K \<noteq> [] then [PinConsole ''Auto failure injection enabled''] else []) @
                  (if KnobEnableFIFO K \<noteq> [] then [PinConsole ''Trace FIFO enabled''] else []))
           (xret (Inr (P5, bt_ok)))))))"

text \<open>The file of backtraces \<open>main\<close> opens.\<close>

definition backtrace_name :: "'is pintool \<Rightarrow> string" where
  "backtrace_name P =
     (if stage P = POST_FAILURE then ''/tmp/backtrace_post.'' @ execIDStr P
      else ''/tmp/backtrace_pre.'' @ execIDStr P)"

end
