(* ===== verification/XF_Backtrace.thy ===== *)
theory XF_Backtrace
  imports XF_Instrument XF_Refine
begin

text \<open>
  The backtraces of the pintool (\<open>xfdetector_pintool.hh\<close>): what the pintool writes into the file
  \<open>/tmp/backtrace_pre\<close> or \<open>/tmp/backtrace_post\<close> at an access to persistent memory or a call of
  a traced function, and where it inserts the recorders. The detector looks the backtraces up by
  instruction pointer, and finds what was written.
\<close>

section \<open>Writing backtraces\<close>

definition newline :: string where
  "newline = [CHR 0x0A]"

text \<open>
  One symbol of a backtrace is printed from behind its first opening to its first closing
  parenthesis; the length is an \<open>int\<close> converted to \<open>size_t\<close>.
\<close>

definition frame_text :: "string \<Rightarrow> (pin_msg, string option) outcome" where
  "frame_text str =
     (case (str_find ''('' str, str_find '')'' str) of
        (Some start, Some end_pos) \<Rightarrow>
          xbind (str_substr str (start + 1) (unat (of_int (int end_pos - int start - 1) :: sz_t))) (\<lambda>s. xret (Some (c_str s)))
      | _ \<Rightarrow> xret None)"

fun print_frames :: "string list \<Rightarrow> (pin_msg, unit) outcome" where
  "print_frames [] = xret ()"
| "print_frames (str # bt) =
     xbind (frame_text str) (\<lambda>line.
     xemit (case line of None \<Rightarrow> [] | Some s \<Rightarrow> [BtText (s @ newline)]) (print_frames bt))"

text \<open>
  The common part of the recorders: \<open>bt\<close> is what \<open>backtrace_symbols\<close> gave for the frames PIN
  found, at most 128 of them.
\<close>

definition recordFuncBacktrace :: "string list option \<Rightarrow> addr_t \<Rightarrow> (pin_msg, unit) outcome" where
  "recordFuncBacktrace bt ip =
     (case bt of
        None \<Rightarrow> Inl (AssertFail ''NULL != bt'')
      | Some frames \<Rightarrow>
          xassert (frames \<noteq> []) ''nptrs > 0''
          (xemit [BtText (''>> '' @ pointer_str ip @ newline)] (print_frames (take 128 frames))))"

definition recordWriteInstBacktrace ::
  "string list option \<Rightarrow> addr_t \<Rightarrow> addr_t \<Rightarrow> sz_t \<Rightarrow> 64 word \<Rightarrow> (pin_msg, unit) outcome" where
  "recordWriteInstBacktrace bt ip addr sz t =
     (if isPmemAddr addr sz then recordFuncBacktrace bt ip else xret ())"

definition recordReadInstBacktrace ::
  "string list option \<Rightarrow> addr_t \<Rightarrow> addr_t \<Rightarrow> sz_t \<Rightarrow> 64 word \<Rightarrow> (pin_msg, unit) outcome" where
  "recordReadInstBacktrace bt ip addr sz t =
     (if isPmemAddr addr sz then recordFuncBacktrace bt ip else xret ())"

section \<open>Inserting the recorders\<close>

text \<open>The functions of an image that get the recorder before them: those the tables name.\<close>

definition backtrace_funcs :: "'is pintool \<Rightarrow> (string \<Rightarrow> bool) \<Rightarrow> string list" where
  "backtrace_funcs P in_image =
     (if stage P = PRE_FAILURE then filter in_image (map fst pm_function_entries) else [])"

datatype bt_hook = BtWrite nat | BtRead nat

fun backtrace_operands :: "int \<Rightarrow> nat \<Rightarrow> (bool \<times> bool) list \<Rightarrow> bt_hook list" where
  "backtrace_operands st memOp [] = []"
| "backtrace_operands st memOp ((is_read, is_written) # ops) =
     (if st = PRE_FAILURE \<and> is_written then [BtWrite memOp] else []) @
     (if st = POST_FAILURE \<and> is_read then [BtRead memOp] else []) @
     backtrace_operands st (Suc memOp) ops"

definition Backtrace :: "'is pintool \<Rightarrow> (string \<Rightarrow> bool) \<Rightarrow> instruction list list \<Rightarrow> string list \<times> bt_hook list list" where
  "Backtrace P in_image rtns =
     (backtrace_funcs P in_image,
      concat (map (map (\<lambda>ins. backtrace_operands (stage P) 0 (ins_operands ins))) rtns))"

section \<open>The map of source lines\<close>

text \<open>
  \<open>ImageLoad\<close> prints the source line of every instruction of the main executable that has one:
  an instruction is its address with the line and path \<open>PIN_GetSourceLocation\<close> gives.
\<close>

definition ImageLoad :: "bool \<Rightarrow> (addr_t \<times> int \<times> string) list list list \<Rightarrow> (pin_msg, unit) outcome" where
  "ImageLoad is_main secs =
     (if is_main then
        Inr ((), concat (map (\<lambda>(addr, line, path).
            if line \<noteq> 0 then [FuncMapText (pointer_str addr @ '' '' @ c_str path @ '' : '' @ to_string line @ newline)] else [])
          (concat (concat secs))))
      else xret ())"

section \<open>Reading the file\<close>

text \<open>The text of the file, and its lines as \<open>getline\<close> reads them.\<close>

fun bt_file :: "pin_msg list \<Rightarrow> string" where
  "bt_file [] = []"
| "bt_file (BtText s # ms) = s @ bt_file ms"
| "bt_file (_ # ms) = bt_file ms"

fun getlines :: "string \<Rightarrow> string \<Rightarrow> string list" where
  "getlines acc [] = (if acc = [] then [] else [acc])"
| "getlines acc (c # s) = (if c = CHR 0x0A then acc # getlines [] s else getlines (acc @ [c]) s)"

lemma getlines_line: "CHR 0x0A \<notin> set l \<Longrightarrow> getlines acc (l @ CHR 0x0A # s) = (acc @ l) # getlines [] s"
  by (induction l arbitrary: acc) auto

lemma bt_file_append [simp]: "bt_file (ms @ ns) = bt_file ms @ bt_file ns"
  by (induction ms rule: bt_file.induct) auto

text \<open>A frame that prints as the given line, which is not taken for the head of a record.\<close>

definition prints_as :: "string \<Rightarrow> string \<Rightarrow> bool" where
  "prints_as str line \<longleftrightarrow> frame_text str = xret (Some line) \<and> CHR 0x0A \<notin> set line \<and> \<not> str_prefix ''>>'' line"

lemma print_frames_lines:
  "list_all2 prints_as bt ls \<Longrightarrow> print_frames bt = Inr ((), map (\<lambda>l. BtText (l @ newline)) ls)"
  by (induction rule: list_all2_induct) (simp_all add: prints_as_def xret_def)

definition bt_record :: "addr_t \<times> string list \<Rightarrow> pin_msg list" where
  "bt_record r = BtText (''>> '' @ pointer_str (fst r) @ newline) # map (\<lambda>l. BtText (l @ newline)) (snd r)"

lemma recordFuncBacktrace_record:
  assumes "list_all2 prints_as bt ls" "bt \<noteq> []" "length bt \<le> 128"
  shows "recordFuncBacktrace (Some bt) ip = Inr ((), bt_record (ip, ls))"
  using assms print_frames_lines [OF assms(1)] by (simp add: recordFuncBacktrace_def bt_record_def)

definition record_lines :: "addr_t \<times> string list \<Rightarrow> string list" where
  "record_lines r = (''>> '' @ pointer_str (fst r)) # snd r"

definition plain_record :: "addr_t \<times> string list \<Rightarrow> bool" where
  "plain_record r \<longleftrightarrow> fst r \<noteq> 0 \<and> unat (fst r) < 2 ^ 48 \<and>
     list_all (\<lambda>l. CHR 0x0A \<notin> set l \<and> \<not> str_prefix ''>>'' l) (snd r)"

lemma pointer_str_line: "CHR 0x0A \<notin> set (pointer_str p)"
proof -
  have "c \<noteq> CHR 0x0A" if "c \<in> set (hex_str n)" for c n
    using hex_str_digits [OF that] by (auto simp: hex_digit_val_def)
  then show ?thesis by (auto simp: pointer_str_def)
qed

lemma getlines_frames:
  "list_all (\<lambda>l. CHR 0x0A \<notin> set l \<and> Q l) ls \<Longrightarrow>
   getlines [] (bt_file (map (\<lambda>l. BtText (l @ newline)) ls) @ s) = ls @ getlines [] s"
  by (induction ls) (simp_all add: newline_def getlines_line)

lemma getlines_record:
  assumes "plain_record r"
  shows "getlines [] (bt_file (bt_record r) @ s) = record_lines r @ getlines [] s"
proof -
  let ?t = "bt_file (map (\<lambda>l. BtText (l @ newline)) (snd r)) @ s"
  have "getlines [] (bt_file (bt_record r) @ s) = (''>> '' @ pointer_str (fst r)) # getlines [] ?t"
    using getlines_line [of "''>> '' @ pointer_str (fst r)" "[]" ?t] pointer_str_line [of "fst r"]
    by (simp add: bt_record_def newline_def)
  also have "getlines [] ?t = snd r @ getlines [] s"
    using assms by (intro getlines_frames [where Q = "\<lambda>l. \<not> str_prefix ''>>'' l"]) (simp add: plain_record_def)
  finally show ?thesis by (simp add: record_lines_def)
qed

lemma getlines_records:
  "list_all plain_record rs \<Longrightarrow> getlines [] (bt_file (concat (map bt_record rs))) = concat (map record_lines rs)"
  by (induction rs) (simp_all add: getlines_record)

section \<open>Looking up\<close>

lemma find_backtrace_frames:
  "list_all (\<lambda>l. Q l \<and> \<not> str_prefix ''>>'' l) ls \<Longrightarrow>
   find_backtrace pos ip (ls @ rest) = find_backtrace (pos + length ls) ip rest"
  by (induction ls arbitrary: pos) (simp_all add: str_find_zero)

lemma record_head:
  assumes "p \<noteq> 0" "unat p < 2 ^ 48"
  shows "str_find ''>>'' (''>> '' @ pointer_str p) = Some 0"
    and "str_substr (''>> '' @ pointer_str p) 3 14 = xret (pointer_str p)"
proof -
  show "str_find ''>>'' (''>> '' @ pointer_str p) = Some 0" by (simp add: str_find_zero str_prefix_def)
  have "length (hex_str (unat p)) \<le> Suc 11" using assms(2) by (intro length_hex_str) simp
  then have "length (pointer_str p) \<le> 14" using assms(1) by (simp add: pointer_str_def)
  then show "str_substr (''>> '' @ pointer_str p) 3 14 = xret (pointer_str p)" by (simp add: str_substr_def)
qed

lemma find_backtrace_head:
  assumes "p \<noteq> 0" "unat p < 2 ^ 48"
  shows "find_backtrace pos ip ((''>> '' @ pointer_str p) # rest) =
    (if p = ip then Inr (True, BacktracePos (Suc pos) # backtrace_lines 0 rest) else find_backtrace (Suc pos) ip rest)"
  unfolding find_backtrace.simps record_head [OF assms] by (simp add: stoull16_pointer_str assms(1))

lemma find_backtrace_record:
  assumes "plain_record r"
  shows "find_backtrace pos ip (record_lines r @ rest) =
    (if fst r = ip then Inr (True, BacktracePos (Suc pos) # backtrace_lines 0 (snd r @ rest))
     else find_backtrace (Suc pos + length (snd r)) ip rest)"
  using assms find_backtrace_head [of "fst r" pos ip "snd r @ rest"]
    find_backtrace_frames [of "\<lambda>l. CHR 0x0A \<notin> set l" "snd r" "Suc pos" ip rest]
  by (simp add: plain_record_def record_lines_def)

lemma find_backtrace_records:
  assumes "list_all plain_record rs" "list_all (\<lambda>r. fst r \<noteq> ip) rs" "plain_record r" "fst r = ip"
  shows "\<exists>pos'. find_backtrace pos ip (concat (map record_lines rs) @ record_lines r @ rest) =
    Inr (True, BacktracePos pos' # backtrace_lines 0 (snd r @ rest))"
  using assms
proof (induction rs arbitrary: pos)
  case Nil
  then show ?case by (simp add: find_backtrace_record)
next
  case (Cons q rs)
  then show ?case by (simp add: find_backtrace_record)
qed

text \<open>The frames that are shown: at most ten lines, each with a colon.\<close>

lemma backtrace_lines_frames:
  "list_all (\<lambda>l. str_contains '':'' l \<and> \<not> str_prefix ''>>'' l) ls \<Longrightarrow> length ls \<le> MAX_BACKTRACE - n \<Longrightarrow>
   (length ls = MAX_BACKTRACE - n \<or> rest = [] \<or> str_prefix ''>>'' (hd rest)) \<Longrightarrow>
   backtrace_lines n (ls @ rest) = map (\<lambda>(i, l). BacktraceLine i l) (enumerate n ls)"
proof (induction ls arbitrary: n)
  case Nil
  then show ?case by (cases rest) (auto simp: str_find_zero backtrace_lines.simps [of n])
next
  case (Cons l ls)
  then have n: "n < MAX_BACKTRACE" by auto
  have "backtrace_lines (Suc n) (ls @ rest) = map (\<lambda>(i, l). BacktraceLine i l) (enumerate (Suc n) ls)"
    using Cons.prems by (intro Cons.IH) auto
  with n Cons.prems(1) show ?case by (simp add: str_find_zero backtrace_lines.simps [of n])
qed



end
