(* ===== verification/XF_Interface.thy ===== *)
theory XF_Interface
  imports XF_Instrument
begin

unbundle bit_operations_syntax

text \<open>
  The functions of \<open>src/xfdetector_interface.c\<close> with which a program is annotated. What they tell
  the pintool are the calls of the internal functions, which the pintool instruments: those calls
  are the messages. The variables are those of one thread.
\<close>

section \<open>State\<close>

definition TRACING :: int where "TRACING = 1"
definition NOT_TRACING :: int where "NOT_TRACING = 0"
definition SKIP :: int where "SKIP = 1"
definition NOT_SKIP :: int where "NOT_SKIP = 0"
definition COMPLETE :: int where "COMPLETE = 1"
definition INCOMPLETE :: int where "INCOMPLETE = 0"

lemmas iface_consts = TRACING_def NOT_TRACING_def SKIP_def NOT_SKIP_def COMPLETE_def INCOMPLETE_def

text \<open>A thread that called \<open>exit\<close> notes the code.\<close>

record iface =
  trace_status :: int
  xfdetector_failure_skip_status :: int
  has_completed :: int
  additional_failure_point_count :: "32 word"
  exited :: "int option"

definition iface_init :: iface where
  "iface_init = \<lparr>trace_status = NOT_TRACING, xfdetector_failure_skip_status = NOT_SKIP,
     has_completed = INCOMPLETE, additional_failure_point_count = 0, exited = None\<rparr>"

datatype marker = Marker string "64 word list"

section \<open>Internal functions\<close>

definition roi_pre_begin :: "iface \<Rightarrow> (marker, iface) outcome" where
  "roi_pre_begin I =
     xemit [Marker ''_roi_pre_begin'' []]
     (xassert (trace_status I = NOT_TRACING) ''XFDetector has already started tracing'' (xret I))"

definition roi_pre_end :: "iface \<Rightarrow> (marker, iface) outcome" where
  "roi_pre_end I =
     xemit [Marker ''_roi_pre_end'' []]
     (xassert (trace_status I = TRACING) ''XFDetector has not started tracing'' (xret I))"

definition roi_post_begin :: "iface \<Rightarrow> (marker, iface) outcome" where
  "roi_post_begin I =
     xemit [Marker ''_roi_post_begin'' []]
     (xassert (trace_status I = NOT_TRACING) ''XFDetector has already started tracing'' (xret I))"

definition roi_post_end :: "iface \<Rightarrow> (marker, iface) outcome" where
  "roi_post_end I =
     xemit [Marker ''_roi_post_end'' []]
     (xassert (trace_status I = TRACING) ''XFDetector has not started tracing'' (xret I))"

definition skip_failure_point_begin :: "iface \<Rightarrow> (marker, iface) outcome" where
  "skip_failure_point_begin I =
     Inr (I\<lparr>xfdetector_failure_skip_status := SKIP\<rparr>, [Marker ''_skip_failure_point_begin'' []])"

definition skip_failure_point_end :: "iface \<Rightarrow> (marker, iface) outcome" where
  "skip_failure_point_end I =
     Inr (I\<lparr>xfdetector_failure_skip_status := NOT_SKIP\<rparr>, [Marker ''_skip_failure_point_end'' []])"

definition add_failure_point :: "iface \<Rightarrow> (marker, iface) outcome" where
  "add_failure_point I =
     Inr (I\<lparr>additional_failure_point_count := additional_failure_point_count I + 1\<rparr>,
          [Marker ''_add_failure_point'' []])"

definition testing_pre_complete :: "iface \<Rightarrow> (marker, iface) outcome" where
  "testing_pre_complete I = Inr (I, [Marker ''_testing_pre_complete'' []])"

definition testing_post_complete :: "iface \<Rightarrow> (marker, iface) outcome" where
  "testing_post_complete I = Inr (I, [Marker ''_testing_post_complete'' []])"

definition skipDetectionBegin_marker :: "iface \<Rightarrow> (marker, iface) outcome" where
  "skipDetectionBegin_marker I = Inr (I, [Marker ''_skipDetectionBegin'' []])"

definition skipDetectionEnd_marker :: "iface \<Rightarrow> (marker, iface) outcome" where
  "skipDetectionEnd_marker I = Inr (I, [Marker ''_skipDetectionEnd'' []])"

definition add_commit_var :: "64 word \<Rightarrow> 32 word \<Rightarrow> iface \<Rightarrow> (marker, iface) outcome" where
  "add_commit_var variable sz I =
     xemit [Marker ''_add_commit_var'' [variable, ucast sz]]
     (xassert (variable \<noteq> 0) ''Cannot register a NULL variable''
       (xassert (sz \<le> 64) ''Cannot commit with a variable larger than one cache line'' (xret I)))"

section \<open>User functions\<close>

definition assert_incomplete :: "iface \<Rightarrow> (marker, iface) outcome \<Rightarrow> (marker, iface) outcome" where
  "assert_incomplete I m = xassert (has_completed I = INCOMPLETE) ''Testing has completed already'' m"

text \<open>
  The selection by stage that the functions share: the argument is one of the two stages or both.
\<close>

definition by_stage ::
  "int \<Rightarrow> (iface \<Rightarrow> (marker, iface) outcome) \<Rightarrow> (iface \<Rightarrow> (marker, iface) outcome) \<Rightarrow> iface \<Rightarrow> (marker, iface) outcome" where
  "by_stage stg pre post I =
     (if stg = PRE_FAILURE then pre I
      else if stg = POST_FAILURE then post I
      else if stg = (PRE_FAILURE OR POST_FAILURE) then xbind (pre I) post
      else Inl (AssertFail ''Invalid stage''))"

text \<open>The status changes whether or not the condition holds.\<close>

definition XFDetector_RoIBegin :: "int \<Rightarrow> int \<Rightarrow> iface \<Rightarrow> (marker, iface) outcome" where
  "XFDetector_RoIBegin condition stg I =
     assert_incomplete I
     (xbind (if condition \<noteq> 0 then by_stage stg roi_pre_begin roi_post_begin I else xret I) (\<lambda>I1.
      xret (I1\<lparr>trace_status := TRACING\<rparr>)))"

definition XFDetector_RoIEnd :: "int \<Rightarrow> int \<Rightarrow> iface \<Rightarrow> (marker, iface) outcome" where
  "XFDetector_RoIEnd condition stg I =
     assert_incomplete I
     (xbind (if condition \<noteq> 0 then by_stage stg roi_pre_end roi_post_end I else xret I) (\<lambda>I1.
      xret (I1\<lparr>trace_status := NOT_TRACING\<rparr>)))"

definition XFDetector_addFailurePoint :: "int \<Rightarrow> iface \<Rightarrow> (marker, iface) outcome" where
  "XFDetector_addFailurePoint condition I =
     assert_incomplete I (if condition \<noteq> 0 then add_failure_point I else xret I)"

definition XFDetector_skipFailureBegin :: "int \<Rightarrow> iface \<Rightarrow> (marker, iface) outcome" where
  "XFDetector_skipFailureBegin condition I =
     assert_incomplete I (if condition \<noteq> 0 then skip_failure_point_begin I else xret I)"

definition XFDetector_skipFailureEnd :: "int \<Rightarrow> iface \<Rightarrow> (marker, iface) outcome" where
  "XFDetector_skipFailureEnd condition I =
     assert_incomplete I (if condition \<noteq> 0 then skip_failure_point_end I else xret I)"

text \<open>The stage of the running process: the variable \<open>POST_FAILURE\<close> of the environment.\<close>

definition cur_stage :: "(string \<Rightarrow> string option) \<Rightarrow> int" where
  "cur_stage getenv = (if getenv ''POST_FAILURE'' \<noteq> None then POST_FAILURE else PRE_FAILURE)"

definition XFDetector_complete :: "(string \<Rightarrow> string option) \<Rightarrow> int \<Rightarrow> int \<Rightarrow> iface \<Rightarrow> (marker, iface) outcome" where
  "XFDetector_complete getenv condition stg I =
     assert_incomplete I
     (if condition \<noteq> 0 then
        xbind (by_stage stg testing_pre_complete testing_post_complete I) (\<lambda>I1.
        xret (if (cur_stage getenv AND stg) \<noteq> 0 then I1\<lparr>has_completed := COMPLETE, exited := Some 0\<rparr> else I1))
      else xret I)"

definition XFDetector_addCommitVar :: "64 word \<Rightarrow> 32 word \<Rightarrow> iface \<Rightarrow> (marker, iface) outcome" where
  "XFDetector_addCommitVar variable sz I = add_commit_var variable sz I"

definition skipDetectionBegin :: "(string \<Rightarrow> string option) \<Rightarrow> int \<Rightarrow> int \<Rightarrow> iface \<Rightarrow> (marker, iface) outcome" where
  "skipDetectionBegin getenv condition stg I =
     (if condition = 0 then xret I
      else if (cur_stage getenv AND stg) \<noteq> 0 then skipDetectionBegin_marker I else xret I)"

definition skipDetectionEnd :: "(string \<Rightarrow> string option) \<Rightarrow> int \<Rightarrow> int \<Rightarrow> iface \<Rightarrow> (marker, iface) outcome" where
  "skipDetectionEnd getenv condition stg I =
     (if condition = 0 then xret I
      else if (cur_stage getenv AND stg) \<noteq> 0 then skipDetectionEnd_marker I else xret I)"

section \<open>Under the pintool\<close>

text \<open>
  An annotated program runs under the pintool: every call of an internal function by thread
  \<open>t\<close> runs the routines inserted before it and then those inserted after it.
\<close>

definition marker_call :: "64 word \<Rightarrow> addr_t \<Rightarrow> marker \<Rightarrow> call_info" where
  "marker_call t ip m =
     (case m of Marker name args \<Rightarrow>
        \<lparr>c_name = name, c_args = (\<lambda>i. if i < length args then args ! i else 0), c_result = 0,
         c_return_ip = ip, c_tid = t\<rparr>)"

fun run_markers ::
  "'is icl_set_ops \<Rightarrow> pin_host \<Rightarrow> string \<Rightarrow> 64 word \<Rightarrow> addr_t \<Rightarrow> marker list \<Rightarrow> (int \<times> string) list \<Rightarrow> 'is pintool \<Rightarrow> 'is pin_run" where
  "run_markers S H buf t ip [] sg P = xret (Some (P, sg))"
| "run_markers S H buf t ip (m # ms) sg P =
     xbind (run_call S H buf IPOINT_BEFORE (marker_call t ip m) sg P) (\<lambda>res.
     case res of
       None \<Rightarrow> xret None
     | Some (P1, sg1) \<Rightarrow>
         xbind (run_call S H buf IPOINT_AFTER (marker_call t ip m) sg1 P1) (\<lambda>res2.
         case res2 of
           None \<Rightarrow> xret None
         | Some (P2, sg2) \<Rightarrow> run_markers S H buf t ip ms sg2 P2))"

end
