(* ===== verification/XF_PinProps.thy ===== *)
theory XF_PinProps
  imports XF_Interface XF_Detector
begin

text \<open>
  Properties of the pintool: what it sends is well formed, only the thread in the region of interest
  is observed, failure points wait for the detector, and the parts that do not do what their
  comments say.
\<close>

section \<open>What a routine sends\<close>

text \<open>Every trace entry among the messages of a normal return satisfies the predicate.\<close>

definition all_sent :: "(trace_entry \<Rightarrow> bool) \<Rightarrow> (pin_msg, 'a) outcome \<Rightarrow> bool" where
  "all_sent Q m \<longleftrightarrow> (\<forall>x es e. m = Inr (x, es) \<longrightarrow> Trace e \<in> set es \<longrightarrow> Q e)"

named_theorems sent \<open>what is sent\<close>

lemma all_sent_basic [sent]:
  "all_sent Q (Inl f)" "all_sent Q (xret x)"
  "all_sent Q (Inr (x, es)) \<longleftrightarrow> (\<forall>e. Trace e \<in> set es \<longrightarrow> Q e)"
  by (auto simp: all_sent_def xret_def)

lemma all_sent_xassert [sent]: "(c \<Longrightarrow> all_sent Q m) \<Longrightarrow> all_sent Q (xassert c msg m)"
  by (simp add: xassert_def all_sent_basic)

lemma all_sent_xbind [sent]: "all_sent Q m \<Longrightarrow> (\<And>x. all_sent Q (k x)) \<Longrightarrow> all_sent Q (xbind m k)"
  unfolding all_sent_def xbind_eq_Inr by (metis UnE set_append)

lemma all_sent_xemit [sent]: "(\<And>e. Trace e \<in> set es \<Longrightarrow> Q e) \<Longrightarrow> all_sent Q m \<Longrightarrow> all_sent Q (xemit es m)"
  by (cases m) (auto simp: all_sent_def)

lemma all_sent_if [sent]: "(c \<Longrightarrow> all_sent Q a) \<Longrightarrow> (\<not> c \<Longrightarrow> all_sent Q b) \<Longrightarrow> all_sent Q (if c then a else b)"
  by simp

lemma all_sent_case_option [sent]:
  "(z = None \<Longrightarrow> all_sent Q a) \<Longrightarrow> (\<And>y. z = Some y \<Longrightarrow> all_sent Q (b y)) \<Longrightarrow> all_sent Q (case z of None \<Rightarrow> a | Some y \<Rightarrow> b y)"
  by (cases z) auto

lemma all_sent_case_prod [sent]: "(\<And>a b. z = (a, b) \<Longrightarrow> all_sent Q (f a b)) \<Longrightarrow> all_sent Q (case z of (a, b) \<Rightarrow> f a b)"
  by (cases z) auto

lemma all_sent_int_inc [sent]: "all_sent Q (int_inc v)"
  by (simp add: int_inc_def all_sent_basic)

lemma all_sent_write [sent]: "Q e \<Longrightarrow> all_sent Q (pinfifo_write H e P)"
  by (auto simp: pinfifo_write_def all_sent_def xret_def)

lemma all_sent_write_entry [sent]: "Q e \<Longrightarrow> all_sent Q (write_entry H e P)"
  unfolding write_entry_def by (intro sent)

lemma all_sent_send [sent]: "(operation e \<noteq> INVALID \<Longrightarrow> Q e) \<Longrightarrow> all_sent Q (send_entry H e P)"
  unfolding send_entry_def by (intro sent)

lemma all_sent_assert_tid [sent]: "(unat t < MAX_THREADS \<Longrightarrow> all_sent Q m) \<Longrightarrow> all_sent Q (assert_tid t m)"
  unfolding assert_tid_def by (intro sent)

lemma all_sent_wait [sent]: "all_sent Q (waitOnSignal signal buf sg)"
proof (induction sg arbitrary: buf)
  case (Cons a sg)
  have "all_sent Q (pin_signal_recv a buf)"
    by (auto simp: pin_signal_recv_def all_sent_def xret_def)
  then show ?case
    unfolding waitOnSignal.simps by (rule all_sent_xbind) (auto intro!: sent Cons.IH)
qed (simp add: all_sent_basic)

lemma all_sent_unset [sent]: "all_sent Q (unsetRoIThread t P)"
  unfolding unsetRoIThread_def by (intro sent)

lemma all_sent_keep [sent]: "all_sent Q m \<Longrightarrow> all_sent Q (keep_signals sg m)"
  unfolding keep_signals_def by (intro sent)

section \<open>The entries are well formed\<close>

lemma tid_int_small: "unat t < 2147483648 \<Longrightarrow> tid_int t = int (unat t)"
proof -
  assume "unat t < 2147483648"
  then have "int (unat t) < int 2147483648" by (simp only: of_nat_less_iff)
  then have u: "uint t < 2147483648" by simp
  then have "uint (ucast t :: 32 word) = uint t"
    by (simp add: unsigned_ucast_eq take_bit_int_eq_self)
  then have "tid_int t = signed_take_bit 31 (uint t)" by (simp add: tid_int_def sint_uint)
  also have "\<dots> = uint t" using u by (intro signed_take_bit_int_eq_self) (simp_all add: order_trans [of _ 0])
  finally show ?thesis by simp
qed

definition sent_ok :: "'is pintool \<Rightarrow> 64 word \<Rightarrow> trace_entry \<Rightarrow> bool" where
  "sent_ok P t e \<longleftrightarrow> operation e \<noteq> INVALID \<and> tid e = tid_int t \<and>
     (operation e = TRACE_END \<longrightarrow> isInRoI t P)"

lemma pm_functions_not_trace_end: "enum_name (pm_functions name) \<noteq> TRACE_END"
proof -
  have table: "fold (\<lambda>e m. m(fst e \<mapsto> snd e)) xs m = m ++ map_of (rev xs)" for xs :: "(string \<times> pm_func_t) list" and m
    by (induction xs arbitrary: m) (auto simp: fun_eq_iff map_add_def split: option.splits)
  have "list_all (\<lambda>e. enum_name (snd e) \<noteq> TRACE_END) pm_function_entries"
    by (simp add: pm_function_entries_def pm_func_def)
  then show ?thesis
    by (fastforce simp: pm_functions_def pm_func_init_def table pm_func_def list_all_iff split: option.splits dest!: map_of_SomeD)
qed

text \<open>
  At most one routine runs at one point of one function: the order of the registration of the
  instrumentation functions does not matter.
\<close>

lemmas inst_defs = FailurePointInst_def PMOpTraceInstPmem_def PMOpTraceInstTX_def RoISelection_def

lemma hooked_names:
  "FailurePointInst name \<noteq> [] \<Longrightarrow>
    name \<in> set [''pmfuzz_inject_failure'', ''_skip_failure_point_begin'', ''_skip_failure_point_end'']"
  "RoISelection name \<noteq> [] \<Longrightarrow>
    name \<in> set [''_roi_pre_begin'', ''_roi_pre_end'', ''_roi_post_begin'', ''_roi_post_end'',
      ''_testing_pre_complete'', ''_testing_post_complete'']"
  "PMOpTraceInstPmem name \<noteq> [] \<Longrightarrow>
    name \<in> set [''pmem_map_file'', ''pmem_unmap'', ''predrain_memory_barrier'', ''flush_clwb_nolog'',
      ''flush_clflushopt_nolog'', ''flush_clflush_nolog'', ''_add_commit_var'']"
  by (auto simp: inst_defs split: if_splits)

lemma pmdk_apart:
  "name \<in> set pmdk_internal_functs \<Longrightarrow>
   FailurePointInst name = [] \<and> PMOpTraceInstPmem name = [] \<and> PMOpTraceInstTX name = [] \<and> RoISelection name = []"
proof -
  have "list_all (\<lambda>name. FailurePointInst name = [] \<and> PMOpTraceInstPmem name = [] \<and> PMOpTraceInstTX name = [] \<and>
      RoISelection name = []) pmdk_internal_functs"
    by (simp add: pmdk_internal_functs_def inst_defs)
  then show "name \<in> set pmdk_internal_functs \<Longrightarrow> ?thesis" by (simp add: list_all_iff)
qed

lemma failure_apart:
  assumes "FailurePointInst name \<noteq> []"
  shows "PMOpTraceInstPmem name = [] \<and> PMOpTraceInstTX name = [] \<and> RoISelection name = []"
proof -
  have "list_all (\<lambda>name. PMOpTraceInstPmem name = [] \<and> PMOpTraceInstTX name = [] \<and> RoISelection name = [])
      [''pmfuzz_inject_failure'', ''_skip_failure_point_begin'', ''_skip_failure_point_end'']"
    by (simp add: inst_defs)
  then show ?thesis unfolding list_all_iff by (rule bspec [OF _ hooked_names(1) [OF assms]])
qed

lemma roi_apart:
  assumes "RoISelection name \<noteq> []"
  shows "PMOpTraceInstPmem name = [] \<and> PMOpTraceInstTX name = []"
proof -
  have "list_all (\<lambda>name. PMOpTraceInstPmem name = [] \<and> PMOpTraceInstTX name = [])
      [''_roi_pre_begin'', ''_roi_pre_end'', ''_roi_post_begin'', ''_roi_post_end'',
       ''_testing_pre_complete'', ''_testing_post_complete'']"
    by (simp add: inst_defs)
  then show ?thesis unfolding list_all_iff by (rule bspec [OF _ hooked_names(2) [OF assms]])
qed

lemma pmem_apart:
  assumes "PMOpTraceInstPmem name \<noteq> []"
  shows "PMOpTraceInstTX name = []"
proof -
  have "list_all (\<lambda>name. PMOpTraceInstTX name = [])
      [''pmem_map_file'', ''pmem_unmap'', ''predrain_memory_barrier'', ''flush_clwb_nolog'',
       ''flush_clflushopt_nolog'', ''flush_clflush_nolog'', ''_add_commit_var'']"
    by (simp add: inst_defs)
  then show ?thesis unfolding list_all_iff by (rule bspec [OF _ hooked_names(3) [OF assms]])
qed

lemma hooks_single:
  "length (filter (\<lambda>h. fst h = point) (FailurePointInst name)) \<le> 1"
  "length (filter (\<lambda>h. fst h = point) (PMOpTraceInstPmem name)) \<le> 1"
  "length (filter (\<lambda>h. fst h = point) (PMOpTraceInstTX name)) \<le> 1"
  "length (filter (\<lambda>h. fst h = point) (RoISelection name)) \<le> 1"
  "length (filter (\<lambda>h. fst h = point) (PMDKInternalFunct name)) \<le> 1"
  by (simp_all add: inst_defs PMDKInternalFunct_def)

lemma one_routine: "length (filter (\<lambda>h. fst h = point) (rtn_hooks P name)) \<le> 1"
proof (cases "name \<in> set pmdk_internal_functs")
  case True
  then show ?thesis using pmdk_apart [OF True] hooks_single(5) [of point name] by (simp add: rtn_hooks_def)
next
  case False
  then have none: "PMDKInternalFunct name = []" by (simp add: PMDKInternalFunct_def)
  show ?thesis
  proof (cases "FailurePointInst name = []")
    case no_failure: True
    show ?thesis
    proof (cases "RoISelection name = []")
      case True
      then show ?thesis
        using no_failure none pmem_apart [of name] hooks_single(2,3) [of point name]
        by (cases "PMOpTraceInstPmem name = []") (simp_all add: rtn_hooks_def)
    next
      case False
      then show ?thesis
        using no_failure none roi_apart [of name] hooks_single(4) [of point name] by (simp add: rtn_hooks_def)
    qed
  next
    case False
    then show ?thesis
      using none failure_apart [of name] hooks_single(1) [of point name] by (simp add: rtn_hooks_def)
  qed
qed

lemma run_call_one:
  "(\<forall>sg. run_call S H buf point C sg P = xret (Some (P, sg))) \<or>
   (\<exists>r. (point, r) \<in> set (rtn_hooks P (c_name C)) \<and>
     (\<forall>sg. run_call S H buf point C sg P = run_routine S H buf C r sg P))"
proof -
  let ?hs = "filter (\<lambda>h. fst h = point) (rtn_hooks P (c_name C))"
  have one: "xbind m (\<lambda>res. case res of None \<Rightarrow> xret None | Some (P1, sg1) \<Rightarrow> xret (Some (P1, sg1))) = m"
    for m :: "'a pin_run"
  proof -
    have "(\<lambda>res. case res of None \<Rightarrow> xret None | Some (P1, sg1) \<Rightarrow> xret (Some (P1, sg1))) =
        (xret :: _ \<Rightarrow> 'a pin_run)"
      by (auto simp: fun_eq_iff split: option.splits)
    then show ?thesis by simp
  qed
  show ?thesis
  proof (cases ?hs)
    case Nil
    then show ?thesis by (simp add: run_call_def)
  next
    case (Cons h hs)
    then have "hs = []" using one_routine [of point P "c_name C"] by simp
    moreover have "h \<in> set (rtn_hooks P (c_name C))" "fst h = point"
      using arg_cong [OF Cons, of set] by auto
    ultimately show ?thesis using Cons by (cases h) (auto simp: run_call_def one)
  qed
qed

section \<open>Calls\<close>

lemma sent_trivial: "operation e \<noteq> INVALID \<Longrightarrow> tid e = tid_int t \<Longrightarrow> operation e \<noteq> TRACE_END \<Longrightarrow> sent_ok P t e"
  by (simp add: sent_ok_def)

lemma trace_entry_tid [simp]: "tid (trace_entry_init n) = n"
  by (simp add: trace_entry_init_def)

lemma run_routine_sends: "all_sent (sent_ok P (c_tid C)) (run_routine S H buf C r sg P)"
proof (cases r)
  case AddFailurePoint
  have "isInRoI t (P\<lparr>cur_failure_id := n\<rparr>) = isInRoI t P" for t n by (simp add: isInRoI_def)
  then show ?thesis
    unfolding AddFailurePoint run_routine.simps addFailurePoint_def inject_failure_def Let_def
    by (intro sent) (auto simp: sent_ok_def)
next
  case CallRoIHandler
  show ?thesis
    unfolding CallRoIHandler run_routine.simps RoIHandler_def Let_def
    by (intro sent sent_trivial) simp_all
qed (simp only: run_routine.simps recordPmemAllocation_def recordPmemRetAllocation_def recordPmemDeallocation_def
    recordPmemRetCommon_def recordPmemFence_def recordPmemWriteback_def recordCommitVar_def recordPmemAllocationTX_def
    recordTXBound_def PMDKInternalFunctHandler_def Let_def;
    intro sent sent_trivial; simp add: pm_functions_not_trace_end split: if_splits)+

lemma failure_hook_enabled: "(point, AddFailurePoint) \<in> set (rtn_hooks P name) \<Longrightarrow> failure_enable P"
  by (auto simp: rtn_hooks_def inst_defs PMDKInternalFunct_def split: if_splits)

text \<open>
  C27. Everything the pintool sends when a function is called or returns is an entry the detector
  can work with: it has an operation and the number of the calling thread, and it announces a failure
  point only when the thread is in the region of interest.
\<close>

theorem call_entries_valid:
  assumes "run_call S H buf point C sg P = Inr (res, ms)" and "Trace e \<in> set ms" and "unat (c_tid C) < 2147483648"
  shows "operation e \<noteq> INVALID \<and> tid e = int (unat (c_tid C)) \<and> (operation e = TRACE_END \<longrightarrow> isInRoI (c_tid C) P)"
proof -
  have "all_sent (sent_ok P (c_tid C)) (run_call S H buf point C sg P)"
    using run_call_one [of S H buf point C P] by (auto simp: all_sent_basic run_routine_sends)
  with assms(1,2) have "sent_ok P (c_tid C) e" by (simp add: all_sent_basic)
  with assms(3) show ?thesis by (simp add: sent_ok_def tid_int_small)
qed

section \<open>Examples\<close>

definition example_pin_host :: pin_host where
  "example_pin_host = \<lparr>trace_write = (\<lambda>_. 56), pin_open = (\<lambda>_. 3), deref = (\<lambda>_. 4096)\<rparr>"

definition example_pin :: "ival list pintool" where
  "example_pin =
     (pintool_init list_set_ops)\<lparr>stage := PRE_FAILURE, fifo_enable := True, failure_enable := True, execIDStr := ''1''\<rparr>"

definition example_call :: "string \<Rightarrow> 64 word list \<Rightarrow> 64 word \<Rightarrow> call_info" where
  "example_call name args t =
     \<lparr>c_name = name, c_args = (\<lambda>i. if i < length args then args ! i else 0), c_result = 0,
      c_return_ip = 0x400500, c_tid = t\<rparr>"

lemmas example_pin_defs = example_pin_host_def example_pin_def pintool_init_def example_call_def

lemma flush_hooks:
  "rtn_hooks P ''flush_clwb_nolog'' = [(IPOINT_BEFORE, RecordPmemWriteback 0 1)]"
  by (simp add: rtn_hooks_def FailurePointInst_def PMDKInternalFunct_def pmdk_internal_functs_def
      PMOpTraceInstPmem_def PMOpTraceInstTX_def RoISelection_def pm_functions_names pm_func_def)

lemma send_enabled:
  "operation e \<noteq> INVALID \<Longrightarrow> fifo_enable P \<Longrightarrow> trace_write H e = 56 \<Longrightarrow> send_entry H e P = Inr (P, [Trace e])"
  by (simp add: send_entry_def pinfifo_write_def sizeof_trace_entry_def)

theorem call_entries_valid_witness:
  "\<exists>e. run_call list_set_ops example_pin_host [] IPOINT_BEFORE (example_call ''flush_clwb_nolog'' [0x10000000040, 64] 3) []
      example_pin = Inr (Some (example_pin, []), [Trace e]) \<and> operation e \<noteq> INVALID \<and> tid e = 3"
proof -
  let ?C = "example_call ''flush_clwb_nolog'' [0x10000000040, 64] 3"
  let ?e = "(trace_entry_init (tid_int 3))\<lparr>operation := CLWB, func_ret := False, src_addr := 0x10000000040,
      size_of := 64, instr_ptr := 0x400500\<rparr>"
  have run: "run_call list_set_ops example_pin_host [] IPOINT_BEFORE ?C [] example_pin = Inr (Some (example_pin, []), [Trace ?e])"
    by (simp add: run_call_def flush_hooks example_pin_defs recordPmemWriteback_def func_arg_def assert_tid_def
        MAX_THREADS_def keep_signals_def send_enabled)
  from call_entries_valid [OF run, of ?e] show ?thesis
    using run by (auto simp: example_call_def)
qed

end
