(* ===== verification/XF_PinFlow.thy ===== *)
theory XF_PinFlow
  imports XF_PinProps
begin

text \<open>
  The behaviour of the pintool over time: the region of interest belongs to one thread, a failure
  point holds the program until the detector answers, the annotations of a program reach the
  pintool or do not, and the list of failure points is read back as it was written.
\<close>

section \<open>The region of interest belongs to one thread\<close>

text \<open>Every state a normal return can have satisfies the predicate.\<close>

definition all_res :: "('a \<Rightarrow> bool) \<Rightarrow> ('e, 'a) outcome \<Rightarrow> bool" where
  "all_res Q m \<longleftrightarrow> (\<forall>x es. m = Inr (x, es) \<longrightarrow> Q x)"

named_theorems res \<open>what holds of the result\<close>

lemma all_res_Inl [res]: "all_res Q (Inl f)"
  by (simp add: all_res_def)

lemma all_res_xret [res]: "Q x \<Longrightarrow> all_res Q (xret x)"
  by (simp add: all_res_def xret_def)

lemma all_res_Inr [res]: "Q x \<Longrightarrow> all_res Q (Inr (x, es))"
  by (simp add: all_res_def)

lemma all_res_xassert [res]: "(c \<Longrightarrow> all_res Q m) \<Longrightarrow> all_res Q (xassert c msg m)"
  by (simp add: xassert_def all_res_def)

lemma all_res_xemit [res]: "all_res Q m \<Longrightarrow> all_res Q (xemit es m)"
  by (cases m) (auto simp: all_res_def)

lemma all_res_xbind: "all_res R m \<Longrightarrow> (\<And>x. R x \<Longrightarrow> all_res Q (k x)) \<Longrightarrow> all_res Q (xbind m k)"
  unfolding all_res_def xbind_eq_Inr by blast

lemma all_res_any: "(\<And>x. all_res Q (k x)) \<Longrightarrow> all_res Q (xbind m k)"
  unfolding all_res_def xbind_eq_Inr by blast

lemma all_res_if [res]: "(c \<Longrightarrow> all_res Q a) \<Longrightarrow> (\<not> c \<Longrightarrow> all_res Q b) \<Longrightarrow> all_res Q (if c then a else b)"
  by simp

lemma all_res_send [res]: "Q P \<Longrightarrow> all_res Q (send_entry H e P)"
  unfolding send_entry_def by (intro res all_res_any)

lemma all_res_write_entry [res]: "Q P \<Longrightarrow> all_res Q (write_entry H e P)"
  unfolding write_entry_def by (intro res all_res_any)

lemma all_res_assert_tid [res]: "(unat t < MAX_THREADS \<Longrightarrow> all_res Q m) \<Longrightarrow> all_res Q (assert_tid t m)"
  unfolding assert_tid_def by (intro res)

abbreviation result_keeps :: "('is pintool \<Rightarrow> bool) \<Rightarrow> ('is pintool \<times> (int \<times> string) list) option \<Rightarrow> bool" where
  "result_keeps Q r \<equiv> (case r of None \<Rightarrow> True | Some (P, _) \<Rightarrow> Q P)"

lemma all_res_keep [res]: "all_res Q m \<Longrightarrow> all_res (result_keeps Q) (keep_signals sg m)"
  unfolding keep_signals_def by (erule all_res_xbind) (auto intro!: res)

lemma write_entry_same: "write_entry H e P = Inr (P', es) \<Longrightarrow> P' = P"
  by (auto simp: write_entry_def xbind_eq_Inr xret_def)

lemma inject_failure_keeps:
  assumes "inject_failure H buf sg ip t P = Inr (Some (P', sg'), ms)"
  shows "\<exists>n. P' = P\<lparr>failure_point_count := n\<rparr>"
proof -
  from assms obtain n P1 es where w: "write_entry H ((trace_entry_init (tid_int t))\<lparr>operation := TRACE_END, instr_ptr := ip\<rparr>)
      (P\<lparr>failure_point_count := n\<rparr>) = Inr (P1, es)" and "P' = P1"
    by (auto simp: inject_failure_def xemit_eq_Inr xbind_eq_Inr xret_def split: option.splits)
  with write_entry_same [OF w] show ?thesis by blast
qed

lemma failure_point_keeps:
  assumes "addFailurePoint H buf sg ip f t P = Inr (Some (P', sg'), ms)"
  shows "roi_tid P' = roi_tid P \<and> roi_tid_set P' = roi_tid_set P \<and> fifo_enable P' = fifo_enable P"
proof -
  from assms obtain i where "(\<exists>n. P' = P\<lparr>cur_failure_id := i, failure_point_count := n\<rparr>) \<or>
      (\<exists>b. P' = P\<lparr>cur_failure_id := i, skip_failure := b\<rparr>) \<or> P' = P\<lparr>cur_failure_id := i\<rparr>"
    unfolding addFailurePoint_def xbind_eq_Inr Let_def
    by (auto simp: xassert_eq_Inr xret_def split: if_splits dest!: inject_failure_keeps)
  then show ?thesis by auto
qed

lemma roi_kept:
  assumes "isInRoI t P" and "c_tid C \<noteq> t"
  shows "all_res (result_keeps (isInRoI t)) (run_routine S H buf C r sg P)"
proof (cases r)
  case AddFailurePoint
  show ?thesis
    using assms(1) by (auto simp: AddFailurePoint all_res_def isInRoI_def dest!: failure_point_keeps split: option.splits)
next
  case CallRoIHandler
  have "trySetRoIThread u P = (False, P)" for u using assms(1) by (simp add: trySetRoIThread_def isInRoI_def)
  moreover have "unsetRoIThread (c_tid C) P = xret P" using assms by (simp add: unsetRoIThread_def isInRoI_def)
  ultimately show ?thesis
    unfolding CallRoIHandler run_routine.simps RoIHandler_def Let_def
    using assms(1) by (auto intro!: res all_res_xbind [OF all_res_write_entry [of "isInRoI t"]] simp: isInRoI_def)
qed (use assms(1) in \<open>auto intro!: res simp: recordPmemAllocation_def recordPmemRetAllocation_def recordPmemDeallocation_def
    recordPmemRetCommon_def recordPmemFence_def recordPmemWriteback_def recordCommitVar_def recordPmemAllocationTX_def
    recordTXBound_def PMDKInternalFunctHandler_def isInRoI_def Let_def\<close>)

text \<open>
  C30. While a thread is in the region of interest, no call of another thread takes the region from
  it: neither the end of a region nor the beginning of another one.
\<close>

theorem roi_exclusive:
  assumes "isInRoI t P" and "c_tid C \<noteq> t" and "run_call S H buf point C sg P = Inr (Some (P', sg'), ms)"
  shows "isInRoI t P' \<and> \<not> isInRoI (c_tid C) P'"
proof -
  have "all_res (result_keeps (isInRoI t)) (run_call S H buf point C sg P)"
    using run_call_one [of S H buf point C P] roi_kept [OF assms(1,2)] assms(1) by (auto intro!: all_res_xret)
  with assms(2,3) show ?thesis by (auto simp: all_res_def isInRoI_def)
qed

lemma roi_hooks: "rtn_hooks P ''_roi_pre_begin'' = [(IPOINT_BEFORE, CallRoIHandler)]"
  "rtn_hooks P ''_roi_pre_end'' = [(IPOINT_BEFORE, CallRoIHandler)]"
  by (simp_all add: rtn_hooks_def inst_defs PMDKInternalFunct_def pmdk_internal_functs_def)

theorem roi_exclusive_witness:
  "\<exists>P'. run_call list_set_ops example_pin_host [] IPOINT_BEFORE (example_call ''_roi_pre_end'' [] 2) []
      (example_pin\<lparr>roi_tid := 1, roi_tid_set := True\<rparr>) = Inr (Some (P', []), []) \<and> isInRoI 1 P' \<and> \<not> isInRoI 2 P'"
proof -
  let ?P = "example_pin\<lparr>roi_tid := 1, roi_tid_set := True\<rparr>" and ?C = "example_call ''_roi_pre_end'' [] 2"
  have run: "run_call list_set_ops example_pin_host [] IPOINT_BEFORE ?C [] ?P = Inr (Some (?P, []), [])"
    by (simp add: run_call_def roi_hooks example_pin_defs RoIHandler_def unsetRoIThread_def keep_signals_def xret_def)
  have "isInRoI 1 ?P" "c_tid ?C \<noteq> 1" by (simp_all add: isInRoI_def example_call_def)
  from roi_exclusive [OF this run] show ?thesis using run by (auto simp: example_call_def)
qed

section \<open>Instructions\<close>

lemma all_sent_xfor:
  "(\<And>x s. x \<in> set xs \<Longrightarrow> R s \<Longrightarrow> all_sent Q (f x s)) \<Longrightarrow>
   (\<And>x s. R s \<Longrightarrow> all_res R (f x s)) \<Longrightarrow> R s \<Longrightarrow> all_sent Q (xfor f xs s)"
proof (induction xs arbitrary: s)
  case (Cons x xs)
  show ?case
    unfolding all_sent_def
  proof (intro allI impI)
    fix s' es e
    assume "xfor f (x # xs) s = Inr (s', es)" and e: "Trace e \<in> set es"
    then obtain s1 es1 es2 where 1: "f x s = Inr (s1, es1)" "xfor f xs s1 = Inr (s', es2)" "es = es1 @ es2"
      by (auto simp: xbind_eq_Inr)
    have "R s1" using Cons.prems(2) [OF Cons.prems(3), of x] 1(1) by (simp add: all_res_def)
    then have "all_sent Q (xfor f xs s1)" using Cons by simp
    moreover have "all_sent Q (f x s)" using Cons.prems by simp
    ultimately show "Q e" using 1 e by (auto simp: all_sent_def)
  qed
qed (simp add: all_sent_basic)

lemma run_ins_hook_same: "all_res (\<lambda>P'. P' = P) (run_ins_hook H X h P)"
  by (cases h) (auto intro!: res simp: recordPmemRead_def recordPmemWrite_def)

definition instruction_sends :: "'is pintool \<Rightarrow> ins_exec \<Rightarrow> trace_entry \<Rightarrow> bool" where
  "instruction_sends P X e \<longleftrightarrow>
     operation e = READ \<and> read_enable P \<and> isInRoI (x_tid X) P \<and> isPmemAddr (src_addr e) (size_of e) \<or>
     operation e = WRITE \<and> isPmemAddr (dst_addr e) (size_of e)"

lemma read_hooks_enabled: "CallPmemRead i \<in> set (operand_hooks b nt n ops) \<Longrightarrow> b"
  by (induction b nt n ops rule: operand_hooks.induct) (auto split: if_splits)

lemma instruction_sent:
  assumes "run_instruction H ins X P = Inr (P', ms)" and "Trace e \<in> set ms"
  shows "instruction_sends P X e"
proof -
  have hook: "all_sent (instruction_sends P X) (run_ins_hook H X h P)" if "h \<in> set (PMReadAndWriteInst P ins)" for h
  proof (cases h)
    case (CallPmemRead i)
    then have "read_enable P" using that read_hooks_enabled by (auto simp: PMReadAndWriteInst_def split: if_splits)
    then show ?thesis
      unfolding CallPmemRead run_ins_hook.simps recordPmemRead_def
      by (intro sent) (auto simp: instruction_sends_def)
  next
    case (CallPmemWrite i nt)
    show ?thesis
      unfolding CallPmemWrite run_ins_hook.simps recordPmemWrite_def
      by (intro sent) (auto simp: instruction_sends_def)
  qed
  have "all_sent (instruction_sends P X) (run_instruction H ins X P)"
    unfolding run_instruction_def
    by (rule all_sent_xfor [where R = "\<lambda>P'. P' = P"]) (use hook run_ins_hook_same in auto)
  with assms show ?thesis by (simp add: all_sent_def)
qed

text \<open>
  C32. An instruction makes the pintool send accesses to persistent memory only: a read only when
  reads are tracked and the thread is in the region of interest, a write always.
\<close>

theorem instruction_entries:
  assumes "run_instruction H ins X P = Inr (P', ms)" and "Trace e \<in> set ms"
  shows "operation e = READ \<and> read_enable P \<and> isInRoI (x_tid X) P \<and> isPmemAddr (src_addr e) (size_of e) \<or>
      operation e = WRITE \<and> isPmemAddr (dst_addr e) (size_of e)"
  using instruction_sent [OF assms] by (simp add: instruction_sends_def)

theorem instruction_entries_witness:
  "\<exists>P' e. run_instruction example_pin_host \<lparr>ins_text = ''mov qword ptr [rax], rbx'', ins_operands = [(False, True)]\<rparr>
      \<lparr>x_ip = 0x400600, x_ea = (\<lambda>_. 0x10000000040), x_read_size = 0, x_write_size = 8, x_tid = 3\<rparr> example_pin =
        Inr (P', [Trace e]) \<and> operation e = WRITE \<and> isPmemAddr (dst_addr e) (size_of e)"
proof -
  let ?ins = "\<lparr>ins_text = ''mov qword ptr [rax], rbx'', ins_operands = [(False, True)]\<rparr>"
  let ?X = "\<lparr>x_ip = 0x400600, x_ea = (\<lambda>_. 0x10000000040), x_read_size = 0, x_write_size = 8, x_tid = 3\<rparr>"
  let ?e = "(trace_entry_init (tid_int 3))\<lparr>operation := WRITE, func_ret := False, dst_addr := 0x10000000040,
      size_of := 8, instr_ptr := 0x400600, non_temporal := 0\<rparr>"
  have run: "run_instruction example_pin_host ?ins ?X example_pin = Inr (example_pin, [Trace ?e])"
    by (simp add: run_instruction_def PMReadAndWriteInst_def str_contains_def str_prefix_def recordPmemWrite_def
        assert_tid_def MAX_THREADS_def isPmemAddr_def PM_ADDR_BASE_def PM_ADDR_SIZE_def send_enabled example_pin_defs)
  from instruction_entries [OF run, of ?e] show ?thesis using run by auto
qed

section \<open>Failure points\<close>

lemma wait_accepts_continue:
  "waitOnSignal PIN_CONTINUE_SIGNAL buf ((13, PIN_CONTINUE_SIGNAL @ [CHR 0x00]) # rest) = xret (Some rest)"
  by (simp add: pin_signal_recv_def PIN_CONTINUE_SIGNAL_def c_char_def eval_nat_numeral)

lemma write_enabled:
  "fifo_enable P \<Longrightarrow> trace_write H e = 56 \<Longrightarrow> write_entry H e P = Inr (P, [Trace e])"
  by (simp add: write_entry_def pinfifo_write_def sizeof_trace_entry_def)

text \<open>
  C13. A failure point of the thread in the region of interest stops all threads, tells the detector,
  and holds the program: without a signal it does not return, and with the message the detector
  sends it returns, resumes the threads and leaves the later messages unread.
\<close>

theorem failure_point_handshake:
  fixes ip :: addr_t
  assumes "isInRoI t P" "\<not> failure_list_enable P" "fifo_enable P" "\<forall>e. trace_write H e = 56"
    and "cur_failure_id P \<noteq> 2147483647" "failure_point_count P \<noteq> 2147483647"
    and "f \<notin> {''_skip_failure_point_begin'', ''_skip_failure_point_end''}"
  defines "e \<equiv> (trace_entry_init (tid_int t))\<lparr>operation := TRACE_END, instr_ptr := ip\<rparr>"
    and "P' \<equiv> P\<lparr>cur_failure_id := cur_failure_id P + 1, failure_point_count := failure_point_count P + 1\<rparr>"
  shows "addFailurePoint H buf [] ip f t P = Inr (None, [StopThreads t, Trace e]) \<and>
    addFailurePoint H buf ((13, PIN_CONTINUE_SIGNAL @ [CHR 0x00]) # rest) ip f t P =
      Inr (Some (P', rest), [StopThreads t, Trace e, ResumeThreads t])"
proof -
  have "isInRoI t (P\<lparr>cur_failure_id := cur_failure_id P + 1\<rparr>)" using assms(1) by (simp add: isInRoI_def)
  with assms show ?thesis
    by (simp add: addFailurePoint_def inject_failure_def int_inc_def write_enabled wait_accepts_continue
        Let_def del: waitOnSignal.simps(2))
qed

theorem failure_point_handshake_witness:
  "addFailurePoint example_pin_host [] ((13, PIN_CONTINUE_SIGNAL @ [CHR 0x00]) # []) 0x400700 ''pmfuzz_inject_failure'' 1
     (example_pin\<lparr>roi_tid := 1, roi_tid_set := True\<rparr>) =
   Inr (Some (example_pin\<lparr>roi_tid := 1, roi_tid_set := True, cur_failure_id := 0, failure_point_count := 1\<rparr>, []),
     [StopThreads 1, Trace ((trace_entry_init (tid_int 1))\<lparr>operation := TRACE_END, instr_ptr := 0x400700\<rparr>), ResumeThreads 1])"
  using failure_point_handshake [where t = 1 and P = "example_pin\<lparr>roi_tid := 1, roi_tid_set := True\<rparr>" and
      H = example_pin_host and f = "''pmfuzz_inject_failure''" and ip = "0x400700" and buf = "[]" and rest = "[]"]
  by (simp add: isInRoI_def example_pin_defs)

text \<open>
  A one-character read ends the wait whatever it is, as the last character of a read is not
  compared.
\<close>

lemma one_character_accepted: "waitOnSignal signal buf ((1, [c]) # rest) = xret (Some rest)"
  by (simp add: pin_signal_recv_def)

text \<open>
  The annotation to skip failure points has no effect on them: what a failure point sends and
  whether it waits does not depend on the flag the annotation sets.
\<close>

lemma skip_failure_ignored:
  assumes "f \<notin> {''_skip_failure_point_begin'', ''_skip_failure_point_end''}"
  shows "addFailurePoint H buf sg ip f t (P\<lparr>skip_failure := b\<rparr>) =
    xbind (addFailurePoint H buf sg ip f t P) (\<lambda>r. xret (map_option (map_prod (\<lambda>Q. Q\<lparr>skip_failure := b\<rparr>) (\<lambda>x. x)) r))"
proof -
  have w: "write_entry H e (Q\<lparr>skip_failure := b\<rparr>) = xbind (write_entry H e Q) (\<lambda>Q. xret (Q\<lparr>skip_failure := b\<rparr>))" for e and Q :: "'a pintool"
    by (simp add: write_entry_def pinfifo_write_def)
  have opt: "xbind (case z of None \<Rightarrow> xret None | Some rest \<Rightarrow> Inr (Some (Q, rest), es))
      (\<lambda>r. xret (map_option (map_prod (\<lambda>Q. Q\<lparr>skip_failure := b\<rparr>) (\<lambda>x. x)) r)) =
      (case z of None \<Rightarrow> xret None | Some rest \<Rightarrow> Inr (Some (Q\<lparr>skip_failure := b\<rparr>, rest), es))"
    for z :: "(int \<times> string) list option" and Q :: "'a pintool" and es :: "pin_msg list"
    by (cases z) simp_all
  have swap: "Q\<lparr>skip_failure := b, failure_point_count := n\<rparr> = Q\<lparr>failure_point_count := n, skip_failure := b\<rparr>"
      "Q\<lparr>skip_failure := b, cur_failure_id := n\<rparr> = Q\<lparr>cur_failure_id := n, skip_failure := b\<rparr>" for Q :: "'a pintool" and n
    by simp_all
  have inj: "inject_failure H buf sg ip t (Q\<lparr>skip_failure := b\<rparr>) =
      xbind (inject_failure H buf sg ip t Q) (\<lambda>r. xret (map_option (map_prod (\<lambda>Q. Q\<lparr>skip_failure := b\<rparr>) (\<lambda>x. x)) r))" for Q :: "'a pintool"
    unfolding inject_failure_def
    by (cases "failure_point_count Q = 2147483647")
      (simp_all add: int_inc_def xbind_assoc swap w opt)
  have roi: "isInRoI t (P\<lparr>cur_failure_id := i, skip_failure := b\<rparr>) = isInRoI t (P\<lparr>cur_failure_id := i\<rparr>)" for i
    by (simp add: isInRoI_def)
  show ?thesis
    using assms
    by (cases "cur_failure_id P = 2147483647")
      (simp_all add: addFailurePoint_def int_inc_def Let_def roi swap inj)
qed

lemma skip_failure_ignored_example:
  "addFailurePoint example_pin_host [] [] 0 ''pmfuzz_inject_failure'' 1 (example_pin\<lparr>skip_failure := True\<rparr>) =
   xbind (addFailurePoint example_pin_host [] [] 0 ''pmfuzz_inject_failure'' 1 example_pin)
     (\<lambda>r. xret (map_option (map_prod (\<lambda>Q. Q\<lparr>skip_failure := True\<rparr>) (\<lambda>x. x)) r))"
  by (rule skip_failure_ignored) simp

end
