(* ===== verification/XF_PinList.thy ===== *)
theory XF_PinList
  imports XF_PinFlow
begin

text \<open>
  The list of failure points: a file of numbers is read back as the set of its numbers, and the table
  never grows beyond its limit.
\<close>

section \<open>Scanning a number\<close>

lemma scan_space: "is_space c \<Longrightarrow> scan_int (c # s) = scan_int s"
  by (simp add: scan_int_def)

lemma digit_not_space: "is_digit c \<Longrightarrow> \<not> is_space c \<and> c \<noteq> CHR ''-'' \<and> c \<noteq> CHR ''+''"
  by (auto simp: is_digit_def is_space_def)

lemma dec_value_stop: "\<not> is_digit c \<Longrightarrow> dec_value acc (w @ c # s) = dec_value acc w"
  by (induction w arbitrary: acc) auto

lemma dropWhile_digits: "\<forall>d \<in> set w. is_digit d \<Longrightarrow> \<not> is_digit c \<Longrightarrow> dropWhile is_digit (w @ c # s) = c # s"
  by (induction w) auto

lemma scan_number:
  assumes "-2147483648 \<le> i" "i \<le> 2147483647" "\<not> is_digit c"
  shows "scan_int (to_string i @ c # s) = ScanInt i (c # s)"
proof -
  let ?w = "nat_str (nat (if i < 0 then - i else i))"
  obtain d w where w: "?w = d # w" using nat_str_Cons by blast
  have digits: "\<forall>x \<in> set ?w. is_digit x" using nat_str_digits by blast
  then have d: "is_digit d" using w by simp
  have val: "dec_value 0 (?w @ c # s) = nat (if i < 0 then - i else i)"
    using dec_value_stop [OF assms(3)] dec_value_nat_str by simp
  have rest: "dropWhile is_digit (?w @ c # s) = c # s" by (rule dropWhile_digits [OF digits assms(3)])
  show ?thesis
  proof (cases "i < 0")
    case True
    have "\<not> is_space (CHR ''-'')" by (simp add: is_space_def)
    then show ?thesis
      using True val rest w d assms(1) by (simp add: scan_int_def to_string_def Let_def)
  next
    case False
    then show ?thesis
      using val rest w d digit_not_space [OF d] assms(2) by (simp add: scan_int_def to_string_def Let_def)
  qed
qed

section \<open>The whole file\<close>

definition insert_key :: "int \<Rightarrow> int list \<Rightarrow> int list" where
  "insert_key i m = (if i \<in> set m then m else m @ [i])"

lemma length_insert_key: "length (insert_key i m) \<le> Suc (length m)"
  by (simp add: insert_key_def)

lemma set_fold_insert: "set (fold insert_key ids m) = set m \<union> set ids"
  by (induction ids arbitrary: m) (auto simp: insert_key_def)

definition failure_text :: "int list \<Rightarrow> string" where
  "failure_text ids = concat (map (\<lambda>i. to_string i @ [CHR 0x0A]) ids)"

lemma scan_failures_text:
  "\<forall>i \<in> set ids. -2147483648 \<le> i \<and> i \<le> 2147483647 \<Longrightarrow> length m + length ids \<le> MAX_FAILURE_COUNT \<Longrightarrow>
   scan_failures (failure_text ids) m = xret (fold insert_key ids m) \<and>
   scan_failures (CHR 0x0A # failure_text ids) m = xret (fold insert_key ids m)"
proof (induction ids arbitrary: m)
  case Nil
  have nl: "is_space (CHR 0x0A)" by (simp add: is_space_def)
  show ?case by (simp add: failure_text_def scan_failures.simps [of "[]"] scan_failures.simps [of "[_]"] scan_int_def nl)
next
  case (Cons i ids)
  have nl: "is_space (CHR 0x0A)" "\<not> is_digit (CHR 0x0A)" by (simp_all add: is_space_def is_digit_def)
  have scan: "scan_int (failure_text (i # ids)) = ScanInt i (CHR 0x0A # failure_text ids)"
    using Cons.prems(1) scan_number [OF _ _ nl(2), of i "failure_text ids"] by (simp add: failure_text_def)
  have IH: "scan_failures (CHR 0x0A # failure_text ids) (insert_key i m) = xret (fold insert_key ids (insert_key i m))"
    using Cons.IH [of "insert_key i m"] Cons.prems length_insert_key [of i m] by auto
  have less: "length m < MAX_FAILURE_COUNT" using Cons.prems(2) by simp
  have "scan_failures s m = scan_failures (CHR 0x0A # failure_text ids) (insert_key i m)"
    if "scan_int s = ScanInt i (CHR 0x0A # failure_text ids)" for s
    using that less by (subst scan_failures.simps) (simp add: insert_key_def)
  with scan IH show ?case by (simp add: scan_space [OF nl(1)])
qed

text \<open>
  C36. A file with one number per line, at most as many as the table may hold, is read back: the
  selected failure points are exactly the numbers of the file.
\<close>

theorem failure_list_roundtrip:
  assumes "\<forall>i \<in> set ids. -2147483648 \<le> i \<and> i \<le> 2147483647" "length ids \<le> MAX_FAILURE_COUNT" "failure_map P = []"
  shows "\<exists>m. parseFailureList (Some (failure_text ids)) P = xret (P\<lparr>failure_map := m\<rparr>) \<and> set m = set ids"
  using scan_failures_text [of ids "[]"] assms set_fold_insert [of ids "[]"]
  by (intro exI [of _ "fold insert_key ids []"]) (simp add: parseFailureList_def)

theorem failure_list_roundtrip_witness:
  "\<exists>m. parseFailureList (Some (failure_text [3, 17, 3, -1])) example_pin = xret (example_pin\<lparr>failure_map := m\<rparr>) \<and>
     set m = {3, 17, -1}"
  using failure_list_roundtrip [of "[3, 17, 3, -1]" example_pin]
  by (auto simp: MAX_FAILURE_COUNT_def example_pin_def pintool_init_def)

lemma scan_failures_bound:
  "scan_failures s m = Inr (m', es) \<Longrightarrow> length m \<le> MAX_FAILURE_COUNT \<Longrightarrow> length m' \<le> MAX_FAILURE_COUNT \<and> (distinct m \<longrightarrow> distinct m')"
proof (induction s m arbitrary: m' es rule: scan_failures.induct)
  case (1 s m)
  show ?case
  proof (cases "scan_int s")
    case (ScanInt i r)
    show ?thesis
    proof (cases "length m < MAX_FAILURE_COUNT")
      case True
      with "1.prems"(1) ScanInt have "scan_failures r (if i \<in> set m then m else m @ [i]) = Inr (m', es)"
        by (simp add: scan_failures.simps [of s])
      from "1.IH" [OF ScanInt True this] True show ?thesis by auto
    next
      case False
      with "1.prems" ScanInt show ?thesis by (simp add: scan_failures.simps [of s] xret_def)
    qed
  qed (use "1.prems" in \<open>auto simp: scan_failures.simps [of s] xret_def\<close>)
qed

text \<open>
  Whatever the file holds, the table of selected failure points has at most as many entries as
  the limit, all of them different.
\<close>

lemma failure_list_bounded:
  assumes "parseFailureList infile P = Inr (P', es)" "failure_map P = []"
  shows "length (failure_map P') \<le> 100000 \<and> distinct (failure_map P')"
proof -
  from assms obtain s m where "scan_failures s [] = Inr (m, es)" "P' = P\<lparr>failure_map := m\<rparr>"
    by (auto simp: parseFailureList_def xbind_eq_Inr xret_def split: option.splits)
  then show ?thesis using scan_failures_bound [of s "[]" m es] by (simp add: MAX_FAILURE_COUNT_def)
qed

lemma failure_list_bounded_example:
  "length (failure_map (fst (projr (parseFailureList (Some ''5 5 6'') example_pin)))) \<le> 100000"
proof -
  have "\<exists>P'. parseFailureList (Some ''5 5 6'') example_pin = Inr (P', [])"
  proof -
    have "scan_int ''5 5 6'' = ScanInt 5 '' 5 6''" "scan_int '' 5 6'' = ScanInt 5 '' 6''" "scan_int '' 6'' = ScanInt 6 []"
        "scan_int [] = ScanEOF"
      by code_simp+
    then show ?thesis
      by (simp add: parseFailureList_def scan_failures.simps MAX_FAILURE_COUNT_def xret_def)
  qed
  then obtain P' where P': "parseFailureList (Some ''5 5 6'') example_pin = Inr (P', [])" by blast
  from failure_list_bounded [OF P'] P' show ?thesis by (simp add: example_pin_def pintool_init_def)
qed

end
