(* ===== verification/XF_Links.thy ===== *)
theory XF_Links
  imports XF_PinFlow XF_Detection
begin

text \<open>
  How the parts of the program fit together: the annotations of the program and the pintool, the
  pipes of the pintool and of the detector, the entries of the pintool and the detector that reads
  them, and an instruction of the program and the report about it.
\<close>

section \<open>Annotations\<close>

lemma unhooked_names:
  "rtn_hooks P ''_add_failure_point'' = []" "rtn_hooks P ''_skipDetectionBegin'' = []" "rtn_hooks P ''_skipDetectionEnd'' = []"
  by (simp_all add: rtn_hooks_def inst_defs PMDKInternalFunct_def pmdk_internal_functs_def)

text \<open>
  Three annotations do not reach the detector: the functions they call are not instrumented, so an
  added failure point injects no failure, and the marks around code whose detection is to be
  skipped send nothing.
\<close>

lemma annotations_without_effect:
  assumes "XFDetector_addFailurePoint condition I = Inr (I', ms) \<or>
      skipDetectionBegin getenv condition stg I = Inr (I', ms) \<or>
      skipDetectionEnd getenv condition stg I = Inr (I', ms)"
  shows "run_markers S H buf t ip ms sg P = xret (Some (P, sg))"
proof -
  have "ms = [] \<or> (\<exists>name \<in> {''_add_failure_point'', ''_skipDetectionBegin'', ''_skipDetectionEnd''}. ms = [Marker name []])"
    using assms
    by (auto simp: XFDetector_addFailurePoint_def assert_incomplete_def add_failure_point_def skipDetectionBegin_def
        skipDetectionEnd_def skipDetectionBegin_marker_def skipDetectionEnd_marker_def xassert_eq_Inr xret_def split: if_splits)
  then show ?thesis
    by (auto simp: run_call_def marker_call_def unhooked_names)
qed

lemma annotations_without_effect_example:
  "\<exists>I' ms. XFDetector_addFailurePoint 1 iface_init = Inr (I', ms) \<and> ms \<noteq> [] \<and>
     run_markers list_set_ops example_pin_host [] 1 0x400800 ms [] (example_pin\<lparr>roi_tid := 1, roi_tid_set := True\<rparr>) =
       xret (Some (example_pin\<lparr>roi_tid := 1, roi_tid_set := True\<rparr>, []))"
proof -
  have "\<exists>I'. XFDetector_addFailurePoint 1 iface_init = Inr (I', [Marker ''_add_failure_point'' []])"
    by (simp add: XFDetector_addFailurePoint_def assert_incomplete_def add_failure_point_def iface_init_def)
  then obtain I' where I': "XFDetector_addFailurePoint 1 iface_init = Inr (I', [Marker ''_add_failure_point'' []])" by blast
  from annotations_without_effect [OF disjI1 [OF this]] I' show ?thesis by blast
qed

text \<open>
  The annotation of the region of interest works: the first thread that begins a region in the
  running stage is the thread the pintool observes, until that thread ends it.
\<close>

lemma roi_annotation:
  assumes "condition \<noteq> 0" "stage P = PRE_FAILURE" "\<not> roi_tid_set P"
    and "XFDetector_RoIBegin condition PRE_FAILURE I = Inr (I1, ms1)"
    and "XFDetector_RoIEnd condition PRE_FAILURE I1 = Inr (I2, ms2)"
  shows "\<exists>P1 P2. run_markers S H buf t ip ms1 sg P = xret (Some (P1, sg)) \<and> isInRoI t P1 \<and>
      run_markers S H buf t ip ms2 sg P1 = xret (Some (P2, sg)) \<and> \<not> isInRoI t P2"
proof -
  from assms(1,4,5) have ms: "ms1 = [Marker ''_roi_pre_begin'' []]" "ms2 = [Marker ''_roi_pre_end'' []]"
    by (auto simp: XFDetector_RoIBegin_def XFDetector_RoIEnd_def assert_incomplete_def by_stage_def roi_pre_begin_def
        roi_pre_end_def xassert_eq_Inr xemit_eq_Inr xbind_eq_Inr xret_def)
  show ?thesis
    using assms(2,3)
    by (simp add: ms run_call_def marker_call_def roi_hooks RoIHandler_def trySetRoIThread_def unsetRoIThread_def
        keep_signals_def isInRoI_def Let_def)
qed

lemma roi_annotation_example:
  "\<exists>I1 I2 ms1 ms2 P1 P2. XFDetector_RoIBegin 1 PRE_FAILURE iface_init = Inr (I1, ms1) \<and>
     XFDetector_RoIEnd 1 PRE_FAILURE I1 = Inr (I2, ms2) \<and>
     run_markers list_set_ops example_pin_host [] 4 0 ms1 [] example_pin = xret (Some (P1, [])) \<and> isInRoI 4 P1 \<and>
     run_markers list_set_ops example_pin_host [] 4 0 ms2 [] P1 = xret (Some (P2, [])) \<and> \<not> isInRoI 4 P2"
proof -
  obtain I1 ms1 I2 ms2 where I: "XFDetector_RoIBegin 1 PRE_FAILURE iface_init = Inr (I1, ms1)"
      "XFDetector_RoIEnd 1 PRE_FAILURE I1 = Inr (I2, ms2)"
    by (simp add: XFDetector_RoIBegin_def XFDetector_RoIEnd_def assert_incomplete_def by_stage_def roi_pre_begin_def
        roi_pre_end_def iface_init_def iface_consts)
  have "stage example_pin = PRE_FAILURE" "\<not> roi_tid_set example_pin" by (simp_all add: example_pin_def pintool_init_def)
  from roi_annotation [OF _ this I] I show ?thesis by fastforce
qed

text \<open>
  A region whose condition is false still changes the status of the thread: the next region that is
  to be observed fails its assertion.
\<close>

lemma unselected_region_blocks:
  "has_completed I = INCOMPLETE \<Longrightarrow> condition \<noteq> 0 \<Longrightarrow>
   xbind (XFDetector_RoIBegin 0 PRE_FAILURE I) (XFDetector_RoIBegin condition PRE_FAILURE) =
     Inl (AssertFail ''XFDetector has already started tracing'')"
  by (simp add: XFDetector_RoIBegin_def assert_incomplete_def by_stage_def roi_pre_begin_def iface_consts)

section \<open>Pipes\<close>

definition blank_fifo :: fifo where
  "blank_fifo = \<lparr>pre_failure_fifo_str = [], post_failure_fifo_str = [], signal_fifo_str = [], pre_fifo_buf = [],
     post_fifo_buf = [], signal_buf = [], pre_fifo_fd = None, post_fifo_fd = None, signal_fifo_fd = None\<rparr>"

text \<open>
  The two programs meet in the same pipes exactly when an execution id was given: the names the
  pintool opens are those the detector created if the id is not negative, and differ otherwise.
\<close>

lemma fifo_names_agree:
  assumes "xopt (fifo_create mk n F) = Some F'" "execIDStr P = (if n \<ge> 0 then to_string n else [])"
    and "xopt (pinfifo_init H PRE_FAILURE P) = Some P1" "xopt (pinfifo_init H POST_FAILURE P) = Some P2"
    and "xopt (signalfifo_init H P) = Some P3"
  shows "(pin_fifo_str P1 = pre_failure_fifo_str F' \<longleftrightarrow> n \<ge> 0) \<and>
    (pin_fifo_str P2 = post_failure_fifo_str F' \<longleftrightarrow> n \<ge> 0) \<and>
    (pin_signal_str P3 = signal_fifo_str F' \<longleftrightarrow> n \<ge> 0)"
proof -
  from assms(1) have "pre_failure_fifo_str F' = fifo_path PRE_FAILURE_FIFO n"
      "post_failure_fifo_str F' = fifo_path POST_FAILURE_FIFO n" "signal_fifo_str F' = fifo_path SIGNAL_FIFO n"
    by (auto simp: fifo_create_def Let_def Option.bind_eq_Some_conv)
  moreover from assms(3,4,5) have
    "pin_fifo_str P1 = ''/tmp/'' @ PRE_FAILURE_FIFO @ ''.'' @ execIDStr P"
    "pin_fifo_str P2 = ''/tmp/'' @ POST_FAILURE_FIFO @ ''.'' @ execIDStr P"
    "pin_signal_str P3 = ''/tmp/'' @ SIGNAL_FIFO @ ''.'' @ execIDStr P"
    by (auto simp: pinfifo_init_def pinfifo_open_def signalfifo_init_def signalfifo_open_def stage_defs Let_def
        Option.bind_eq_Some_conv split: if_splits)
  ultimately show ?thesis using assms(2) by (simp add: fifo_path_def)
qed

lemma fifo_names_agree_example:
  "\<exists>F' P1. xopt (fifo_create (\<lambda>_. 0) 1 blank_fifo) = Some F' \<and>
     xopt (pinfifo_init example_pin_host PRE_FAILURE (example_pin\<lparr>execIDStr := to_string 1\<rparr>)) = Some P1 \<and>
     pin_fifo_str P1 = pre_failure_fifo_str F'"
proof -
  let ?P = "example_pin\<lparr>execIDStr := to_string 1\<rparr>"
  obtain F' where F': "xopt (fifo_create (\<lambda>_. 0) 1 blank_fifo) = Some F'"
    by (simp add: fifo_create_def mkfifo_checked_def Let_def)
  obtain P1 P2 P3 where P: "xopt (pinfifo_init example_pin_host PRE_FAILURE ?P) = Some P1"
      "xopt (pinfifo_init example_pin_host POST_FAILURE ?P) = Some P2" "xopt (signalfifo_init example_pin_host ?P) = Some P3"
    by (simp add: pinfifo_init_def pinfifo_open_def signalfifo_init_def signalfifo_open_def example_pin_host_def Let_def)
  have "execIDStr ?P = (if (1 :: int) \<ge> 0 then to_string 1 else [])" by simp
  from fifo_names_agree [OF F' this P] F' P(1) show ?thesis by auto
qed

text \<open>
  A \<open>write\<close> that fails is not noticed: the routine returns as if the entry had been sent.
\<close>

lemma failed_write_unnoticed:
  "fifo_enable P \<Longrightarrow> trace_write H e = -1 \<Longrightarrow> operation e \<noteq> INVALID \<Longrightarrow> send_entry H e P = Inr (P, [])"
proof -
  have "\<not> (ucast (-1 :: 32 word) :: 64 word) < 56" by code_simp
  then show "fifo_enable P \<Longrightarrow> trace_write H e = -1 \<Longrightarrow> operation e \<noteq> INVALID \<Longrightarrow> ?thesis"
    by (simp add: send_entry_def pinfifo_write_def sizeof_trace_entry_def)
qed

section \<open>Threads\<close>

text \<open>
  C38. The handler of library calls passes on every thread number, and the detector, whose arrays have
  room for 32 threads, runs out of them: a library call of a later thread is undefined behaviour in
  the detector.
\<close>

theorem unchecked_thread_breaks_detector:
  assumes "32 \<le> unat t" "unat t < 2147483648" "fifo_enable P" "\<forall>e. trace_write H e = 56"
    and "length (pre_InternalFunctLevel s) = MAX_THREADS"
  shows "\<exists>e. PMDKInternalFunctHandler H name t (pm_op_index PMDK_INTERNAL_CALL) P = Inr (P, [Trace e]) \<and>
      update_pm_status E st e (d, s) = Inl (UB ''array index'')"
proof -
  let ?e = "(trace_entry_init (tid_int t))\<lparr>operation := PMDK_INTERNAL_CALL\<rparr>"
  have "PMDKInternalFunctHandler H name t (pm_op_index PMDK_INTERNAL_CALL) P = Inr (P, [Trace ?e])"
    using assms(3,4) by (simp add: PMDKInternalFunctHandler_def send_enabled)
  moreover have "\<not> idx_ok (pre_InternalFunctLevel s) (tid ?e)"
    using assms(1,5) tid_int_small [OF assms(2)] by (simp add: idx_ok_def MAX_THREADS_def)
  then have "update_pm_status E st ?e (d, s) = Inl (UB ''array index'')"
    by (simp add: update_pm_status_def update_shadow_def increment_pre_internal_funct_level_def arr_get_def trace_entry_init_def)
  ultimately show ?thesis by blast
qed

theorem unchecked_thread_breaks_detector_witness:
  "\<exists>e. PMDKInternalFunctHandler example_pin_host ''pmemobj_open'' 40 (pm_op_index PMDK_INTERNAL_CALL) example_pin =
      Inr (example_pin, [Trace e]) \<and>
    update_pm_status example_env PRE_FAILURE e (detector_init, ShadowPM_new example_env) = Inl (UB ''array index'')"
  by (rule unchecked_thread_breaks_detector)
    (simp_all add: example_pin_defs ShadowPM_new_def)

section \<open>From an instruction to a report\<close>

text \<open>The entries among the messages.\<close>

fun sent_entries :: "pin_msg list \<Rightarrow> trace_entry list" where
  "sent_entries [] = []"
| "sent_entries (Trace e # ms) = e # sent_entries ms"
| "sent_entries (_ # ms) = sent_entries ms"

definition plain_store :: "instruction \<Rightarrow> bool" where
  "plain_store ins \<longleftrightarrow> \<not> str_contains ''clwb'' (ins_text ins) \<and> \<not> str_contains ''movnt'' (ins_text ins) \<and>
     ins_operands ins = [(False, True)]"

definition plain_load :: "instruction \<Rightarrow> bool" where
  "plain_load ins \<longleftrightarrow> \<not> str_contains ''clwb'' (ins_text ins) \<and> ins_operands ins = [(True, False)]"

definition pin_ready :: "pin_host \<Rightarrow> 'is pintool \<Rightarrow> bool" where
  "pin_ready H P \<longleftrightarrow> fifo_enable P \<and> (\<forall>e. trace_write H e = 56)"

lemma run_store:
  assumes "plain_store ins" "pin_ready H P" "unat (x_tid X) < MAX_THREADS" "isPmemAddr (x_ea X 0) (x_write_size X)"
  shows "run_instruction H ins X P =
    Inr (P, [Trace (entry WRITE (int (unat (x_tid X))) 0 (x_ea X 0) (x_write_size X) (x_ip X))])"
proof -
  have "x_ea X 0 \<noteq> 0" using assms(4) by (auto simp: isPmemAddr_def PM_ADDR_BASE_def)
  then show ?thesis
    using assms
    by (simp add: run_instruction_def PMReadAndWriteInst_def plain_store_def recordPmemWrite_def assert_tid_def send_enabled
        pin_ready_def trace_entry_init_def entry_def tid_int_small MAX_THREADS_def)
qed

lemma run_load:
  assumes "plain_load ins" "pin_ready H P" "unat (x_tid X) < MAX_THREADS" "isPmemAddr (x_ea X 0) (x_read_size X)"
    and "read_enable P" "isInRoI (x_tid X) P"
  shows "run_instruction H ins X P =
    Inr (P, [Trace (entry READ (int (unat (x_tid X))) (x_ea X 0) 0 (x_read_size X) (x_ip X))])"
  using assms
  by (simp add: run_instruction_def PMReadAndWriteInst_def plain_load_def recordPmemRead_def assert_tid_def send_enabled
      pin_ready_def trace_entry_init_def entry_def tid_int_small MAX_THREADS_def)



end
