(* ===== verification/XF_System.thy ===== *)
theory XF_System
  imports XF_Links XF_Rounds
begin

text \<open>
  The program under the pintool and the detector, side by side: a step is a call or an instruction
  of the program with the routines of the pintool, a read of the detector from the trace pipe, or
  the recovery the detector runs. The interleaving is free. The recovery of a failure point always
  sees exactly the trace up to that failure point, and a program that waits is let go.
\<close>

section \<open>Steps\<close>

text \<open>
  The state: the pintool, the call that waits at a failure point, whether the program has ended, the
  content of the two pipes, the detector, whether its main loop has ended, and the trace sent so
  far.
\<close>

record ('sm, 'tm, 'im, 'is, 'ps) system =
  pin :: "'ps pintool"
  waiting :: "(ipoint \<times> call_info) option"
  program_ended :: bool
  trace_pipe :: "trace_entry list"
  signal_pipe :: "string list"
  control :: "exe_ctrl \<times> fifo"
  flags :: detector
  shadow :: "('sm, 'tm, 'im, 'is) ShadowPM"
  loop_ended :: bool
  all_sent_entries :: "trace_entry list"

definition system_init ::
  "('sm, 'tm, 'im, 'is) xenv \<Rightarrow> 'ps pintool \<Rightarrow> exe_ctrl \<times> fifo \<Rightarrow> ('sm, 'tm, 'im, 'is, 'ps) system" where
  "system_init E P CF =
     \<lparr>pin = P, waiting = None, program_ended = False, trace_pipe = [], signal_pipe = [], control = CF,
      flags = detector_init, shadow = ShadowPM_new E, loop_ended = False, all_sent_entries = []\<rparr>"

definition round_complete :: "detector \<Rightarrow> bool" where
  "round_complete D \<longleftrightarrow> pre_failure_point_complete D \<or> pre_testing_complete D"

text \<open>The messages written to the signal pipe.\<close>

fun written :: "main_msg list \<Rightarrow> string list" where
  "written [] = []"
| "written (Sys (WriteFd n m) # ms) = m # written ms"
| "written (_ # ms) = written ms"

definition send :: "trace_entry list \<Rightarrow> ('sm, 'tm, 'im, 'is, 'ps) system \<Rightarrow> ('sm, 'tm, 'im, 'is, 'ps) system" where
  "send es s = s\<lparr>trace_pipe := trace_pipe s @ es, all_sent_entries := all_sent_entries s @ es\<rparr>"

inductive system_step ::
  "('sm, 'tm, 'im, 'is) xenv \<Rightarrow> 'ps icl_set_ops \<Rightarrow> pin_host \<Rightarrow> host \<Rightarrow>
   ('sm, 'tm, 'im, 'is, 'ps) system \<Rightarrow> ('sm, 'tm, 'im, 'is, 'ps) system \<Rightarrow> bool"
  for E S H K where
  instruction:
    "\<lbrakk>waiting s = None; \<not> program_ended s; run_instruction H ins X (pin s) = Inr (P, ms)\<rbrakk> \<Longrightarrow>
     system_step E S H K s (send (sent_entries ms) (s\<lparr>pin := P\<rparr>))"
| call:
    "\<lbrakk>waiting s = None; \<not> program_ended s; run_call S H buf point C [] (pin s) = Inr (Some (P, []), ms)\<rbrakk> \<Longrightarrow>
     system_step E S H K s (send (sent_entries ms)
       (s\<lparr>pin := P, program_ended := list_ex pre_ends (sent_entries ms)\<rparr>))"
| failure:
    "\<lbrakk>waiting s = None; \<not> program_ended s; run_call S H buf point C [] (pin s) = Inr (None, ms)\<rbrakk> \<Longrightarrow>
     system_step E S H K s (send (sent_entries ms) (s\<lparr>waiting := Some (point, C)\<rparr>))"
| resume:
    "\<lbrakk>waiting s = Some (point, C); signal_pipe s = m # sg;
      run_call S H buf point C [(int (length m), m)] (pin s) = Inr (Some (P, []), ms)\<rbrakk> \<Longrightarrow>
     system_step E S H K s (s\<lparr>pin := P, waiting := None, signal_pipe := sg\<rparr>)"
| read:
    "\<lbrakk>\<not> loop_ended s; \<not> round_complete (flags s); trace_pipe s = c @ rest; c \<noteq> []; length c \<le> FIFO_BUF_ENTRIES;
      run_trace E PRE_FAILURE c (flags s, shadow s) = Inr ((D, Sh), es)\<rbrakk> \<Longrightarrow>
     system_step E S H K s (s\<lparr>trace_pipe := rest, flags := D, shadow := Sh\<rparr>)"
| recovery:
    "\<lbrakk>\<not> loop_ended s; round_complete (flags s);
      post_failure_part E K R (fst (control s), snd (control s), flags s, shadow s) = Inr (Some (True, C, F, D, Sh), ms)\<rbrakk> \<Longrightarrow>
     system_step E S H K s (s\<lparr>control := (C, F), flags := D\<lparr>pre_failure_point_complete := False\<rparr>, shadow := Sh,
       signal_pipe := signal_pipe s @ written ms, loop_ended := pre_testing_complete D\<rparr>)"

inductive_cases system_stepE: "system_step E S H K s s'"

section \<open>What the program sends\<close>

lemma sent_entries_set: "e \<in> set (sent_entries ms) \<longleftrightarrow> Trace e \<in> set ms"
  by (induction ms rule: sent_entries.induct) auto

lemma instruction_no_end:
  assumes "run_instruction H ins X P = Inr (P', ms)"
  shows "\<not> list_ex pre_ends (sent_entries ms)"
  using instruction_sent [OF assms] by (fastforce simp: list_ex_iff sent_entries_set pre_ends_def instruction_sends_def)

lemma run_instruction_same: "run_instruction H ins X P = Inr (P', ms) \<Longrightarrow> P' = P"
  unfolding run_instruction_def
  by (erule xfor_invariant) (auto dest: run_ins_hook_same [unfolded all_res_def, rule_format])

lemma send_entry_msgs:
  "send_entry H e P = Inr (P', ms) \<Longrightarrow> P' = P \<and> operation e \<noteq> INVALID \<and> (ms = [] \<or> ms = [Trace e])"
  by (auto simp: send_entry_def pinfifo_write_def xassert_eq_Inr xbind_eq_Inr xret_def split: if_splits)

lemma write_entry_msgs: "write_entry H e P = Inr (P', ms) \<Longrightarrow> P' = P \<and> (ms = [] \<or> ms = [Trace e])"
  by (auto simp: write_entry_def pinfifo_write_def xbind_eq_Inr xret_def split: if_splits)

definition few :: "'is pintool \<Rightarrow> 'is pintool \<Rightarrow> pin_msg list \<Rightarrow> bool" where
  "few P P' ms \<longleftrightarrow> fifo_enable P' = fifo_enable P \<and> length (sent_entries ms) \<le> 1 \<and>
     list_all (\<lambda>e. operation e \<noteq> TRACE_END) (sent_entries ms)"

lemma few_send:
  "send_entry H e Q = Inr (P', ms) \<Longrightarrow> fifo_enable Q = fifo_enable P \<Longrightarrow> operation e \<noteq> TRACE_END \<Longrightarrow> few P P' ms"
  by (auto simp: few_def dest!: send_entry_msgs)

lemma roi_handler_few: "RoIHandler H name t P = Inr (P', ms) \<Longrightarrow> few P P' ms"
  by (auto simp: RoIHandler_def Let_def few_def unsetRoIThread_def trySetRoIThread_def xassert_eq_Inr xbind_eq_Inr xret_def
      dest!: write_entry_msgs split: if_splits)

lemma few_none: "few P P []"
  by (simp add: few_def)

lemma few_console: "few P P' (PinConsole text # ms) = few P P' ms"
  by (simp add: few_def)

lemma fence_few:
  assumes "recordPmemFence H name ip t P = Inr (P', ms)"
  shows "few P P' ms"
proof (cases "name = ''predrain_memory_barrier''")
  case True
  with assms show ?thesis by (auto simp: recordPmemFence_def assert_tid_def xassert_eq_Inr elim!: few_send)
next
  case False
  let ?text = "''Wrong sfence function. Funct name: '' @ name"
  from assms False obtain ms' where "ms = PinConsole ?text # ms'"
    "send_entry H ((trace_entry_init (tid_int t))\<lparr>operation := SFENCE, func_ret := False, instr_ptr := ip\<rparr>) P = Inr (P', ms')"
    unfolding recordPmemFence_def assert_tid_def xemit_eq_Inr xassert_eq_Inr by auto
  then show ?thesis by (auto simp: few_console simp del: append_Cons elim!: few_send)
qed

lemma recorders_few:
  "recordPmemAllocation H name ip t a P = Inr (P', ms) \<Longrightarrow> few P P' ms"
  "recordPmemRetAllocation S H name ip t a P = Inr (P', ms) \<Longrightarrow> few P P' ms"
  "recordPmemDeallocation S H name ip t a z P = Inr (P', ms) \<Longrightarrow> few P P' ms"
  "recordPmemRetCommon H name ip t a P = Inr (P', ms) \<Longrightarrow> few P P' ms"
  "recordPmemWriteback H name ip t a z P = Inr (P', ms) \<Longrightarrow> few P P' ms"
  "recordCommitVar H name ip t a z P = Inr (P', ms) \<Longrightarrow> few P P' ms"
  "recordPmemAllocationTX S H name ip t a z P = Inr (P', ms) \<Longrightarrow> few P P' ms"
  "recordTXBound H name ip t P = Inr (P', ms) \<Longrightarrow> few P P' ms"
  "PMDKInternalFunctHandler H name t typ P = Inr (P', ms) \<Longrightarrow> few P P' ms"
  unfolding recordPmemAllocation_def recordPmemRetAllocation_def recordPmemDeallocation_def recordPmemRetCommon_def
    recordPmemWriteback_def recordCommitVar_def recordPmemAllocationTX_def recordTXBound_def
    PMDKInternalFunctHandler_def assert_tid_def xassert_eq_Inr Let_def
  by (auto simp: xassert_eq_Inr xret_def pm_functions_not_trace_end few_none elim!: few_send split: if_splits)

lemma routine_few:
  assumes "r \<noteq> AddFailurePoint" "run_routine S H buf C r sg P = Inr (res, ms)"
  shows "\<exists>P'. res = Some (P', sg) \<and> few P P' ms"
proof -
  have keep: "\<exists>P'. res = Some (P', sg) \<and> m = Inr (P', ms)" if "keep_signals sg m = Inr (res, ms)" for m :: "(pin_msg, 'a pintool) outcome"
    using that by (auto simp: keep_signals_def xbind_eq_Inr xret_def)
  show ?thesis
    using assms by (cases r) (auto dest!: keep roi_handler_few fence_few recorders_few)
qed

lemma failure_outcome:
  assumes "pin_ready H P" "addFailurePoint H buf [] ip f t P = Inr (res, ms)"
  shows "(\<exists>P'. res = Some (P', []) \<and> ms = [] \<and> fifo_enable P') \<or>
    (res = None \<and> (\<exists>e. sent_entries ms = [e] \<and> pre_ends e \<and> operation e = TRACE_END) \<and>
     (\<exists>P' ms'. addFailurePoint H buf [(13, PIN_CONTINUE_SIGNAL @ [CHR 0x00])] ip f t P = Inr (Some (P', []), ms') \<and> fifo_enable P'))"
proof -
  have inject: "inject_failure H buf [] ip t Q = Inr (None, [StopThreads t,
        Trace ((trace_entry_init (tid_int t))\<lparr>operation := TRACE_END, instr_ptr := ip\<rparr>)]) \<and>
      inject_failure H buf [(13, PIN_CONTINUE_SIGNAL @ [CHR 0x00])] ip t Q =
        Inr (Some (Q\<lparr>failure_point_count := failure_point_count Q + 1\<rparr>, []), [StopThreads t,
        Trace ((trace_entry_init (tid_int t))\<lparr>operation := TRACE_END, instr_ptr := ip\<rparr>), ResumeThreads t])"
    if "failure_point_count Q \<noteq> 2147483647" "fifo_enable Q" for Q :: "'a pintool"
    using that assms(1)
    by (simp add: inject_failure_def int_inc_def write_enabled pin_ready_def wait_accepts_continue del: waitOnSignal.simps(2))
  have stuck: "inject_failure H buf sg ip t Q = Inl (UB ''signed overflow'')" if "failure_point_count Q = 2147483647" for sg and Q :: "'a pintool"
    using that by (simp add: inject_failure_def int_inc_def)
  have "cur_failure_id P \<noteq> 2147483647" using assms(2) by (auto simp: addFailurePoint_def int_inc_def)
  moreover have fifo: "fifo_enable P" using assms(1) by (simp add: pin_ready_def)
  ultimately show ?thesis
    using assms(2) inject [of "P\<lparr>cur_failure_id := cur_failure_id P + 1\<rparr>"] stuck [of "P\<lparr>cur_failure_id := cur_failure_id P + 1\<rparr>"]
    by (cases "failure_point_count P = 2147483647")
      (auto simp: addFailurePoint_def int_inc_def Let_def xret_def xassert_eq_Inr pre_ends_def trace_entry_init_def split: if_splits)
qed

lemma call_outcome:
  assumes "pin_ready H P" "run_call S H buf point C [] P = Inr (res, ms)"
  shows "(\<exists>P'. res = Some (P', []) \<and> few P P' ms) \<or>
    (res = None \<and> (\<exists>e. sent_entries ms = [e] \<and> pre_ends e \<and> operation e = TRACE_END) \<and>
     (\<exists>P' ms'. run_call S H buf point C [(13, PIN_CONTINUE_SIGNAL @ [CHR 0x00])] P = Inr (Some (P', []), ms') \<and> fifo_enable P'))"
  using run_call_one [of S H buf point C P]
proof (elim disjE exE conjE)
  assume "\<forall>sg. run_call S H buf point C sg P = xret (Some (P, sg))"
  then show ?thesis using assms(2) few_none [of P] by (auto simp: xret_def)
next
  fix r
  assume r: "\<forall>sg. run_call S H buf point C sg P = run_routine S H buf C r sg P"
  show ?thesis
  proof (cases "r = AddFailurePoint")
    case True
    then show ?thesis
      using failure_outcome [OF assms(1), of buf "c_return_ip C" "c_name C" "c_tid C" res ms] assms r
      by (auto simp: few_def pin_ready_def)
  next
    case False
    from assms(2) r have "run_routine S H buf C r [] P = Inr (res, ms)" by simp
    from routine_few [OF False this] show ?thesis by blast
  qed
qed

section \<open>What the recovery does\<close>

definition is_write :: "sys_call \<Rightarrow> bool" where
  "is_write c \<longleftrightarrow> (case c of WriteFd _ _ \<Rightarrow> True | _ \<Rightarrow> False)"

lemma written_append [simp]: "written (ms @ ns) = written ms @ written ns"
  by (induction ms rule: written.induct) auto

lemma written_reports [simp]: "written (map Report es) = []"
  by (induction es) auto

lemma written_sys: "filter is_write cs = [] \<Longrightarrow> written (map Sys cs) = []"
proof (induction cs)
  case (Cons c cs)
  then show ?case by (cases c) (auto simp: is_write_def split: if_splits)
qed simp

lemma silent_command:
  "emits is_write [] (expand_format s)" "emits is_write [] (alloc_print s)" "emits is_write [] (alloc_words ws)" "emits is_write [] (str2cmd s)"
proof -
  have e: "emits is_write [] (expand_format s)" for s
  proof (induction s rule: length_induct)
    case (1 s)
    have rec: "emits is_write [] (xbind (expand_format t) (\<lambda>r. xret (f r)))" if "length t < length s" for t and f :: "string \<Rightarrow> string"
      using 1 that by (intro emits_xbind_silent) auto
    show ?case
    proof (cases s)
      case (Cons c t)
      with rec [of t "\<lambda>r. c # r"] rec [of "tl t" "\<lambda>r. CHR ''%'' # r"] show ?thesis
        by (cases t) simp_all
    qed simp
  qed
  have a: "emits is_write [] (alloc_print s)" for s
    unfolding alloc_print_def by (rule emits_xbind_silent [OF e]) simp
  have w: "emits is_write [] (alloc_words ws)" for ws
    by (induction ws) (auto intro!: emits_xbind_silent a)
  show "emits is_write [] (expand_format s)" "emits is_write [] (alloc_print s)" "emits is_write [] (alloc_words ws)"
    by (fact e a w)+
  show "emits is_write [] (str2cmd s)"
    unfolding str2cmd_def by (rule emits_xbind_silent [OF w]) simp
qed

lemma silent_recovery: "emits is_write [] (execute_post_failure ge env rnd st cpid er C)"
proof -
  have "emits is_write [] (genPinCommand ge stg img C)" for stg img
    unfolding genPinCommand_def
    by (auto intro!: emits_xassert emits_xbind_silent silent_command simp: rename_pool_img_def Let_def split: option.splits)
  then show ?thesis
    unfolding execute_post_failure_def
    by (intro emits_xbind_silent) (auto intro!: emits_xbind_silent
        simp: copy_pm_image_def child_process_def is_write_def emits_xemit_silent Let_def)
qed

lemma for_buf_pre_flags:
  "for_buf E POST_FAILURE n buf ds = Inr (ds', bs) \<Longrightarrow> pre_testing_complete (fst ds') = pre_testing_complete (fst ds)"
proof (induction E POST_FAILURE n buf ds arbitrary: bs rule: for_buf.induct)
  case (2 E n e es ds)
  show ?case
  proof (cases n)
    case (Suc m)
    with "2.prems" obtain ds1 es1 es2 where 1: "update_pm_status E POST_FAILURE e ds = Inr (ds1, es1)"
        "for_buf E POST_FAILURE (n - 1) es ds1 = Inr (ds', es2)"
      by (auto simp: xbind_eq_Inr)
    have "pre_testing_complete (fst ds1) = pre_testing_complete (fst ds)"
      using 1(1) by (auto simp: update_pm_status_def xbind_eq_Inr xret_def flag_op_def stage_defs split: if_splits)
    with "2.hyps" [OF _ 1(2)] Suc show ?thesis by simp
  qed (use "2.prems" in \<open>simp add: xret_def\<close>)
qed (auto simp: xret_def split: if_splits)

lemma post_loop_flags:
  "post_loop E C kr start rs F ds = Inr (Some (t, F', ds'), ms) \<Longrightarrow>
   pre_testing_complete (fst ds') = pre_testing_complete (fst ds) \<and> written ms = []"
proof (induction rs arbitrary: F ds ms)
  case Nil
  then show ?case by (auto simp: xret_def split: if_splits)
next
  case (Cons r rs)
  show ?case
  proof (cases "post_testing_complete (fst ds)")
    case True
    with Cons.prems show ?thesis by (auto simp: xret_def)
  next
    case False
    let ?F = "F\<lparr>post_fifo_buf := fill_buf (in_data r) (post_fifo_buf F)\<rparr>"
    from Cons.prems False obtain ds1 es1 ms1 where
      1: "for_buf E POST_FAILURE (entries_read (in_size r)) (post_fifo_buf ?F) ds = Inr (ds1, es1)" and ms: "ms = map Report es1 @ ms1" and
      rest: "(if in_end r - start > POST_FAILURE_EXEC_TIMEOUT
        then xbind (xlift Sys (term_post_failure kr C)) (\<lambda>_. xemit [Console (''Timeout: killing post failure pid '' @ to_string main_post_failure_pid)]
          (xret (Some (True, clear_post_fifo_buf ?F, ds1))))
        else post_loop E C kr start rs (clear_post_fifo_buf ?F) ds1) = Inr (Some (t, F', ds'), ms1)"
      by (auto simp: post_fifo_read_def xbind_eq_Inr xlift_eq_Inr Let_def)
    note flag = for_buf_pre_flags [OF 1]
    show ?thesis
    proof (cases "in_end r - start > POST_FAILURE_EXEC_TIMEOUT")
      case True
      with rest have "ds' = ds1" "written ms1 = []"
        by (auto simp: term_post_failure_def xbind_eq_Inr xlift_eq_Inr xemit_eq_Inr xret_def split: if_splits)
      with flag ms show ?thesis by simp
    next
      case no_timeout: False
      with rest have "post_loop E C kr start rs (clear_post_fifo_buf ?F) ds1 = Inr (Some (t, F', ds'), ms1)" by simp
      from Cons.IH [OF this] flag ms show ?thesis by simp
    qed
  qed
qed

lemma finish_round_outcome:
  assumes "finish_round K R name t Sh (C, F, D) = Inr (Some (True, C', F', D', Sh'), ms)"
  shows "Sh' = Sh \<and> written ms = [PIN_CONTINUE_SIGNAL @ [CHR 0x00]] \<and> pre_testing_complete D' = pre_testing_complete D"
proof -
  from assms obtain us vs where cls: "fifo_close POST_FAILURE_FIFO F = Inr ((), us)"
      and sig: "pin_continue_send (write_fd K) F = Inr ((), vs)"
      and res: "Sh' = Sh" "D' = D\<lparr>post_testing_complete := False\<rparr>" "written ms = written (map Sys us) @ written (map Sys vs)"
    by (auto simp: finish_round_def xbind_eq_Inr xemit_eq_Inr xlift_eq_Inr xret_def Let_def split: if_splits)
  moreover have "written (map Sys us) = []" using cls by (auto simp: fifo_close_def with_fd_def split: option.splits)
  moreover have "written (map Sys vs) = [PIN_CONTINUE_SIGNAL @ [CHR 0x00]]"
    using sig by (auto simp: pin_continue_send_def signal_send_def with_fd_def xret_def split: option.splits if_splits)
  ultimately show ?thesis by simp
qed

lemma post_part_outcome:
  assumes "post_failure_part E K R (C, F, D, Sh) = Inr (Some (True, C', F', D', Sh'), ms)"
  shows "Sh' = Sh \<and> written ms = [PIN_CONTINUE_SIGNAL @ [CHR 0x00]] \<and> pre_testing_complete D' = pre_testing_complete D"
proof -
  from assms obtain name C1 cs F1 fs ps ms1 res where
    exe: "execute_post_failure (getenv K) (environ K) (random R) (cp_status R) (post_pid R) (post_exec_ret R) C = Inr ((name, C1), cs)" and
    opn: "fifo_open (open_fd K) POST_FAILURE_FIFO F = Inr (F1, fs)" and
    loop: "post_loop E C1 (kill_post_ret R) (fst (post_start R)) (post_inputs R) F1 (D, ShadowPM_copy (garbage R) Sh) = Inr (res, ps)" and
    fin: "(case res of None \<Rightarrow> xret None | Some (timeout, F2, D2, _) \<Rightarrow> finish_round K R name timeout Sh (C1, F2, D2)) =
      Inr (Some (True, C', F', D', Sh'), ms1)" and
    ms: "written ms = written (map Sys cs) @ written (map Sys fs) @ written ps @ written ms1"
    by (auto simp: post_failure_part_def xbind_eq_Inr xemit_eq_Inr xlift_eq_Inr Let_def)
  from fin obtain t F2 D2 S2 where res: "res = Some (t, F2, D2, S2)"
      and fin': "finish_round K R name t Sh (C1, F2, D2) = Inr (Some (True, C', F', D', Sh'), ms1)"
    by (cases res) (auto simp: xret_def)
  have "written (map Sys cs) = []"
    using silent_recovery [of "getenv K" "environ K" "random R" "cp_status R" "post_pid R" "post_exec_ret R" C] exe
    by (intro written_sys) (simp add: emits_def)
  moreover have "written (map Sys fs) = []" using opn by (auto simp: fifo_open_def xret_def split: if_splits)
  ultimately show ?thesis using post_loop_flags [OF loop [unfolded res]] finish_round_outcome [OF fin'] ms by simp
qed

lemma run_call_fifo:
  "run_call S H buf point C sg P = Inr (Some (P', sg'), ms) \<Longrightarrow> fifo_enable P' = fifo_enable P"
proof -
  assume run: "run_call S H buf point C sg P = Inr (Some (P', sg'), ms)"
  show ?thesis
    using run_call_one [of S H buf point C P]
  proof (elim disjE exE conjE)
    fix r
    assume "\<forall>sg. run_call S H buf point C sg P = run_routine S H buf C r sg P"
    with run have r: "run_routine S H buf C r sg P = Inr (Some (P', sg'), ms)" by simp
    show ?thesis
    proof (cases "r = AddFailurePoint")
      case True
      with r show ?thesis using failure_point_keeps by fastforce
    next
      case False
      from routine_few [OF False r] show ?thesis by (auto simp: few_def)
    qed
  qed (use run in \<open>auto simp: xret_def\<close>)
qed

section \<open>The invariant\<close>

text \<open>The end of a part of the trace is its last entry, and of the given operation.\<close>

definition ends_with :: "pm_op_t \<Rightarrow> trace_entry list \<Rightarrow> bool" where
  "ends_with opn xs \<longleftrightarrow> (\<exists>ys e. xs = ys @ [e] \<and> \<not> list_ex pre_ends ys \<and> pre_ends e \<and> operation e = opn)"

definition stopped :: "('sm, 'tm, 'im, 'is, 'ps) system \<Rightarrow> bool" where
  "stopped s \<longleftrightarrow> (waiting s \<noteq> None) \<noteq> program_ended s"

abbreviation end_op :: "('sm, 'tm, 'im, 'is, 'ps) system \<Rightarrow> pm_op_t" where
  "end_op s \<equiv> (if program_ended s then TESTING_END else TRACE_END)"

text \<open>
  The phases of a round: the program runs; it has announced the failure point or its end; the
  recovery runs; the program is released; the session is over.
\<close>

definition running :: "('sm, 'tm, 'im, 'is, 'ps) system \<Rightarrow> bool" where
  "running s \<longleftrightarrow> waiting s = None \<and> \<not> program_ended s \<and> \<not> list_ex pre_ends (trace_pipe s) \<and>
     signal_pipe s = [] \<and> \<not> round_complete (flags s) \<and> \<not> loop_ended s"

definition announced :: "('sm, 'tm, 'im, 'is, 'ps) system \<Rightarrow> bool" where
  "announced s \<longleftrightarrow> stopped s \<and> ends_with (end_op s) (trace_pipe s) \<and>
     signal_pipe s = [] \<and> \<not> round_complete (flags s) \<and> \<not> loop_ended s"

definition recovering :: "('sm, 'tm, 'im, 'is, 'ps) system \<Rightarrow> bool" where
  "recovering s \<longleftrightarrow> stopped s \<and> trace_pipe s = [] \<and> signal_pipe s = [] \<and> round_complete (flags s) \<and>
     pre_testing_complete (flags s) = program_ended s \<and> \<not> loop_ended s"

definition released :: "('sm, 'tm, 'im, 'is, 'ps) system \<Rightarrow> bool" where
  "released s \<longleftrightarrow> waiting s \<noteq> None \<and> \<not> program_ended s \<and> trace_pipe s = [] \<and>
     signal_pipe s = [PIN_CONTINUE_SIGNAL @ [CHR 0x00]] \<and> \<not> round_complete (flags s) \<and> \<not> loop_ended s"

definition over :: "('sm, 'tm, 'im, 'is, 'ps) system \<Rightarrow> bool" where
  "over s \<longleftrightarrow> waiting s = None \<and> program_ended s \<and> trace_pipe s = [] \<and> loop_ended s"

lemmas phase_defs = running_def announced_def recovering_def released_def over_def stopped_def

text \<open>What the detector has handled is what was sent, without what is still in the pipe.\<close>

definition in_step :: "('sm, 'tm, 'im, 'is) xenv \<Rightarrow> ('sm, 'tm, 'im, 'is, 'ps) system \<Rightarrow> bool" where
  "in_step E s \<longleftrightarrow> (\<exists>handled d es. all_sent_entries s = handled @ trace_pipe s \<and>
     run_trace E PRE_FAILURE handled (detector_init, ShadowPM_new E) = Inr ((d, shadow s), es))"

definition can_resume :: "'ps icl_set_ops \<Rightarrow> pin_host \<Rightarrow> ('sm, 'tm, 'im, 'is, 'ps) system \<Rightarrow> bool" where
  "can_resume S H s \<longleftrightarrow> (\<forall>point C. waiting s = Some (point, C) \<longrightarrow>
     (\<exists>buf P ms. run_call S H buf point C [(13, PIN_CONTINUE_SIGNAL @ [CHR 0x00])] (pin s) = Inr (Some (P, []), ms)))"

definition system_inv ::
  "('sm, 'tm, 'im, 'is) xenv \<Rightarrow> 'ps icl_set_ops \<Rightarrow> pin_host \<Rightarrow> ('sm, 'tm, 'im, 'is, 'ps) system \<Rightarrow> bool" where
  "system_inv E S H s \<longleftrightarrow> pin_ready H (pin s) \<and> in_step E s \<and> can_resume S H s \<and>
     (running s \<or> announced s \<or> recovering s \<or> released s \<or> over s)"

lemma system_init_inv: "pin_ready H P \<Longrightarrow> system_inv E S H (system_init E P CF)"
  by (auto simp: system_inv_def system_init_def in_step_def can_resume_def running_def round_complete_def detector_init_def
      run_trace_def xret_def)

section \<open>Preservation\<close>

lemma in_step_send: "in_step E s \<Longrightarrow> in_step E (send es s)"
  by (auto simp: in_step_def send_def)

lemma in_step_fields [simp]:
  "in_step E (s\<lparr>pin := P\<rparr>) = in_step E s" "in_step E (s\<lparr>waiting := w\<rparr>) = in_step E s"
  "in_step E (s\<lparr>program_ended := b\<rparr>) = in_step E s"
  by (simp_all add: in_step_def)

lemma send_fields [simp]:
  "pin (send es s) = pin s" "waiting (send es s) = waiting s" "program_ended (send es s) = program_ended s"
  "signal_pipe (send es s) = signal_pipe s" "flags (send es s) = flags s" "loop_ended (send es s) = loop_ended s"
  "trace_pipe (send es s) = trace_pipe s @ es" "control (send es s) = control s" "shadow (send es s) = shadow s"
  by (simp_all add: send_def)

lemma running_phase: "system_inv E S H s \<Longrightarrow> waiting s = None \<Longrightarrow> \<not> program_ended s \<Longrightarrow> running s"
  by (auto simp: system_inv_def phase_defs)

lemma few_end:
  assumes "few P P' ms" "list_ex pre_ends (sent_entries ms)" "\<not> list_ex pre_ends ys"
  shows "ends_with TESTING_END (ys @ sent_entries ms)"
proof -
  from assms(1,2) obtain e where "sent_entries ms = [e]" "pre_ends e" "operation e \<noteq> TRACE_END"
    by (cases "sent_entries ms") (auto simp: few_def)
  then show ?thesis using assms(3) by (auto simp: ends_with_def pre_ends_def)
qed

lemma program_step_inv:
  assumes inv: "system_inv E S H s" and free: "waiting s = None" "\<not> program_ended s"
    and few: "few (pin s) P ms"
  shows "system_inv E S H (send (sent_entries ms) (s\<lparr>pin := P, program_ended := list_ex pre_ends (sent_entries ms)\<rparr>))"
proof -
  let ?s = "send (sent_entries ms) (s\<lparr>pin := P, program_ended := list_ex pre_ends (sent_entries ms)\<rparr>)"
  have run: "running s" by (rule running_phase [OF inv free])
  have "in_step E ?s" using inv by (intro in_step_send) (simp add: system_inv_def)
  moreover have "pin_ready H (pin ?s)" using inv few by (simp add: system_inv_def pin_ready_def few_def)
  moreover have "can_resume S H ?s" using free by (simp add: can_resume_def)
  moreover have "running ?s \<or> announced ?s"
    using run few_end [OF few, of "trace_pipe s"] by (auto simp: running_def announced_def stopped_def)
  ultimately show ?thesis by (auto simp: system_inv_def)
qed

lemma failure_step_inv:
  assumes inv: "system_inv E S H s" and free: "waiting s = None" "\<not> program_ended s"
    and fail: "run_call S H buf point C [] (pin s) = Inr (None, ms)"
  shows "system_inv E S H (send (sent_entries ms) (s\<lparr>waiting := Some (point, C)\<rparr>))"
proof -
  let ?s = "send (sent_entries ms) (s\<lparr>waiting := Some (point, C)\<rparr>)"
  have run: "running s" by (rule running_phase [OF inv free])
  have ready: "pin_ready H (pin s)" using inv by (simp add: system_inv_def)
  from call_outcome [OF ready fail] obtain e P' ms' where e: "sent_entries ms = [e]" "pre_ends e" "operation e = TRACE_END"
      and res: "run_call S H buf point C [(13, PIN_CONTINUE_SIGNAL @ [CHR 0x00])] (pin s) = Inr (Some (P', []), ms')"
    by auto
  have "in_step E ?s" using inv by (intro in_step_send) (simp add: system_inv_def)
  moreover have "can_resume S H ?s" using res by (auto simp: can_resume_def)
  moreover have "announced ?s"
    using run e free by (auto simp: running_def announced_def stopped_def ends_with_def)
  ultimately show ?thesis using ready by (simp add: system_inv_def)
qed

lemma resume_step_inv:
  assumes inv: "system_inv E S H s" and wait: "waiting s = Some (point, C)" "signal_pipe s = m # sg"
    and res: "run_call S H buf point C [(int (length m), m)] (pin s) = Inr (Some (P, []), ms)"
  shows "system_inv E S H (s\<lparr>pin := P, waiting := None, signal_pipe := sg\<rparr>)"
proof -
  let ?s = "s\<lparr>pin := P, waiting := None, signal_pipe := sg\<rparr>"
  have "released s" using inv wait by (auto simp: system_inv_def phase_defs)
  then have "running ?s" using wait(2) by (auto simp: running_def released_def)
  moreover have "pin_ready H P" using inv run_call_fifo [OF res] by (simp add: system_inv_def pin_ready_def)
  moreover have "in_step E ?s" "can_resume S H ?s" using inv by (auto simp: system_inv_def in_step_def can_resume_def)
  ultimately show ?thesis by (simp add: system_inv_def)
qed

lemma ends_with_split:
  assumes "ends_with opn (c @ rest)"
  shows "rest = [] \<and> list_ex pre_ends c \<and> (\<exists>e \<in> set c. \<not> func_ret e \<and> operation e = TESTING_END) = (opn = TESTING_END) \<or>
    \<not> list_ex pre_ends c \<and> ends_with opn rest"
proof -
  from assms obtain ys e where y: "c @ rest = ys @ [e]" "\<not> list_ex pre_ends ys" "pre_ends e" "operation e = opn"
    by (auto simp: ends_with_def)
  show ?thesis
  proof (cases "rest = []")
    case True
    with y have "c = ys @ [e]" by simp
    with y True show ?thesis by (auto simp: pre_ends_def list_ex_iff)
  next
    case False
    then obtain zs where "rest = zs @ [e]" "ys = c @ zs"
      using y(1) by (cases rest rule: rev_cases) auto
    with y show ?thesis by (auto simp: ends_with_def)
  qed
qed

lemma read_step_inv:
  assumes inv: "system_inv E S H s" and reading: "\<not> loop_ended s" "\<not> round_complete (flags s)"
    and pipe: "trace_pipe s = c @ rest"
    and run: "run_trace E PRE_FAILURE c (flags s, shadow s) = Inr ((D, Sh), es)"
  shows "system_inv E S H (s\<lparr>trace_pipe := rest, flags := D, shadow := Sh\<rparr>)"
proof -
  let ?s = "s\<lparr>trace_pipe := rest, flags := D, shadow := Sh\<rparr>"
  have flags: "round_complete D = list_ex pre_ends c"
      "pre_testing_complete D = (\<exists>e \<in> set c. \<not> func_ret e \<and> operation e = TESTING_END)"
    using run_trace_flags [OF run] pre_flags_fold(1,3) [of c "flags s"] reading(2)
    by (auto simp: round_complete_def list_ex_iff)
  from inv obtain handled d bs where h: "all_sent_entries s = handled @ trace_pipe s"
      "run_trace E PRE_FAILURE handled (detector_init, ShadowPM_new E) = Inr ((d, shadow s), bs)"
    by (auto simp: system_inv_def in_step_def)
  from run_trace_detector [OF run, of d] obtain d' where "run_trace E PRE_FAILURE c (d, shadow s) = Inr ((d', Sh), es)" by blast
  with h have "run_trace E PRE_FAILURE (handled @ c) (detector_init, ShadowPM_new E) = Inr ((d', Sh), bs @ es)"
    by (simp add: run_trace_append)
  then have "in_step E ?s" using h(1) pipe by (auto simp: in_step_def)
  moreover have "can_resume S H ?s" "pin_ready H (pin ?s)" using inv by (auto simp: system_inv_def can_resume_def)
  moreover have "running ?s \<or> announced ?s \<or> recovering ?s \<or> released ?s"
    using inv
    unfolding system_inv_def
  proof (elim conjE disjE)
    assume "running s"
    then show ?thesis using pipe flags by (simp add: running_def)
  next
    assume "announced s"
    then show ?thesis
      using ends_with_split [of "end_op s" c rest] pipe flags by (auto simp: announced_def recovering_def stopped_def split: if_splits)
  next
    assume "released s"
    then show ?thesis using pipe flags by (auto simp: released_def)
  qed (use reading in \<open>auto simp: phase_defs\<close>)
  ultimately show ?thesis by (auto simp: system_inv_def)
qed

lemma recovery_step_inv:
  assumes inv: "system_inv E S H s" and complete: "\<not> loop_ended s" "round_complete (flags s)"
    and part: "post_failure_part E K R (fst (control s), snd (control s), flags s, shadow s) = Inr (Some (True, C, F, D, Sh), ms)"
  shows "system_inv E S H (s\<lparr>control := (C, F), flags := D\<lparr>pre_failure_point_complete := False\<rparr>, shadow := Sh,
       signal_pipe := signal_pipe s @ written ms, loop_ended := pre_testing_complete D\<rparr>)"
    (is "system_inv E S H ?s")
proof -
  have rec: "recovering s" using inv complete by (auto simp: system_inv_def phase_defs)
  note out = post_part_outcome [OF part]
  have "in_step E ?s" "can_resume S H ?s" "pin_ready H (pin ?s)"
    using inv out by (auto simp: system_inv_def in_step_def can_resume_def)
  moreover have "released ?s \<or> over ?s"
    using rec out by (auto simp: phase_defs round_complete_def)
  ultimately show ?thesis by (auto simp: system_inv_def)
qed

lemma system_step_inv:
  assumes "system_step E S H K s s'" "system_inv E S H s"
  shows "system_inv E S H s'"
  using assms
proof (induction rule: system_step.induct)
  case (instruction s ins X P ms)
  then have P: "P = pin s" "\<not> list_ex pre_ends (sent_entries ms)"
    using run_instruction_same instruction_no_end by blast+
  have "running (send (sent_entries ms) s)"
    using running_phase [OF instruction.prems instruction.hyps(1,2)] P(2) by (simp add: running_def)
  moreover have "in_step E (send (sent_entries ms) s)" "can_resume S H (send (sent_entries ms) s)"
    using instruction.prems by (auto simp: system_inv_def can_resume_def in_step_send)
  ultimately show ?case using instruction.prems P(1) by (simp add: system_inv_def)
next
  case (call s buf point C P ms)
  then have "few (pin s) P ms" using call_outcome [of H "pin s" S buf point C] by (auto simp: system_inv_def)
  with call show ?case by (intro program_step_inv)
next
  case (failure s buf point C ms)
  then show ?case by (intro failure_step_inv)
next
  case (resume s point C m sg buf P ms)
  then show ?case by (intro resume_step_inv)
next
  case (read s c rest D Sh es)
  then show ?case by (intro read_step_inv)
next
  case (recovery s R C F D Sh ms)
  then show ?case by (intro recovery_step_inv)
qed

section \<open>Reachable states\<close>

inductive system_reachable ::
  "('sm, 'tm, 'im, 'is) xenv \<Rightarrow> 'ps icl_set_ops \<Rightarrow> pin_host \<Rightarrow> host \<Rightarrow> 'ps pintool \<Rightarrow> exe_ctrl \<times> fifo \<Rightarrow>
   ('sm, 'tm, 'im, 'is, 'ps) system \<Rightarrow> bool"
  for E S H K P CF where
  start: "system_reachable E S H K P CF (system_init E P CF)"
| step: "system_reachable E S H K P CF s \<Longrightarrow> system_step E S H K s s' \<Longrightarrow> system_reachable E S H K P CF s'"

lemma reachable_inv:
  "system_reachable E S H K P CF s \<Longrightarrow> pin_ready H P \<Longrightarrow> system_inv E S H s"
  by (induction rule: system_reachable.induct) (auto intro: system_init_inv system_step_inv)


abbreviation example_roi :: "ival list pintool" where
  "example_roi \<equiv> example_pin\<lparr>roi_tid := 1, roi_tid_set := True\<rparr>"

abbreviation example_end :: trace_entry where
  "example_end \<equiv> (trace_entry_init (tid_int 1))\<lparr>operation := TRACE_END, instr_ptr := 0x400500\<rparr>"

lemma failure_hook: "failure_enable P \<Longrightarrow> rtn_hooks P ''pmfuzz_inject_failure'' = [(IPOINT_BEFORE, AddFailurePoint)]"
  by (simp add: rtn_hooks_def inst_defs PMDKInternalFunct_def pmdk_internal_functs_def)

lemma example_fails:
  "run_call list_set_ops example_pin_host [] IPOINT_BEFORE (example_call ''pmfuzz_inject_failure'' [] 1) [] example_roi =
   Inr (None, [StopThreads 1, Trace example_end])"
  by (simp add: run_call_def failure_hook addFailurePoint_def inject_failure_def int_inc_def isInRoI_def
      write_enabled example_pin_defs Let_def)

lemma example_reads:
  "run_trace example_env PRE_FAILURE [example_end] (detector_init, ShadowPM_new example_env) =
   Inr ((detector_init\<lparr>pre_failure_point_complete := True\<rparr>, ShadowPM_new example_env), [FailurePointIP 0x400500])"
  by (simp add: run_trace_def update_pm_status_def update_shadow_def trace_entry_init_def flag_op_def)

definition example_announced where
  "example_announced = send [example_end] ((system_init example_env example_roi (example_ctrl, example_fifo))
     \<lparr>waiting := Some (IPOINT_BEFORE, example_call ''pmfuzz_inject_failure'' [] 1)\<rparr>)"

definition example_system where
  "example_system = (system_init example_env example_roi (example_ctrl, example_fifo))
     \<lparr>waiting := Some (IPOINT_BEFORE, example_call ''pmfuzz_inject_failure'' [] 1),
      flags := detector_init\<lparr>pre_failure_point_complete := True\<rparr>, all_sent_entries := [example_end]\<rparr>"

abbreviation example_run_to where
  "example_run_to \<equiv> system_reachable example_env list_set_ops example_pin_host example_host example_roi (example_ctrl, example_fifo)"

lemma example_announces: "example_run_to example_announced"
proof -
  let ?s0 = "system_init example_env example_roi (example_ctrl, example_fifo)"
  have "system_step example_env list_set_ops example_pin_host example_host ?s0 example_announced"
    using system_step.failure [of ?s0 list_set_ops example_pin_host "[]" IPOINT_BEFORE "example_call ''pmfuzz_inject_failure'' [] 1"
        "[StopThreads 1, Trace example_end]" example_env example_host] example_fails
    by (simp add: system_init_def example_announced_def)
  then show ?thesis by (blast intro: system_reachable.intros)
qed

lemma example_step: "system_step example_env list_set_ops example_pin_host example_host example_announced example_system"
  using system_step.read [of example_announced "[example_end]" "[]" example_env "detector_init\<lparr>pre_failure_point_complete := True\<rparr>"
      "ShadowPM_new example_env" "[FailurePointIP 0x400500]" list_set_ops example_pin_host example_host] example_reads
  by (simp add: system_init_def send_def round_complete_def detector_init_def FIFO_BUF_ENTRIES_def example_system_def example_announced_def)

lemma example_reachable: "example_run_to example_system"
  by (rule system_reachable.step [OF example_announces example_step])

lemma example_roi_ready: "pin_ready example_pin_host example_roi"
  by (simp add: pin_ready_def example_pin_defs)


text \<open>How far the end of a wait is.\<close>

definition rank :: "('sm, 'tm, 'im, 'is, 'ps) system \<Rightarrow> nat" where
  "rank s = length (trace_pipe s) + (if signal_pipe s = [] then 1 else 0) + (if waiting s \<noteq> None then 2 else 0)"



text \<open>
  C31. A released program goes on: once the detector has sent the signal, the waiting call can return.
\<close>

theorem released_program_resumes:
  assumes "system_reachable E S H K P CF s" "pin_ready H P" "waiting s \<noteq> None" "signal_pipe s \<noteq> []"
  shows "\<exists>s'. system_step E S H K s s' \<and> running s'"
proof -
  from reachable_inv [OF assms(1,2)] have inv: "system_inv E S H s" .
  then have rel: "released s" using assms(3,4) by (auto simp: system_inv_def phase_defs)
  then obtain point C where w: "waiting s = Some (point, C)" and sig: "signal_pipe s = [PIN_CONTINUE_SIGNAL @ [CHR 0x00]]"
    by (auto simp: released_def)
  from inv w obtain buf P' ms where "run_call S H buf point C [(13, PIN_CONTINUE_SIGNAL @ [CHR 0x00])] (pin s) = Inr (Some (P', []), ms)"
    by (auto simp: system_inv_def can_resume_def)
  moreover have "int (length (PIN_CONTINUE_SIGNAL @ [CHR 0x00])) = 13" by (simp add: PIN_CONTINUE_SIGNAL_def)
  ultimately have "system_step E S H K s (s\<lparr>pin := P', waiting := None, signal_pipe := []\<rparr>)"
    using system_step.resume [OF w sig] by simp
  moreover have "running (s\<lparr>pin := P', waiting := None, signal_pipe := []\<rparr>)"
    using rel by (simp add: running_def released_def)
  ultimately show ?thesis by blast
qed

lemma example_recovery:
  "\<exists>s. example_run_to s \<and> waiting s \<noteq> None \<and> signal_pipe s \<noteq> []"
proof -
  let ?R = "example_round [entry TESTING_END 0 0 0 0 3]" and ?D = "detector_init\<lparr>pre_failure_point_complete := True\<rparr>"
  have "answers example_host example_ctrl (post_failure_fifo_str example_fifo) ?R"
    by (rule example_answers) (simp_all add: post_ends_def)
  moreover have "fifo_wf example_fifo" "signal_fifo_fd example_fifo = Some 4" by (simp_all add: fifo_wf_def example_fifo_def)
  moreover have "\<exists>D2 S2 es. run_trace example_env POST_FAILURE (trace_of (post_inputs ?R)) (?D, ShadowPM_copy (garbage ?R) (ShadowPM_new example_env)) =
      Inr ((D2, S2), es)"
    by (simp add: example_round_def example_input_def run_trace_def update_pm_status_def update_shadow_def xret_def)
  ultimately obtain F' D' ms where part: "post_failure_part example_env example_host ?R (example_ctrl, example_fifo, ?D, ShadowPM_new example_env) =
      Inr (Some (True, example_ctrl\<lparr>post_failure_pid := post_pid ?R\<rparr>, F', D', ShadowPM_new example_env), ms)"
    using post_failure_part_ok [of example_host example_ctrl example_fifo ?R 4 ?D example_env "ShadowPM_new example_env"]
    by (fastforce simp: detector_init_def)
  let ?s = "example_system\<lparr>control := (example_ctrl\<lparr>post_failure_pid := post_pid ?R\<rparr>, F'),
      flags := D'\<lparr>pre_failure_point_complete := False\<rparr>, shadow := ShadowPM_new example_env,
      signal_pipe := signal_pipe example_system @ written ms, loop_ended := pre_testing_complete D'\<rparr>"
  have "system_step example_env list_set_ops example_pin_host example_host example_system ?s"
    by (rule system_step.recovery [where R = ?R]) (simp_all add: example_system_def system_init_def round_complete_def part)
  then have "example_run_to ?s" by (rule system_reachable.step [OF example_reachable])
  moreover have "waiting ?s \<noteq> None" "signal_pipe ?s \<noteq> []"
    using post_part_outcome [OF part] by (simp_all add: example_system_def)
  ultimately show ?thesis by blast
qed

theorem released_program_resumes_witness:
  "\<exists>s s'. example_run_to s \<and> waiting s \<noteq> None \<and>
     system_step example_env list_set_ops example_pin_host example_host s s' \<and> running s'"
  using example_recovery released_program_resumes [OF _ example_roi_ready] by blast

end
