(* ===== verification/XF_PObj.thy ===== *)
theory XF_PObj
  imports XF_Prelude
begin

unbundle bit_operations_syntax

text \<open>
  The persistent objects of the workloads that are tested with the detector: a pool of typed objects,
  pointers into them, and the actions of a transaction on it. The library \<open>libpmemobj\<close> itself is
  a parameter: whether it has memory for a new object and for the snapshot of a range.

  A run of an operation is \<open>None\<close> when one of its loops does not end, and an outcome otherwise,
  with the actions of the operation on the pool as its messages. An aborted transaction is a thrown
  exception: the library jumps to the end of the block.
\<close>

section \<open>Runs\<close>

type_synonym ('e, 'a) run = "('e, 'a) outcome option"

definition rret :: "'a \<Rightarrow> ('e, 'a) run" where
  "rret x = Some (xret x)"

definition rbind :: "('e, 'a) run \<Rightarrow> ('a \<Rightarrow> ('e, 'b) run) \<Rightarrow> ('e, 'b) run" where
  "rbind m k = Option.bind m (\<lambda>r. case r of
       Inl f \<Rightarrow> Some (Inl f)
     | Inr p \<Rightarrow> Option.bind (k (fst p)) (\<lambda>s. Some (xemit (snd p) s)))"

definition rub :: "string \<Rightarrow> ('e, 'a) run" where
  "rub msg = Some (Inl (UB msg))"

lemma rbind_mono [partial_function_mono]:
  assumes "mono_option m" "\<And>y. mono_option (\<lambda>f. g y f)"
  shows "mono_option (\<lambda>f. rbind (m f) (\<lambda>y. g y f))"
  unfolding rbind_def
proof (rule bind_mono [OF assms(1)], goal_cases)
  case (1 r)
  then show ?case by (cases r) (auto intro!: bind_mono assms(2) option.const_mono)
qed

lemma rbind_rret [simp]: "rbind (rret x) k = k x"
  by (cases "k x") (auto simp: rbind_def rret_def xret_def)

lemma rbind_Some_Inr [simp]: "rbind (Some (Inr (x, es))) k = map_option (xemit es) (k x)"
  by (cases "k x") (auto simp: rbind_def)

lemma rbind_Some_Inl [simp]: "rbind (Some (Inl f)) k = Some (Inl f)"
  by (simp add: rbind_def)

lemma rbind_None [simp]: "rbind None k = None"
  by (simp add: rbind_def)

lemma rbind_rub [simp]: "rbind (rub msg) k = rub msg"
  by (simp add: rbind_def rub_def)

lemma rbind_eq_Some:
  "rbind m k = Some (Inr (y, es)) \<longleftrightarrow>
     (\<exists>x es1 es2. m = Some (Inr (x, es1)) \<and> k x = Some (Inr (y, es2)) \<and> es = es1 @ es2)"
proof (cases m)
  case (Some r)
  then show ?thesis
    by (cases r) (auto simp: rbind_def bind_eq_Some_conv xemit_eq_Inr)
qed simp

lemma rret_eq [simp]: "rret x = Some (Inr (y, es)) \<longleftrightarrow> y = x \<and> es = []"
  by (auto simp: rret_def xret_def)

lemma rub_neq [simp]: "rub msg \<noteq> Some (Inr r)" "rub msg \<noteq> None"
  by (simp_all add: rub_def)

section \<open>Objects\<close>

text \<open>
  A \<open>PMEMoid\<close> is null or the offset of an object. The objects are those of the crit-bit tree, the
  items of the store, and others.
\<close>

type_synonym PMEMoid = "nat option"

record tree_map_entry =
  ekey :: "64 word"
  eslot :: PMEMoid

record tree_map_node =
  diff :: int
  entries :: "tree_map_entry \<times> tree_map_entry"

datatype 'x object =
    CtreeMap tree_map_entry
  | TreeMapNode tree_map_node
  | Item nat "64 word"
  | OtherObject 'x

text \<open>The pool: its objects, and the field \<open>map\<close> of its root object.\<close>

record 'x pool =
  objects :: "nat \<Rightarrow> 'x object option"
  root_map :: PMEMoid

text \<open>
  Pointers to the entries of the tree, and the ranges that are added to a transaction. The fields of
  the other objects are numbered; a range is one field or the whole object. Outside transactions fields
  are made persistent explicitly, and the library has operations that a crash does not divide.
\<close>

datatype entry_ptr = RootEntry nat | NodeEntry nat bool

datatype tx_range = EntryRange entry_ptr | MapRange | OtherRange nat "nat option"

datatype 'x tx_act =
    TxAdd tx_range
  | TxNew nat "'x object"
  | TxFree nat
  | SetEntry entry_ptr tree_map_entry
  | SetDiff nat int
  | SetItem nat "64 word"
  | SetMap PMEMoid
  | SetOther nat nat "'x \<Rightarrow> 'x"
  | PersistOther nat "nat list"
  | AtomicOp "'x pool \<Rightarrow> 'x pool"

definition entry_sel :: "bool \<Rightarrow> tree_map_entry \<times> tree_map_entry \<Rightarrow> tree_map_entry" where
  "entry_sel d es = (if d then snd es else fst es)"

definition entry_upd :: "bool \<Rightarrow> tree_map_entry \<Rightarrow> tree_map_entry \<times> tree_map_entry \<Rightarrow> tree_map_entry \<times> tree_map_entry" where
  "entry_upd d e es = (if d then (fst es, e) else (e, snd es))"

fun entry_of :: "(nat \<Rightarrow> 'x object option) \<Rightarrow> entry_ptr \<Rightarrow> tree_map_entry option" where
  "entry_of h (RootEntry m) = (case h m of Some (CtreeMap e) \<Rightarrow> Some e | _ \<Rightarrow> None)"
| "entry_of h (NodeEntry a d) = (case h a of Some (TreeMapNode n) \<Rightarrow> Some (entry_sel d (entries n)) | _ \<Rightarrow> None)"

fun entry_put :: "entry_ptr \<Rightarrow> tree_map_entry \<Rightarrow> (nat \<Rightarrow> 'x object option) \<Rightarrow> nat \<Rightarrow> 'x object option" where
  "entry_put (RootEntry m) e h = (case h m of Some (CtreeMap _) \<Rightarrow> h(m \<mapsto> CtreeMap e) | _ \<Rightarrow> h)"
| "entry_put (NodeEntry a d) e h =
     (case h a of Some (TreeMapNode n) \<Rightarrow> h(a \<mapsto> TreeMapNode (n\<lparr>entries := entry_upd d e (entries n)\<rparr>)) | _ \<Rightarrow> h)"

text \<open>The effect of an action on the pool.\<close>

fun apply_act :: "'x tx_act \<Rightarrow> 'x pool \<Rightarrow> 'x pool" where
  "apply_act (TxAdd r) P = P"
| "apply_act (TxNew a x) P = P\<lparr>objects := (objects P)(a \<mapsto> x)\<rparr>"
| "apply_act (TxFree a) P = P\<lparr>objects := (objects P)(a := None)\<rparr>"
| "apply_act (SetEntry p e) P = P\<lparr>objects := entry_put p e (objects P)\<rparr>"
| "apply_act (SetDiff a i) P =
     (case objects P a of Some (TreeMapNode n) \<Rightarrow> P\<lparr>objects := (objects P)(a \<mapsto> TreeMapNode (n\<lparr>diff := i\<rparr>))\<rparr> | _ \<Rightarrow> P)"
| "apply_act (SetItem a w) P =
     (case objects P a of Some (Item ty v) \<Rightarrow> P\<lparr>objects := (objects P)(a \<mapsto> Item ty w)\<rparr> | _ \<Rightarrow> P)"
| "apply_act (SetMap q) P = P\<lparr>root_map := q\<rparr>"
| "apply_act (SetOther a f u) P =
     (case objects P a of Some (OtherObject x) \<Rightarrow> P\<lparr>objects := (objects P)(a \<mapsto> OtherObject (u x))\<rparr> | _ \<Rightarrow> P)"
| "apply_act (PersistOther a fs) P = P"
| "apply_act (AtomicOp f) P = f P"

section \<open>The library\<close>

text \<open>
  What the library decides: where a new object is placed, if there is room; what fresh memory holds;
  and whether there is room for the snapshot of a range. A request that cannot be met aborts the
  transaction.
\<close>

record 'x pobj =
  tx_alloc :: "'x pool \<Rightarrow> nat option"
  raw_node :: tree_map_node
  raw_item :: "64 word"
  tx_snapshot :: "'x pool \<Rightarrow> tx_range \<Rightarrow> bool"

definition tx_abort :: "('e, 'a) run" where
  "tx_abort = Some (Inl (Throw ''transaction aborted''))"

definition tx_do :: "'x tx_act \<Rightarrow> 'x pool \<Rightarrow> ('x tx_act, 'x pool) run" where
  "tx_do a P = Some (Inr (apply_act a P, [a]))"

definition TX_ADD :: "'x pobj \<Rightarrow> tx_range \<Rightarrow> 'x pool \<Rightarrow> ('x tx_act, 'x pool) run" where
  "TX_ADD H r P = (if tx_snapshot H P r then tx_do (TxAdd r) P else tx_abort)"

definition TX_NEW :: "'x pobj \<Rightarrow> 'x object \<Rightarrow> 'x pool \<Rightarrow> ('x tx_act, nat \<times> 'x pool) run" where
  "TX_NEW H x P = (case tx_alloc H P of
       None \<Rightarrow> tx_abort
     | Some a \<Rightarrow> rbind (tx_do (TxNew a x) P) (\<lambda>P1. rret (a, P1)))"

text \<open>Freeing the null object does nothing.\<close>

definition TX_FREE :: "PMEMoid \<Rightarrow> 'x pool \<Rightarrow> ('x tx_act, 'x pool) run" where
  "TX_FREE q P = (case q of None \<Rightarrow> rret P | Some a \<Rightarrow> tx_do (TxFree a) P)"

text \<open>
  A block \<open>TX_BEGIN ... TX_ONABORT { ret = r; } TX_END\<close>: when the transaction is aborted, the pool is
  what it was before; inside another transaction the abort goes on to the enclosing block.
\<close>

definition tx_block :: "bool \<Rightarrow> int \<Rightarrow> 'x pool \<Rightarrow> ('e, 'x pool) run \<Rightarrow> ('e, int \<times> 'x pool) run" where
  "tx_block nested r P body = Option.bind body (\<lambda>b. case b of
       Inl (Throw s) \<Rightarrow> if nested then Some (Inl (Throw s)) else rret (r, P)
     | Inl f \<Rightarrow> Some (Inl f)
     | Inr (P1, es) \<Rightarrow> Some (Inr ((0, P1), es)))"

section \<open>Crashes\<close>

text \<open>
  What a crash leaves after the library has recovered the pool: ranges that were added are rolled
  back, new objects are gone and freed ones are back, but a change of memory that was not added and is
  not new may have reached the memory.
\<close>

fun holder :: "entry_ptr \<Rightarrow> nat" where
  "holder (RootEntry m) = m"
| "holder (NodeEntry a d) = a"

fun undone :: "tx_range list \<Rightarrow> nat list \<Rightarrow> 'x tx_act \<Rightarrow> bool" where
  "undone rs as (SetEntry p e) = (EntryRange p \<in> set rs \<or> holder p \<in> set as)"
| "undone rs as (SetDiff a i) = (a \<in> set as)"
| "undone rs as (SetItem a w) = (a \<in> set as)"
| "undone rs as (SetMap q) = (MapRange \<in> set rs)"
| "undone rs as (SetOther a f u) = (OtherRange a (Some f) \<in> set rs \<or> OtherRange a None \<in> set rs \<or> a \<in> set as)"
| "undone rs as (PersistOther a fs) = True"
| "undone rs as (AtomicOp f) = False"
| "undone rs as (TxAdd r) = True"
| "undone rs as (TxNew a x) = True"
| "undone rs as (TxFree a) = True"

fun after_crash :: "tx_range list \<Rightarrow> nat list \<Rightarrow> 'x tx_act list \<Rightarrow> 'x pool \<Rightarrow> 'x pool" where
  "after_crash rs as [] P = P"
| "after_crash rs as (act # acts) P =
     after_crash (case act of TxAdd r \<Rightarrow> r # rs | _ \<Rightarrow> rs) (case act of TxNew a x \<Rightarrow> a # as | _ \<Rightarrow> as) acts
       (if undone rs as act then P else apply_act act P)"

text \<open>Every change of an action list is undone by a crash.\<close>

fun protected :: "tx_range list \<Rightarrow> nat list \<Rightarrow> 'x tx_act list \<Rightarrow> bool" where
  "protected rs as [] = True"
| "protected rs as (act # acts) =
     (undone rs as act \<and>
      protected (case act of TxAdd r \<Rightarrow> r # rs | _ \<Rightarrow> rs) (case act of TxNew a x \<Rightarrow> a # as | _ \<Rightarrow> as) acts)"

lemma after_crash_protected: "protected rs as acts \<Longrightarrow> after_crash rs as (take n acts) P = P"
proof (induction acts arbitrary: rs as n P)
  case (Cons act acts)
  then show ?case by (cases n) auto
qed simp

lemma undone_mono: "undone rs as act \<Longrightarrow> set rs \<subseteq> set rs' \<Longrightarrow> set as \<subseteq> set as' \<Longrightarrow> undone rs' as' act"
  by (cases act) auto

lemma protected_mono:
  "protected rs as acts \<Longrightarrow> set rs \<subseteq> set rs' \<Longrightarrow> set as \<subseteq> set as' \<Longrightarrow> protected rs' as' acts"
proof (induction acts arbitrary: rs as rs' as')
  case (Cons act acts)
  have "protected (case act of TxAdd r \<Rightarrow> r # rs' | _ \<Rightarrow> rs') (case act of TxNew a x \<Rightarrow> a # as' | _ \<Rightarrow> as') acts"
    by (rule Cons.IH [of "case act of TxAdd r \<Rightarrow> r # rs | _ \<Rightarrow> rs" "case act of TxNew a x \<Rightarrow> a # as | _ \<Rightarrow> as"])
      (use Cons.prems in \<open>auto split: tx_act.splits\<close>)
  then show ?case using Cons.prems by (auto intro: undone_mono)
qed simp

lemma protected_append: "protected rs as xs \<Longrightarrow> protected rs as ys \<Longrightarrow> protected rs as (xs @ ys)"
proof (induction xs arbitrary: rs as)
  case (Cons act xs)
  have "protected (case act of TxAdd r \<Rightarrow> r # rs | _ \<Rightarrow> rs) (case act of TxNew a x \<Rightarrow> a # as | _ \<Rightarrow> as) ys"
    by (rule protected_mono [OF Cons.prems(2)]) (auto split: tx_act.splits)
  then show ?case using Cons by simp
qed simp

end
