(* ===== verification/XF_CTree.thy ===== *)
theory XF_CTree
  imports XF_PObj
begin

unbundle bit_operations_syntax

text \<open>
  The crit-bit tree of \<open>pmdk/src/examples/libpmemobj/tree_map/ctree_map.c\<close>, a workload of the
  detector: the operations walk through the objects of a pool, and change it inside transactions. The
  argument \<open>nested\<close> says whether an operation is called inside a transaction.
\<close>

section \<open>Reading the pool\<close>

definition load_entry :: "'x pool \<Rightarrow> entry_ptr \<Rightarrow> ('e, tree_map_entry) run" where
  "load_entry P p = (case entry_of (objects P) p of Some e \<Rightarrow> rret e | None \<Rightarrow> rub ''pointer'')"

definition node_at :: "'x pool \<Rightarrow> nat \<Rightarrow> ('e, tree_map_node) run" where
  "node_at P a = (case objects P a of Some (TreeMapNode n) \<Rightarrow> rret n | _ \<Rightarrow> rub ''pointer'')"

text \<open>The type number of the null object or of a freed one is undefined.\<close>

definition OID_INSTANCEOF :: "'x pool \<Rightarrow> PMEMoid \<Rightarrow> ('e, bool) run" where
  "OID_INSTANCEOF P q = (case q of
       None \<Rightarrow> rub ''null object''
     | Some a \<Rightarrow> (case objects P a of
           None \<Rightarrow> rub ''freed object''
         | Some (TreeMapNode n) \<Rightarrow> rret True
         | Some _ \<Rightarrow> rret False))"

definition store_entry :: "entry_ptr \<Rightarrow> tree_map_entry \<Rightarrow> 'x pool \<Rightarrow> ('x tx_act, 'x pool) run" where
  "store_entry p e P = rbind (load_entry P p) (\<lambda>_. tx_do (SetEntry p e) P)"

definition BIT_IS_SET :: "64 word \<Rightarrow> int \<Rightarrow> ('e, bool) run" where
  "BIT_IS_SET n i =
     (if 0 \<le> i \<and> i < 64 then rret ((n AND push_bit (nat i) 1) \<noteq> 0) else rub ''shift'')"

text \<open>\<open>__builtin_clzll\<close> counts the leading zeros and is undefined for 0.\<close>

fun leading_zeros :: "nat \<Rightarrow> 64 word \<Rightarrow> nat" where
  "leading_zeros 0 w = 0"
| "leading_zeros (Suc i) w = (if bit w i then 0 else Suc (leading_zeros i w))"

definition find_last_set_64 :: "64 word \<Rightarrow> ('e, int) run" where
  "find_last_set_64 val =
     (if val = 0 then rub ''clz of 0'' else rret (64 - int (leading_zeros 64 val) - 1))"

definition find_crit_bit :: "64 word \<Rightarrow> 64 word \<Rightarrow> ('e, int) run" where
  "find_crit_bit lhs rhs = find_last_set_64 (lhs XOR rhs)"

section \<open>Creating and clearing\<close>

definition ctree_map_create :: "'x pobj \<Rightarrow> bool \<Rightarrow> 'x pool \<Rightarrow> ('x tx_act, int \<times> 'x pool) run" where
  "ctree_map_create H nested P =
     tx_block nested 1 P
       (rbind (TX_ADD H MapRange P) (\<lambda>P1.
        rbind (TX_NEW H (CtreeMap \<lparr>ekey = 0, eslot = None\<rparr>) P1) (\<lambda>(a, P2).
        tx_do (SetMap (Some a)) P2)))"

partial_function (option) ctree_map_clear_node :: "PMEMoid \<Rightarrow> 'x pool \<Rightarrow> ('x tx_act, 'x pool) outcome option" where
  "ctree_map_clear_node p P =
     (case p of
        None \<Rightarrow> rret P
      | Some a \<Rightarrow>
          rbind (OID_INSTANCEOF P p) (\<lambda>is_node.
          rbind (if is_node
                 then rbind (node_at P a) (\<lambda>n.
                      rbind (ctree_map_clear_node (eslot (fst (entries n))) P) (\<lambda>P1.
                      rbind (node_at P1 a) (\<lambda>n1.
                      ctree_map_clear_node (eslot (snd (entries n1))) P1)))
                 else rret P) (\<lambda>P2.
          TX_FREE p P2)))"

text \<open>The block of \<open>ctree_map_clear\<close> has no code for an abort; the function returns 0.\<close>

definition ctree_map_clear :: "'x pobj \<Rightarrow> bool \<Rightarrow> 'x pool \<Rightarrow> nat \<Rightarrow> ('x tx_act, int \<times> 'x pool) run" where
  "ctree_map_clear H nested P m =
     tx_block nested 0 P
       (rbind (load_entry P (RootEntry m)) (\<lambda>e.
        rbind (ctree_map_clear_node (eslot e) P) (\<lambda>P1.
        rbind (TX_ADD H (EntryRange (RootEntry m)) P1) (\<lambda>P2.
        rbind (load_entry P2 (RootEntry m)) (\<lambda>e2.
        store_entry (RootEntry m) (e2\<lparr>eslot := None\<rparr>) P2)))))"

definition ctree_map_destroy :: "'x pobj \<Rightarrow> bool \<Rightarrow> 'x pool \<Rightarrow> ('x tx_act, int \<times> 'x pool) run" where
  "ctree_map_destroy H nested P =
     tx_block nested 1 P
       (case root_map P of
          None \<Rightarrow> rub ''null object''
        | Some m \<Rightarrow>
            rbind (ctree_map_clear H True P m) (\<lambda>(_, P1).
            rbind (TX_ADD H MapRange P1) (\<lambda>P2.
            rbind (TX_FREE (root_map P2) P2) (\<lambda>P3.
            tx_do (SetMap None) P3))))"

section \<open>Inserting\<close>

text \<open>The loop of \<open>ctree_map_insert_leaf\<close> that finds the position of the new node.\<close>

partial_function (option) insert_position ::
  "'x pool \<Rightarrow> nat \<Rightarrow> 64 word \<Rightarrow> entry_ptr \<Rightarrow> ('e, entry_ptr) outcome option" where
  "insert_position P new_node k p =
     rbind (load_entry P p) (\<lambda>e.
     rbind (OID_INSTANCEOF P (eslot e)) (\<lambda>is_node.
     if is_node then
       rbind (node_at P (the (eslot e))) (\<lambda>n.
       rbind (node_at P new_node) (\<lambda>nn.
       if diff n < diff nn then rret p
       else rbind (BIT_IS_SET k (diff n)) (\<lambda>d. insert_position P new_node k (NodeEntry (the (eslot e)) d))))
     else rret p))"

definition ctree_map_insert_leaf ::
  "'x pobj \<Rightarrow> entry_ptr \<Rightarrow> tree_map_entry \<Rightarrow> int \<Rightarrow> 'x pool \<Rightarrow> ('x tx_act, 'x pool) run" where
  "ctree_map_insert_leaf H p e df P =
     rbind (TX_NEW H (TreeMapNode (raw_node H)) P) (\<lambda>(new_node, P1).
     rbind (tx_do (SetDiff new_node df) P1) (\<lambda>P2.
     rbind (BIT_IS_SET (ekey e) df) (\<lambda>d.
     rbind (store_entry (NodeEntry new_node d) e P2) (\<lambda>P3.
     rbind (insert_position P3 new_node (ekey e) p) (\<lambda>q.
     rbind (load_entry P3 q) (\<lambda>old.
     rbind (store_entry (NodeEntry new_node (\<not> d)) old P3) (\<lambda>P4.
     rbind (TX_ADD H (EntryRange q) P4) (\<lambda>P5.
     rbind (load_entry P5 q) (\<lambda>c.
     rbind (store_entry q (c\<lparr>ekey := 0\<rparr>) P5) (\<lambda>P6.
     rbind (load_entry P6 q) (\<lambda>c1.
     store_entry q (c1\<lparr>eslot := Some new_node\<rparr>) P6)))))))))))"

text \<open>The loop of \<open>ctree_map_insert\<close> that descends to the best matching key.\<close>

partial_function (option) descend :: "'x pool \<Rightarrow> 64 word \<Rightarrow> entry_ptr \<Rightarrow> ('e, entry_ptr) outcome option" where
  "descend P k p =
     rbind (load_entry P p) (\<lambda>e.
     case eslot e of
       None \<Rightarrow> rret p
     | Some a \<Rightarrow>
         rbind (OID_INSTANCEOF P (Some a)) (\<lambda>is_node.
         if is_node then
           rbind (node_at P a) (\<lambda>n.
           rbind (BIT_IS_SET k (diff n)) (\<lambda>d. descend P k (NodeEntry a d)))
         else rret p))"

definition ctree_map_insert ::
  "'x pobj \<Rightarrow> bool \<Rightarrow> 'x pool \<Rightarrow> nat \<Rightarrow> 64 word \<Rightarrow> PMEMoid \<Rightarrow> ('x tx_act, int \<times> 'x pool) run" where
  "ctree_map_insert H nested P m k v =
     rbind (descend P k (RootEntry m)) (\<lambda>p.
     tx_block nested 1 P
       (rbind (load_entry P p) (\<lambda>e.
        if ekey e = 0 \<or> ekey e = k then
          rbind (TX_ADD H (EntryRange p) P) (\<lambda>P1. store_entry p \<lparr>ekey = k, eslot = v\<rparr> P1)
        else
          rbind (find_crit_bit (ekey e) k) (\<lambda>df.
          ctree_map_insert_leaf H (RootEntry m) \<lparr>ekey = k, eslot = v\<rparr> df P))))"

text \<open>The constructor of the caller writes the new object.\<close>

definition ctree_map_insert_new ::
  "'x pobj \<Rightarrow> bool \<Rightarrow> 'x pool \<Rightarrow> nat \<Rightarrow> 64 word \<Rightarrow> nat \<Rightarrow> (64 word \<Rightarrow> 64 word) \<Rightarrow> ('x tx_act, int \<times> 'x pool) run" where
  "ctree_map_insert_new H nested P m k type_num constructor =
     tx_block nested 1 P
       (rbind (TX_NEW H (Item type_num (raw_item H)) P) (\<lambda>(n, P1).
        rbind (tx_do (SetItem n (constructor (raw_item H))) P1) (\<lambda>P2.
        rbind (ctree_map_insert H True P2 m k (Some n)) (\<lambda>(_, P3). rret P3))))"

section \<open>Searching\<close>

text \<open>The loop of \<open>ctree_map_get_leaf\<close>, which keeps the entry above the current one.\<close>

partial_function (option) descend_parent ::
  "'x pool \<Rightarrow> 64 word \<Rightarrow> entry_ptr option \<Rightarrow> entry_ptr \<Rightarrow> ('e, entry_ptr option \<times> entry_ptr) outcome option" where
  "descend_parent P k p n =
     rbind (load_entry P n) (\<lambda>e.
     case eslot e of
       None \<Rightarrow> rret (p, n)
     | Some a \<Rightarrow>
         rbind (OID_INSTANCEOF P (Some a)) (\<lambda>is_node.
         if is_node then
           rbind (node_at P a) (\<lambda>nd.
           rbind (BIT_IS_SET k (diff nd)) (\<lambda>d. descend_parent P k (Some n) (NodeEntry a d)))
         else rret (p, n)))"

definition ctree_map_get_leaf ::
  "'x pool \<Rightarrow> nat \<Rightarrow> 64 word \<Rightarrow> ('e, (entry_ptr option \<times> entry_ptr) option) run" where
  "ctree_map_get_leaf P m k =
     rbind (descend_parent P k None (RootEntry m)) (\<lambda>(p, n).
     rbind (load_entry P n) (\<lambda>e.
     if ekey e = k then rret (Some (p, n)) else rret None))"

definition ctree_map_get :: "'x pool \<Rightarrow> nat \<Rightarrow> 64 word \<Rightarrow> ('e, PMEMoid) run" where
  "ctree_map_get P m k =
     rbind (ctree_map_get_leaf P m k) (\<lambda>entry.
     case entry of None \<Rightarrow> rret None | Some (_, n) \<Rightarrow> rbind (load_entry P n) (\<lambda>e. rret (eslot e)))"

definition ctree_map_lookup :: "'x pool \<Rightarrow> nat \<Rightarrow> 64 word \<Rightarrow> ('e, int) run" where
  "ctree_map_lookup P m k =
     rbind (ctree_map_get_leaf P m k) (\<lambda>entry. rret (if entry \<noteq> None then 1 else 0))"

section \<open>Removing\<close>

text \<open>
  The blocks of \<open>ctree_map_remove\<close> have no code for an abort: the function returns the value it found
  also when nothing was removed.
\<close>

definition ctree_map_remove ::
  "'x pobj \<Rightarrow> bool \<Rightarrow> 'x pool \<Rightarrow> nat \<Rightarrow> 64 word \<Rightarrow> ('x tx_act, PMEMoid \<times> 'x pool) run" where
  "ctree_map_remove H nested P m k =
     rbind (ctree_map_get_leaf P m k) (\<lambda>found.
     case found of
       None \<Rightarrow> rret (None, P)
     | Some (None, leaf) \<Rightarrow>
         rbind (load_entry P leaf) (\<lambda>le.
         rbind (tx_block nested 0 P
           (rbind (TX_ADD H (EntryRange leaf) P) (\<lambda>P1.
            rbind (store_entry leaf (le\<lparr>ekey := 0\<rparr>) P1) (\<lambda>P2.
            store_entry leaf \<lparr>ekey = 0, eslot = None\<rparr> P2)))) (\<lambda>(_, P3).
         rret (eslot le, P3)))
     | Some (Some parent, leaf) \<Rightarrow>
         rbind (load_entry P leaf) (\<lambda>le.
         rbind (tx_block nested 0 P
           (rbind (load_entry P parent) (\<lambda>pe.
            rbind (TX_ADD H (EntryRange parent) P) (\<lambda>P1.
            rbind (node_at P1 (the (eslot pe))) (\<lambda>n.
            rbind (store_entry parent (entry_sel (ekey (fst (entries n)) = ekey le) (entries n)) P1) (\<lambda>P2.
            TX_FREE (eslot pe) P2)))))) (\<lambda>(_, P3).
         rret (eslot le, P3))))"

definition ctree_map_remove_free ::
  "'x pobj \<Rightarrow> bool \<Rightarrow> 'x pool \<Rightarrow> nat \<Rightarrow> 64 word \<Rightarrow> ('x tx_act, int \<times> 'x pool) run" where
  "ctree_map_remove_free H nested P m k =
     tx_block nested 1 P
       (rbind (ctree_map_remove H True P m k) (\<lambda>(v, P1). TX_FREE v P1))"

section \<open>Traversing\<close>

text \<open>
  The callback works on a state of its own, and its nonzero result is to end the traversal. The
  function for inner nodes always returns 0.
\<close>

partial_function (option) ctree_map_foreach_node ::
  "'x pool \<Rightarrow> (64 word \<Rightarrow> PMEMoid \<Rightarrow> 's \<Rightarrow> ('e, int \<times> 's) outcome) \<Rightarrow> tree_map_entry \<Rightarrow> 's \<Rightarrow> ('e, int \<times> 's) outcome option" where
  "ctree_map_foreach_node P cb e s =
     rbind (OID_INSTANCEOF P (eslot e)) (\<lambda>is_node.
     if is_node then
       rbind (node_at P (the (eslot e))) (\<lambda>n.
       rbind (ctree_map_foreach_node P cb (fst (entries n)) s) (\<lambda>rs.
       if fst rs = 0
       then rbind (ctree_map_foreach_node P cb (snd (entries n)) (snd rs)) (\<lambda>rs2. rret (0, snd rs2))
       else rret (0, snd rs)))
     else Some (cb (ekey e) (eslot e) s))"

definition ctree_map_foreach ::
  "'x pool \<Rightarrow> nat \<Rightarrow> (64 word \<Rightarrow> PMEMoid \<Rightarrow> 's \<Rightarrow> ('e, int \<times> 's) outcome) \<Rightarrow> 's \<Rightarrow> ('e, int \<times> 's) run" where
  "ctree_map_foreach P m cb s =
     rbind (load_entry P (RootEntry m)) (\<lambda>e.
     if eslot e = None then rret (0, s) else ctree_map_foreach_node P cb e s)"

definition ctree_map_is_empty :: "'x pool \<Rightarrow> nat \<Rightarrow> ('e, int) run" where
  "ctree_map_is_empty P m =
     rbind (load_entry P (RootEntry m)) (\<lambda>e. rret (if ekey e = 0 then 1 else 0))"

definition ctree_map_check :: "'x pool \<Rightarrow> PMEMoid \<Rightarrow> ('e, int) run" where
  "ctree_map_check P mp =
     (case mp of
        None \<Rightarrow> rret 1
      | Some m \<Rightarrow> (case objects P m of
            None \<Rightarrow> rub ''freed object''
          | Some (CtreeMap e) \<Rightarrow> rret 0
          | Some _ \<Rightarrow> rret 1))"

end
