(* ===== verification/XF_CTreeSpec.thy ===== *)
theory XF_CTreeSpec
  imports XF_CTree
begin

unbundle bit_operations_syntax

text \<open>
  Crit-bit trees as data: leaves and inner nodes with the address of their object, the invariant of
  the tree, and what replacing the subtree at the end of a search path does to it.
\<close>

datatype ct = Lf "64 word" nat | Nd nat nat ct ct

primrec leaves :: "ct \<Rightarrow> (64 word \<times> nat) list" where
  "leaves (Lf k v) = [(k, v)]"
| "leaves (Nd a d l r) = leaves l @ leaves r"

primrec nodes :: "ct \<Rightarrow> nat list" where
  "nodes (Lf k v) = []"
| "nodes (Nd a d l r) = a # nodes l @ nodes r"

definition keys :: "ct \<Rightarrow> 64 word set" where
  "keys t = fst ` set (leaves t)"

lemma keys_simps [simp]: "keys (Lf k v) = {k}" "keys (Nd a d l r) = keys l \<union> keys r"
  by (auto simp: keys_def image_Un)

fun below :: "nat \<Rightarrow> ct \<Rightarrow> bool" where
  "below d (Lf k v) = True"
| "below d (Nd a d' l r) = (d' < d)"

definition agree :: "nat \<Rightarrow> 64 word set \<Rightarrow> bool" where
  "agree d K \<longleftrightarrow> (\<forall>k \<in> K. \<forall>k' \<in> K. \<forall>i > d. bit k i = bit k' i)"

lemma agreeD: "agree d K \<Longrightarrow> k \<in> K \<Longrightarrow> k' \<in> K \<Longrightarrow> d < i \<Longrightarrow> bit k i = bit k' i"
  unfolding agree_def by blast

lemma agree_mono: "agree d K \<Longrightarrow> K' \<subseteq> K \<Longrightarrow> agree d K'"
  unfolding agree_def by blast

lemma agree_insert: "agree d K \<Longrightarrow> x \<in> K \<Longrightarrow> \<forall>i > d. bit k i = bit x i \<Longrightarrow> agree d (insert k K)"
  unfolding agree_def by blast

primrec wf_ct :: "ct \<Rightarrow> bool" where
  "wf_ct (Lf k v) = (k \<noteq> 0)"
| "wf_ct (Nd a d l r) =
     (d < 64 \<and> wf_ct l \<and> wf_ct r \<and> below d l \<and> below d r \<and>
      (\<forall>k \<in> keys l. \<not> bit k d) \<and> (\<forall>k \<in> keys r. bit k d) \<and>
      agree d (keys l \<union> keys r))"

section \<open>Words by their bits\<close>

lemma BIT_IS_SET_bit: "d < 64 \<Longrightarrow> BIT_IS_SET n (int d) = rret (bit n d)"
  using and_exp_eq_0_iff_not_bit [of n d] by (simp add: BIT_IS_SET_def push_bit_eq_mult)

lemma bit_unat: "bit (unat (x :: 64 word)) n = bit x n"
  by (simp add: bit_unsigned_iff)

lemma word_less_by_bit:
  fixes x y :: "64 word"
  assumes "\<forall>i > d. bit x i = bit y i" "\<not> bit x d" "bit y d"
  shows "x < y"
proof -
  have "drop_bit (Suc d) (unat x) = drop_bit (Suc d) (unat y)"
  proof (rule bit_eqI)
    fix n
    have "bit x (Suc d + n) = bit y (Suc d + n)" using assms(1) by simp
    then show "bit (drop_bit (Suc d) (unat x)) n = bit (drop_bit (Suc d) (unat y)) n"
      by (simp only: bit_drop_bit_eq bit_unat comp_apply)
  qed
  then have eq: "(unat x div 2 ^ d) div 2 = (unat y div 2 ^ d) div 2"
    by (simp only: drop_bit_eq_div power_Suc2 div_mult2_eq)
  have "even (unat x div 2 ^ d)" "odd (unat y div 2 ^ d)"
    using assms(2,3) bit_unat [of x d] bit_unat [of y d]
    unfolding bit_iff_odd [of "unat x"] bit_iff_odd [of "unat y"] by blast+
  with eq have "unat x div 2 ^ d < unat y div 2 ^ d"
    by (elim evenE oddE) simp
  then have "unat x < unat y"
    by (metis div_le_mono not_le)
  then show ?thesis by (simp add: word_less_nat_alt)
qed

lemma leading_zeros_spec:
  assumes "\<exists>j < i. bit w j"
  shows "leading_zeros i w < i \<and> bit w (i - leading_zeros i w - 1) \<and>
    (\<forall>j. i - leading_zeros i w \<le> j \<and> j < i \<longrightarrow> \<not> bit w j)"
  using assms
proof (induction i)
  case (Suc i)
  show ?case
  proof (cases "bit w i")
    case False
    then have "\<exists>j < i. bit w j" using Suc.prems less_Suc_eq by blast
    with Suc.IH False show ?thesis by (auto simp: less_Suc_eq)
  qed auto
qed simp

definition crit_bit :: "64 word \<Rightarrow> 64 word \<Rightarrow> nat" where
  "crit_bit x y = 64 - leading_zeros 64 (x XOR y) - 1"

lemma find_crit_bit_spec:
  assumes "x \<noteq> (y :: 64 word)"
  shows "find_crit_bit x y = rret (int (crit_bit x y))" "crit_bit x y < 64"
    "bit x (crit_bit x y) \<noteq> bit y (crit_bit x y)" "i > crit_bit x y \<Longrightarrow> bit x i = bit y i"
proof -
  let ?w = "x XOR y" and ?z = "leading_zeros 64 (x XOR y)"
  have w: "?w \<noteq> 0"
  proof
    assume 0: "?w = 0"
    have "bit x i = bit y i" for i using bit_xor_iff [of x y i] unfolding 0 by simp
    then show False using assms bit_word_eqI [of x y] by blast
  qed
  have "\<exists>j < 64. bit ?w j"
  proof (rule ccontr)
    assume "\<not> ?thesis"
    then have "bit ?w j = bit 0 j" for j
      using bit_imp_le_length [of ?w j] by auto
    then show False using w bit_eqI [of ?w 0] by auto
  qed
  from leading_zeros_spec [OF this] have z: "?z < 64" "bit ?w (64 - ?z - 1)"
      "\<forall>j. 64 - ?z \<le> j \<and> j < 64 \<longrightarrow> \<not> bit ?w j" by auto
  show "find_crit_bit x y = rret (int (crit_bit x y))"
    using w z(1) by (simp add: find_crit_bit_def find_last_set_64_def crit_bit_def of_nat_diff)
  show "crit_bit x y < 64" by (simp add: crit_bit_def)
  show "bit x (crit_bit x y) \<noteq> bit y (crit_bit x y)"
    using z(2) by (simp add: bit_xor_iff crit_bit_def)
  show "bit x i = bit y i" if "i > crit_bit x y" for i
  proof (cases "i < 64")
    case True
    then show ?thesis using z(3) that by (auto simp: bit_xor_iff crit_bit_def)
  next
    case False
    then show ?thesis using bit_imp_le_length [of x i] bit_imp_le_length [of y i] by auto
  qed
qed

section \<open>The invariant\<close>

lemma leaves_not_Nil [simp]: "leaves t \<noteq> []"
  by (induction t) auto

lemma keys_not_empty [simp]: "keys t \<noteq> {}"
  by (simp add: keys_def)

lemma wf_keys_nonzero: "wf_ct t \<Longrightarrow> k \<in> keys t \<Longrightarrow> k \<noteq> 0"
  by (induction t) auto

lemma wf_sorted: "wf_ct t \<Longrightarrow> sorted_wrt (<) (map fst (leaves t))"
proof (induction t)
  case (Nd a d l r)
  have "x < y" if "x \<in> keys l" "y \<in> keys r" for x y
    by (rule word_less_by_bit [of d]) (use Nd.prems that agreeD [of d "keys l \<union> keys r" x y] in auto)
  then show ?case using Nd by (auto simp: sorted_wrt_append keys_def)
qed simp

lemma wf_distinct: "wf_ct t \<Longrightarrow> distinct (map fst (leaves t))"
  using wf_sorted strict_sorted_iff by blast

section \<open>Search paths\<close>

text \<open>
  The path of a key through a tree ends at a leaf or at the first subtree with a property.
\<close>

fun sub :: "(ct \<Rightarrow> bool) \<Rightarrow> 64 word \<Rightarrow> ct \<Rightarrow> ct" where
  "sub st k (Lf k' v) = Lf k' v"
| "sub st k (Nd a d l r) = (if st (Nd a d l r) then Nd a d l r else sub st k (if bit k d then r else l))"

fun plug :: "(ct \<Rightarrow> bool) \<Rightarrow> 64 word \<Rightarrow> ct \<Rightarrow> ct \<Rightarrow> ct" where
  "plug st k t2 (Lf k' v) = t2"
| "plug st k t2 (Nd a d l r) =
     (if st (Nd a d l r) then t2
      else if bit k d then Nd a d l (plug st k t2 r) else Nd a d (plug st k t2 l) r)"

fun pos :: "(ct \<Rightarrow> bool) \<Rightarrow> 64 word \<Rightarrow> ct \<Rightarrow> entry_ptr \<Rightarrow> entry_ptr" where
  "pos st k (Lf k' v) q = q"
| "pos st k (Nd a d l r) q =
     (if st (Nd a d l r) then q else pos st k (if bit k d then r else l) (NodeEntry a (bit k d)))"

definition best :: "64 word \<Rightarrow> ct \<Rightarrow> 64 word \<times> nat" where
  "best k t = hd (leaves (sub (\<lambda>_. False) k t))"

lemma sub_leaf: "sub (\<lambda>_. False) k t = Lf (fst (best k t)) (snd (best k t))"
  unfolding best_def by (induction t) auto

lemma best_simps [simp]:
  "best k (Lf k' v) = (k', v)" "best k (Nd a d l r) = best k (if bit k d then r else l)"
  by (simp_all add: best_def)

lemma best_mem: "best k t \<in> set (leaves t)"
  by (induction t) auto

lemma best_key: "fst (best k t) \<in> keys t"
  using best_mem by (force simp: keys_def)

lemma best_found: "wf_ct t \<Longrightarrow> k \<in> keys t \<Longrightarrow> fst (best k t) = k"
  by (induction t) auto

lemma sub_leaves: "set (leaves (sub st k t)) \<subseteq> set (leaves t)"
  by (induction t) auto

lemma sub_keys: "keys (sub st k t) \<subseteq> keys t"
  unfolding keys_def by (intro image_mono sub_leaves)

lemma wf_sub: "wf_ct t \<Longrightarrow> wf_ct (sub st k t)"
  by (induction t) simp_all

lemma sub_best: "best k (sub st k t) = best k t"
  by (induction t) auto

section \<open>Replacing subtrees\<close>

lemma below_mono: "below c t \<Longrightarrow> c \<le> d \<Longrightarrow> below d t"
  by (cases t) auto

lemma wf_Nd_disjoint: "wf_ct (Nd a d l r) \<Longrightarrow> set (leaves l) \<inter> set (leaves r) = {}"
  by (force simp: keys_def)

lemma plug_set:
  "wf_ct t \<Longrightarrow> set (leaves (plug st k t2 t)) = set (leaves t2) \<union> (set (leaves t) - set (leaves (sub st k t)))"
proof (induction t)
  case (Nd a d l r)
  have "set (leaves l) \<inter> set (leaves r) = {}" by (rule wf_Nd_disjoint [OF Nd.prems])
  then have "set (leaves r) - set (leaves (sub st k l)) = set (leaves r)"
      "set (leaves l) - set (leaves (sub st k r)) = set (leaves l)"
    using sub_leaves [of st k l] sub_leaves [of st k r] by auto
  moreover have "wf_ct l" "wf_ct r" using Nd.prems by simp_all
  ultimately show ?case using Nd.IH by (cases "st (Nd a d l r)") (auto simp: Un_Diff Un_ac)
qed simp

lemma map_of_leaves: "wf_ct t \<Longrightarrow> map_of (leaves t) k = Some v \<longleftrightarrow> (k, v) \<in> set (leaves t)"
  using wf_distinct by (metis map_of_SomeD map_of_is_SomeI)

lemma dom_leaves: "dom (map_of (leaves t)) = keys t"
  by (simp add: dom_map_of_conv_image_fst keys_def)

text \<open>A smaller subtree may take the place of another.\<close>

lemma plug_shrink:
  assumes "wf_ct t" "wf_ct t2" "keys t2 \<subseteq> keys (sub st k t)" "\<forall>d. below d (sub st k t) \<longrightarrow> below d t2"
  shows "wf_ct (plug st k t2 t) \<and> keys (plug st k t2 t) \<subseteq> keys t \<and> (\<forall>d. below d t \<longrightarrow> below d (plug st k t2 t))"
  using assms
proof (induction t)
  case (Nd a d l r)
  show ?case
  proof (cases "st (Nd a d l r)")
    case True
    with Nd.prems show ?thesis by simp
  next
    case False
    note IH = Nd.IH(1) [OF _ Nd.prems(2)] Nd.IH(2) [OF _ Nd.prems(2)]
    show ?thesis
    proof (cases "bit k d")
      case True
      then have "wf_ct (plug st k t2 r) \<and> keys (plug st k t2 r) \<subseteq> keys r \<and> (\<forall>d. below d r \<longrightarrow> below d (plug st k t2 r))"
        using False Nd.prems by (intro IH(2)) simp_all
      then show ?thesis using True False Nd.prems(1) by (auto intro: agree_mono)
    next
      case bit: False
      then have "wf_ct (plug st k t2 l) \<and> keys (plug st k t2 l) \<subseteq> keys l \<and> (\<forall>d. below d l \<longrightarrow> below d (plug st k t2 l))"
        using False Nd.prems by (intro IH(1)) simp_all
      then show ?thesis using bit False Nd.prems(1) by (auto intro: agree_mono)
    qed
  qed
qed simp

text \<open>
  A new key goes below the nodes whose bit is above the first bit in which it differs from the best
  matching key.
\<close>

definition crit :: "64 word \<Rightarrow> nat \<Rightarrow> ct \<Rightarrow> bool" where
  "crit k c t \<longleftrightarrow> bit k c \<noteq> bit (fst (best k t)) c \<and> (\<forall>i > c. bit k i = bit (fst (best k t)) i)"

lemma crit_sub: "crit k c (sub st k t) = crit k c t"
  by (simp add: crit_def sub_best)

lemma crit_child: "crit k c (Nd a d l r) = crit k c (if bit k d then r else l)"
  by (simp add: crit_def)

lemma crit_path:
  assumes "wf_ct (Nd a d l r)" "crit k c (Nd a d l r)" "\<not> d < c"
  shows "c < d"
proof -
  have "fst (best k (if bit k d then r else l)) \<in> keys (if bit k d then r else l)" by (rule best_key)
  then have "bit (fst (best k (Nd a d l r))) d = bit k d" using assms(1) by (auto split: if_splits)
  then show ?thesis using assms(2,3) by (cases "c = d") (auto simp: crit_def)
qed

lemma sub_agree:
  assumes "wf_ct t" "x \<in> keys (sub (below c) k t)" "c \<le> i"
  shows "bit x i = bit (fst (best k t)) i"
  using assms(1,2)
proof (induction t)
  case (Nd a d l r)
  show ?case
  proof (cases "d < c")
    case True
    with Nd.prems(2) have "x \<in> keys (Nd a d l r)" by simp
    moreover have "fst (best k (Nd a d l r)) \<in> keys (Nd a d l r)" by (rule best_key)
    moreover have "agree d (keys (Nd a d l r))" "d < i" using Nd.prems(1) True assms(3) by simp_all
    ultimately show ?thesis by (blast dest: agreeD)
  next
    case False
    then show ?thesis using Nd by (cases "bit k d") simp_all
  qed
qed simp

lemma plug_new:
  assumes "wf_ct t" "crit k c t" "wf_ct t2" "keys t2 = insert k (keys (sub (below c) k t))" "below (Suc c) t2"
  shows "wf_ct (plug (below c) k t2 t) \<and> keys (plug (below c) k t2 t) = insert k (keys t) \<and>
    (\<forall>d. below d t \<longrightarrow> c < d \<longrightarrow> below d (plug (below c) k t2 t))"
  using assms(1,2,4)
proof (induction t)
  case (Lf k' v)
  then show ?case using assms(3,5) by (auto intro: below_mono)
next
  case (Nd a d l r)
  show ?case
  proof (cases "d < c")
    case True
    then show ?thesis using Nd.prems(3) assms(3,5) by (auto intro: below_mono)
  next
    case False
    have cd: "c < d" by (rule crit_path [OF Nd.prems(1,2) False])
    let ?s = "if bit k d then r else l"
    have IH: "wf_ct (plug (below c) k t2 ?s)" "keys (plug (below c) k t2 ?s) = insert k (keys ?s)"
        "below d (plug (below c) k t2 ?s)"
      using Nd False cd by (auto simp: crit_child split: if_splits)
    let ?b = "fst (best k (Nd a d l r))"
    have "\<forall>i > d. bit k i = bit ?b i" using Nd.prems(2) cd unfolding crit_def by (meson less_trans)
    then have "agree d (insert k (keys l \<union> keys r))"
      using Nd.prems(1) best_key [of k "Nd a d l r"] agree_insert [of d "keys l \<union> keys r" ?b k]
      unfolding wf_ct.simps keys_simps by blast
    then have "agree d (keys l \<union> insert k (keys r))" "agree d (insert k (keys l) \<union> keys r)"
      by (simp_all only: Un_insert_left Un_insert_right)
    then show ?thesis
      using IH False Nd.prems(1) by (cases "bit k d") simp_all
  qed
qed

lemma new_node_wf:
  assumes "wf_ct t" "crit k c t" "c < 64" "k \<noteq> 0"
  defines "s \<equiv> sub (below c) k t"
  shows "wf_ct (if bit k c then Nd a c s (Lf k v) else Nd a c (Lf k v) s)"
proof -
  have "wf_ct s" unfolding s_def by (rule wf_sub [OF assms(1)])
  moreover have "below c s" unfolding s_def using assms(1) by (induction t) auto
  moreover have same: "bit x i = bit (fst (best k t)) i" if "x \<in> keys s" "c \<le> i" for x i
    using sub_agree [OF assms(1)] that unfolding s_def by blast
  then have "bit x c \<noteq> bit k c" if "x \<in> keys s" for x using that assms(2) by (auto simp: crit_def)
  moreover have "agree c (insert k (keys s))"
    using same assms(2) unfolding agree_def crit_def by (auto simp: less_imp_le)
  ultimately show ?thesis using assms(3,4) by (cases "bit k c") (auto simp: Un_commute)
qed

end
