(* ===== verification/XF_CTreeHeap.thy ===== *)
theory XF_CTreeHeap
  imports XF_CTreeSpec
begin

text \<open>
  Crit-bit trees in the pool: which tree the objects below an entry form, where the loops of the
  operations stop, and what a change of one entry does to the tree.
\<close>

section \<open>Objects and trees\<close>

definition is_value :: "(nat \<Rightarrow> 'x object option) \<Rightarrow> nat \<Rightarrow> bool" where
  "is_value h v = (case h v of Some (Item _ _) \<Rightarrow> True | Some (OtherObject _) \<Rightarrow> True | _ \<Rightarrow> False)"

primrec tree_at :: "(nat \<Rightarrow> 'x object option) \<Rightarrow> ct \<Rightarrow> tree_map_entry \<Rightarrow> bool" where
  "tree_at h (Lf k v) e = (ekey e = k \<and> eslot e = Some v \<and> is_value h v)"
| "tree_at h (Nd a d l r) e =
     (ekey e = 0 \<and> eslot e = Some a \<and>
      (\<exists>n. h a = Some (TreeMapNode n) \<and> diff n = int d \<and>
        tree_at h l (fst (entries n)) \<and> tree_at h r (snd (entries n))))"

lemma tree_at_frame:
  "tree_at h t e \<Longrightarrow> \<forall>a \<in> set (nodes t). h' a = h a \<Longrightarrow> \<forall>v. is_value h v \<longrightarrow> is_value h' v \<Longrightarrow> tree_at h' t e"
  by (induction t arbitrary: e) auto

lemma tree_at_nodes: "tree_at h t e \<Longrightarrow> a \<in> set (nodes t) \<Longrightarrow> \<exists>n. h a = Some (TreeMapNode n)"
  by (induction t arbitrary: e) auto

lemma tree_at_values: "tree_at h t e \<Longrightarrow> (k, v) \<in> set (leaves t) \<Longrightarrow> is_value h v"
  by (induction t arbitrary: e) auto

lemma is_value_not_node: "is_value h v \<Longrightarrow> h v \<noteq> Some (TreeMapNode n)" "is_value h v \<Longrightarrow> h v \<noteq> None"
    "is_value h v \<Longrightarrow> h v \<noteq> Some (CtreeMap e)"
  by (auto simp: is_value_def split: option.splits)

section \<open>Entries\<close>

lemma entry_sel_upd [simp]: "entry_sel d (entry_upd d' e es) = (if d = d' then e else entry_sel d es)"
  by (simp add: entry_sel_def entry_upd_def)

lemma entry_of_put [simp]: "entry_of h p \<noteq> None \<Longrightarrow> entry_of (entry_put p e h) p = Some e"
  by (cases p) (auto split: option.splits object.splits)

lemma entry_put_other: "a \<noteq> holder p \<Longrightarrow> entry_put p e h a = h a"
  by (cases p) (auto split: option.splits object.splits)

lemma entry_of_cong: "h (holder p) = h' (holder p) \<Longrightarrow> entry_of h p = entry_of h' p"
  by (cases p) auto

lemma entry_of_holder: "entry_of h p = Some e \<Longrightarrow> (\<exists>n. h (holder p) = Some (TreeMapNode n)) \<or> (\<exists>e. h (holder p) = Some (CtreeMap e))"
  by (cases p) (auto split: option.splits object.splits)

lemma is_value_put: "is_value h v \<Longrightarrow> is_value (entry_put p e h) v"
  by (cases p) (auto simp: is_value_def split: option.splits object.splits)

lemma entry_put_node:
  assumes "h a = Some (TreeMapNode n)" "p = NodeEntry a d \<or> holder p \<noteq> a"
  shows "\<exists>n'. entry_put p e h a = Some (TreeMapNode n') \<and> diff n' = diff n \<and>
    entry_sel (\<not> d) (entries n') = entry_sel (\<not> d) (entries n)"
proof (cases "holder p = a")
  case True
  then show ?thesis using assms by auto
next
  case False
  then show ?thesis using assms(1) entry_put_other [of a p e h] by auto
qed

section \<open>Positions\<close>

lemma pos_holder: "pos st k t q = q \<or> holder (pos st k t q) \<in> set (nodes t)"
proof (induction t arbitrary: q)
  case (Nd a d l r)
  show ?case using Nd.IH(1) [of "NodeEntry a False"] Nd.IH(2) [of "NodeEntry a True"] by auto
qed simp

lemma sub_nodes: "set (nodes (sub st k t)) \<subseteq> set (nodes t)"
  by (induction t) auto

lemma sub_distinct: "distinct (nodes t) \<Longrightarrow> distinct (nodes (sub st k t))"
  by (induction t) auto

lemma pos_entry:
  "tree_at h t e \<Longrightarrow> entry_of h q = Some e \<Longrightarrow>
   \<exists>e'. entry_of h (pos st k t q) = Some e' \<and> tree_at h (sub st k t) e'"
proof (induction t arbitrary: e q)
  case (Nd a d l r)
  then obtain n where n: "h a = Some (TreeMapNode n)" "tree_at h l (fst (entries n))" "tree_at h r (snd (entries n))"
    by auto
  show ?case
  proof (cases "st (Nd a d l r)")
    case False
    have "tree_at h (if bit k d then r else l) (entry_sel (bit k d) (entries n))"
      using n by (simp add: entry_sel_def)
    moreover have "entry_of h (NodeEntry a (bit k d)) = Some (entry_sel (bit k d) (entries n))"
      using n by simp
    ultimately show ?thesis using Nd.IH False by (cases "bit k d") auto
  qed (use Nd.prems in auto)
qed auto

text \<open>
  A tree with the entry at a position changed: the objects above the position are those of the changed
  pool, and below the position there is a new tree.
\<close>

lemma plug_at:
  assumes "tree_at h t e" "entry_of h q = Some e" "distinct (nodes t)" "holder q \<notin> set (nodes t)"
    and same: "\<forall>a \<in> insert (holder q) (set (nodes t) - set (nodes (sub st k t))). h' a = entry_put (pos st k t q) e2 h a"
    and vals: "\<forall>v. is_value h v \<longrightarrow> is_value h' v"
    and new: "tree_at h' t2 e2"
  shows "\<exists>e'. entry_of h' q = Some e' \<and> tree_at h' (plug st k t2 t) e'"
  using assms(1-5)
proof (induction t arbitrary: e q)
  case (Lf k' v)
  then have "entry_of h' q = Some e2" using entry_of_cong [of h' q "entry_put q e2 h"] by simp
  then show ?case using new by simp
next
  case (Nd a d l r)
  show ?case
  proof (cases "st (Nd a d l r)")
    case True
    with Nd.prems have "entry_of h' q = Some e2" using entry_of_cong [of h' q "entry_put q e2 h"] by simp
    then show ?thesis using new True by simp
  next
    case False
    define b c ot p where "b = bit k d" "c = (if b then r else l)" "ot = (if b then l else r)" "p = pos st k (Nd a d l r) q"
    note defs = this
    let ?q = "NodeEntry a b"
    from Nd.prems(1) obtain n where n: "h a = Some (TreeMapNode n)" "diff n = int d"
        "tree_at h c (entry_sel b (entries n))" "tree_at h ot (entry_sel (\<not> b) (entries n))" "ekey e = 0" "eslot e = Some a"
      by (auto simp: entry_sel_def defs(2,3))
    have p: "p = pos st k c ?q" using False by (simp add: defs)
    have dist: "distinct (nodes c)" "a \<notin> set (nodes c)" "set (nodes c) \<inter> set (nodes ot) = {}" "a \<notin> set (nodes ot)"
        "holder q \<noteq> a" "holder q \<notin> set (nodes c)"
      using Nd.prems(3,4) by (auto simp: defs(2,3))
    have "sub st k (Nd a d l r) = sub st k c" "set (nodes (Nd a d l r)) = insert a (set (nodes c) \<union> set (nodes ot))"
      using False by (auto simp: defs)
    with Nd.prems(5) have "\<forall>x \<in> insert (holder q) (insert a (set (nodes c) \<union> set (nodes ot)) - set (nodes (sub st k c))).
        h' x = entry_put p e2 h x"
      by (simp only: defs(4))
    moreover have "{holder q, a} \<union> (set (nodes c) - set (nodes (sub st k c))) \<union> set (nodes ot)
        \<subseteq> insert (holder q) (insert a (set (nodes c) \<union> set (nodes ot)) - set (nodes (sub st k c)))"
      using dist sub_nodes [of st k c] by auto
    ultimately have same: "\<forall>x \<in> {holder q, a} \<union> (set (nodes c) - set (nodes (sub st k c))) \<union> set (nodes ot).
        h' x = entry_put p e2 h x"
      by blast
    have hp: "p = ?q \<or> holder p \<in> set (nodes c)" using pos_holder [of st k c ?q] p by simp
    have "\<exists>ec. entry_of h' ?q = Some ec \<and> tree_at h' (plug st k t2 c) ec"
    proof (cases b)
      case True
      show ?thesis using Nd.IH(2) [of "entry_sel b (entries n)" ?q] n dist same p True by (simp add: defs(2))
    next
      case False
      show ?thesis using Nd.IH(1) [of "entry_sel b (entries n)" ?q] n dist same p False by (simp add: defs(2))
    qed
    then obtain ec where ec: "entry_of h' ?q = Some ec" "tree_at h' (plug st k t2 c) ec" by auto
    obtain n' where n': "h' a = Some (TreeMapNode n')" "diff n' = diff n"
        "entry_sel (\<not> b) (entries n') = entry_sel (\<not> b) (entries n)"
      using entry_put_node [of h a n p b e2] n(1) hp dist(2) same by auto
    have "tree_at h' ot (entry_sel (\<not> b) (entries n))"
    proof (rule tree_at_frame [OF n(4) _ vals], rule ballI)
      fix x assume x: "x \<in> set (nodes ot)"
      then have "x \<noteq> holder p" using hp dist(3,4) by auto
      then show "h' x = h x" using same x entry_put_other [of x p e2 h] by simp
    qed
    then have "tree_at h' (plug st k t2 (Nd a d l r)) e"
      using n n' ec False by (auto simp: entry_sel_def defs(1-3) split: if_splits)
    moreover have "holder q \<noteq> holder p" using hp dist(5,6) by auto
    then have "entry_of h' q = Some e"
      using Nd.prems(2) same entry_of_cong [of h' q h] entry_put_other [of "holder q" p e2 h] by simp
    ultimately show ?thesis by blast
  qed
qed

lemma pos_not_below:
  "distinct (nodes t) \<Longrightarrow> holder q \<notin> set (nodes t) \<Longrightarrow> holder (pos st k t q) \<notin> set (nodes (sub st k t))"
proof (induction t arbitrary: q)
  case (Nd a d l r)
  then show ?case using sub_nodes [of st k l] sub_nodes [of st k r] by auto
qed simp

lemma plug_distinct:
  "distinct (nodes t) \<Longrightarrow> distinct (nodes t2) \<Longrightarrow>
   set (nodes t2) \<inter> (set (nodes t) - set (nodes (sub st k t))) = {} \<Longrightarrow>
   distinct (nodes (plug st k t2 t)) \<and>
   set (nodes (plug st k t2 t)) \<subseteq> (set (nodes t) - set (nodes (sub st k t))) \<union> set (nodes t2)"
proof (induction t)
  case (Nd a d l r)
  show ?case
  proof (cases "st (Nd a d l r)")
    case True
    with Nd.prems show ?thesis by simp
  next
    case False
    show ?thesis
    proof (cases "bit k d")
      case True
      then have "distinct (nodes (plug st k t2 r)) \<and>
          set (nodes (plug st k t2 r)) \<subseteq> (set (nodes r) - set (nodes (sub st k r))) \<union> set (nodes t2)"
        using Nd False by auto
      then show ?thesis using True False Nd.prems sub_nodes [of st k r] by auto
    next
      case bit: False
      then have "distinct (nodes (plug st k t2 l)) \<and>
          set (nodes (plug st k t2 l)) \<subseteq> (set (nodes l) - set (nodes (sub st k l))) \<union> set (nodes t2)"
        using Nd False by auto
      then show ?thesis using bit False Nd.prems sub_nodes [of st k l] by auto
    qed
  qed
qed auto

section \<open>The loops\<close>

lemma load_entry_rret [simp]: "entry_of (objects P) p = Some e \<Longrightarrow> load_entry P p = rret e"
  by (simp add: load_entry_def)

lemma OID_INSTANCEOF_rret [simp]:
  "objects P a = Some (TreeMapNode n) \<Longrightarrow> OID_INSTANCEOF P (Some a) = rret True"
  "is_value (objects P) a \<Longrightarrow> OID_INSTANCEOF P (Some a) = rret False"
  by (auto simp: OID_INSTANCEOF_def is_value_def split: option.splits object.splits)

lemma node_at_rret [simp]: "objects P a = Some (TreeMapNode n) \<Longrightarrow> node_at P a = rret n"
  by (simp add: node_at_def)

lemma descend_step:
  assumes "entry_of (objects P) q = Some e" "eslot e = Some a" "objects P a = Some (TreeMapNode n)" "diff n = int d" "d < 64"
  shows "descend P k q = descend P k (NodeEntry a (bit k d))"
  using assms by (subst descend.simps) (simp add: BIT_IS_SET_bit)

lemma descend_pos:
  assumes "tree_at (objects P) t e" "entry_of (objects P) q = Some e" "wf_ct t"
  shows "descend P k q = rret (pos (\<lambda>_. False) k t q)"
  using assms
proof (induction t arbitrary: e q)
  case (Lf k' v)
  then show ?case by (subst descend.simps) simp
next
  case (Nd a d l r)
  then obtain n where n: "objects P a = Some (TreeMapNode n)" "diff n = int d"
      "tree_at (objects P) l (fst (entries n))" "tree_at (objects P) r (snd (entries n))" by auto
  then show ?case using Nd by (cases "bit k d") (simp_all add: entry_sel_def descend_step [of P q e a n d k])
qed

lemma insert_position_step:
  assumes "entry_of (objects P) q = Some e" "eslot e = Some a" "objects P a = Some (TreeMapNode n)" "diff n = int d" "d < 64"
    and "objects P new = Some (TreeMapNode nn)" "diff nn = int c"
  shows "insert_position P new k q = (if d < c then rret q else insert_position P new k (NodeEntry a (bit k d)))"
  using assms by (subst insert_position.simps) (simp add: BIT_IS_SET_bit)

lemma insert_position_pos:
  assumes "tree_at (objects P) t e" "entry_of (objects P) q = Some e" "wf_ct t"
    and "objects P new = Some (TreeMapNode nn)" "diff nn = int c"
  shows "insert_position P new k q = rret (pos (below c) k t q)"
  using assms(1-3)
proof (induction t arbitrary: e q)
  case (Lf k' v)
  then show ?case by (subst insert_position.simps) simp
next
  case (Nd a d l r)
  then obtain n where n: "objects P a = Some (TreeMapNode n)" "diff n = int d"
      "tree_at (objects P) l (fst (entries n))" "tree_at (objects P) r (snd (entries n))" by auto
  then show ?case
    using Nd assms(4,5) by (cases "bit k d") (simp_all add: entry_sel_def insert_position_step [of P q e a n d new nn c k])
qed

text \<open>The last inner node of a search path.\<close>

fun is_Lf :: "ct \<Rightarrow> bool" where
  "is_Lf (Lf k v) = True"
| "is_Lf (Nd a d l r) = False"

fun last_node :: "64 word \<Rightarrow> ct \<Rightarrow> bool" where
  "last_node k (Lf k' v) = True"
| "last_node k (Nd a d l r) = is_Lf (if bit k d then r else l)"

lemma descend_parent_step:
  assumes "entry_of (objects P) q = Some e" "eslot e = Some a" "objects P a = Some (TreeMapNode n)" "diff n = int d" "d < 64"
  shows "descend_parent P k par q = descend_parent P k (Some q) (NodeEntry a (bit k d))"
  using assms by (subst descend_parent.simps) (simp add: BIT_IS_SET_bit)

lemma descend_parent_pos:
  assumes "tree_at (objects P) t e" "entry_of (objects P) q = Some e" "wf_ct t"
  shows "descend_parent P k par q =
    rret (if is_Lf t then par else Some (pos (last_node k) k t q), pos (\<lambda>_. False) k t q)"
  using assms
proof (induction t arbitrary: e q par)
  case (Lf k' v)
  then show ?case by (subst descend_parent.simps) simp
next
  case (Nd a d l r)
  then obtain n where n: "objects P a = Some (TreeMapNode n)" "diff n = int d"
      "tree_at (objects P) l (fst (entries n))" "tree_at (objects P) r (snd (entries n))" by auto
  then show ?case using Nd by (cases "bit k d") (simp_all add: entry_sel_def descend_parent_step [of P q e a n d k par])
qed

end
