(* ===== verification/XF_CTreeProps.thy ===== *)
theory XF_CTreeProps
  imports XF_CTreeHeap
begin

text \<open>
  The crit-bit tree implements a finite map from nonzero keys to objects: searching, inserting,
  removing and traversing, and what a crash in the middle of an operation leaves.
\<close>

section \<open>The map a tree stands for\<close>

definition tree_rep :: "'x pool \<Rightarrow> nat \<Rightarrow> ct \<Rightarrow> bool" where
  "tree_rep P m t \<longleftrightarrow>
     (\<exists>e. objects P m = Some (CtreeMap e) \<and> tree_at (objects P) t e) \<and> wf_ct t \<and> distinct (nodes t)"

definition empty_rep :: "'x pool \<Rightarrow> nat \<Rightarrow> bool" where
  "empty_rep P m \<longleftrightarrow> objects P m = Some (CtreeMap \<lparr>ekey = 0, eslot = None\<rparr>)"

definition ctree_rep :: "'x pool \<Rightarrow> nat \<Rightarrow> (64 word \<rightharpoonup> nat) \<Rightarrow> bool" where
  "ctree_rep P m M \<longleftrightarrow> empty_rep P m \<and> M = Map.empty \<or> (\<exists>t. tree_rep P m t \<and> M = map_of (leaves t))"

text \<open>The library places a new object where there was none.\<close>

definition fresh_alloc :: "'x pobj \<Rightarrow> bool" where
  "fresh_alloc H \<longleftrightarrow> (\<forall>P a. tx_alloc H P = Some a \<longrightarrow> objects P a = None)"

lemma tree_rep_root:
  assumes "tree_rep P m t"
  shows "\<exists>e. entry_of (objects P) (RootEntry m) = Some e \<and> tree_at (objects P) t e" "m \<notin> set (nodes t)"
  using assms tree_at_nodes [of "objects P" t _ m] by (auto simp: tree_rep_def)

lemma finite_keys [simp]: "finite (keys t)"
  by (simp add: keys_def)

lemma map_Some_eqI: "(\<And>x y. f x = Some y \<longleftrightarrow> g x = Some y) \<Longrightarrow> f = g"
  by (rule ext) (metis not_Some_eq)

section \<open>Searching\<close>

lemma get_leaf_tree:
  assumes "tree_rep P m t"
  shows "ctree_map_get_leaf P m k =
    rret (if fst (best k t) = k
          then Some (if is_Lf t then None else Some (pos (last_node k) k t (RootEntry m)), pos (\<lambda>_. False) k t (RootEntry m))
          else None)"
proof -
  from tree_rep_root [OF assms] obtain e where e: "entry_of (objects P) (RootEntry m) = Some e" "tree_at (objects P) t e"
    by auto
  from pos_entry [OF e(2,1), of "\<lambda>_. False" k] obtain e' where
    "entry_of (objects P) (pos (\<lambda>_. False) k t (RootEntry m)) = Some e'" "ekey e' = fst (best k t)"
    by (auto simp: sub_leaf)
  then show ?thesis
    using assms by (simp add: ctree_map_get_leaf_def tree_rep_def descend_parent_pos [OF e(2,1)])
qed

lemma best_map: "wf_ct t \<Longrightarrow> map_of (leaves t) k = (if fst (best k t) = k then Some (snd (best k t)) else None)"
  using map_of_leaves [of t k] best_mem [of k t] best_found [of t k] dom_leaves [of t]
  by (cases "best k t") (auto simp: domIff)

lemma get_tree:
  assumes "tree_rep P m t"
  shows "ctree_map_get P m k = rret (map_of (leaves t) k)"
proof -
  from tree_rep_root [OF assms] obtain e where e: "entry_of (objects P) (RootEntry m) = Some e" "tree_at (objects P) t e"
    by auto
  from pos_entry [OF e(2,1), of "\<lambda>_. False" k] obtain e' where
    "entry_of (objects P) (pos (\<lambda>_. False) k t (RootEntry m)) = Some e'" "eslot e' = Some (snd (best k t))"
    by (auto simp: sub_leaf)
  then show ?thesis
    using best_map [of t k] assms by (simp add: ctree_map_get_def get_leaf_tree [OF assms]) (simp add: tree_rep_def)
qed

lemma empty_get_leaf:
  "empty_rep P m \<Longrightarrow> ctree_map_get_leaf P m k = rret (if k = 0 then Some (None, RootEntry m) else None)"
  unfolding ctree_map_get_leaf_def by (subst descend_parent.simps) (auto simp: empty_rep_def load_entry_def)

section \<open>Inserting\<close>

lemma tree_repI:
  assumes "\<exists>e. entry_of (objects P) (RootEntry m) = Some e \<and> tree_at (objects P) t e" "wf_ct t" "distinct (nodes t)"
  shows "tree_rep P m t"
  using assms by (auto simp: tree_rep_def split: option.splits object.splits)

lemma store_entry_run [simp]:
  "entry_of (objects P) p = Some e \<Longrightarrow>
   store_entry p e' P = Some (Inr (P\<lparr>objects := entry_put p e' (objects P)\<rparr>, [SetEntry p e']))"
  by (simp add: store_entry_def tx_do_def)

lemma TX_ADD_run: "TX_ADD H r P = (if tx_snapshot H P r then Some (Inr (P, [TxAdd r])) else tx_abort)"
  by (simp add: TX_ADD_def tx_do_def)

lemma remit_run [simp]:
  "map_option (xemit es) (rret x) = Some (Inr (x, es))" "map_option (xemit es) tx_abort = tx_abort"
  by (simp_all add: rret_def tx_abort_def)

lemma TX_NEW_run:
  "TX_NEW H x P = (case tx_alloc H P of None \<Rightarrow> tx_abort
     | Some a \<Rightarrow> Some (Inr ((a, P\<lparr>objects := (objects P)(a \<mapsto> x)\<rparr>), [TxNew a x])))"
  by (simp add: TX_NEW_def tx_do_def split: option.splits)

lemma rbind_abort [simp]: "rbind tx_abort k = tx_abort"
  by (simp add: tx_abort_def)

lemma tx_block_abort [simp]:
  "tx_block nested r P tx_abort = (if nested then tx_abort else rret (r, P))"
  by (simp add: tx_block_def tx_abort_def)

lemma tx_block_run [simp]: "tx_block nested r P (Some (Inr (P1, es))) = Some (Inr ((0, P1), es))"
  by (simp add: tx_block_def)

text \<open>Replacing the value of a key that is there.\<close>

lemma replace_leaf:
  assumes rep: "tree_rep P m t" and best: "fst (best k t) = k" and v: "is_value (objects P) v"
  defines "p \<equiv> pos (\<lambda>_. False) k t (RootEntry m)"
  shows "\<exists>t'. tree_rep (P\<lparr>objects := entry_put p \<lparr>ekey = k, eslot = Some v\<rparr> (objects P)\<rparr>) m t' \<and>
    map_of (leaves t') = (map_of (leaves t))(k \<mapsto> v)"
proof -
  let ?e2 = "\<lparr>ekey = k, eslot = Some v\<rparr>" and ?h = "objects P" and ?N = "\<lambda>_ :: ct. False"
  let ?h' = "entry_put p ?e2 ?h" and ?t = "plug ?N k (Lf k v) t"
  from tree_rep_root [OF rep] obtain e where e: "entry_of ?h (RootEntry m) = Some e" "tree_at ?h t e" "m \<notin> set (nodes t)"
    by auto
  have wf: "wf_ct t" "distinct (nodes t)" using rep by (simp_all add: tree_rep_def)
  have vals: "\<forall>v. is_value ?h v \<longrightarrow> is_value ?h' v" by (simp add: is_value_put)
  have "\<exists>e'. entry_of ?h' (RootEntry m) = Some e' \<and> tree_at ?h' ?t e'"
    by (rule plug_at [where ?e2.0 = ?e2, OF e(2,1) wf(2) _ _ vals]) (use e(3) v vals in \<open>simp_all add: p_def\<close>)
  moreover have k0: "k \<noteq> 0" using wf_keys_nonzero [OF wf(1) best_key [of k t]] best by simp
  then have wf': "wf_ct ?t"
    using plug_shrink [of t "Lf k v" ?N k] wf(1) best sub_leaf [of k t] by simp
  moreover have "distinct (nodes ?t)" using plug_distinct [of t "Lf k v" ?N k] wf(2) by simp
  moreover have "map_of (leaves ?t) = (map_of (leaves t))(k \<mapsto> v)"
  proof (rule map_Some_eqI)
    fix x y
    have "(k, y) \<in> set (leaves t) \<Longrightarrow> y = snd (best k t)" for y
      by (simp add: map_of_leaves [OF wf(1), symmetric] best_map [OF wf(1), of k] best)
    then show "map_of (leaves ?t) x = Some y \<longleftrightarrow> ((map_of (leaves t))(k \<mapsto> v)) x = Some y"
      using map_of_leaves [OF wf'] map_of_leaves [OF wf(1)] plug_set [OF wf(1), of ?N k "Lf k v"] sub_leaf [of k t] best
      by auto
  qed
  ultimately show ?thesis by (intro exI [of _ ?t] conjI tree_repI) simp_all
qed


text \<open>A new leaf with its inner node.\<close>

lemma entry_put_put [simp]: "entry_put p e (entry_put p e' h) = entry_put p e h"
  by (cases p) (auto simp: entry_upd_def split: option.splits object.splits)

lemma entry_put_upd: "holder p \<noteq> a \<Longrightarrow> x \<noteq> a \<Longrightarrow> entry_put p e (h(a := y)) x = entry_put p e h x"
  by (cases p) (auto split: option.splits object.splits)

lemma is_value_fresh: "h a = None \<Longrightarrow> is_value h v \<Longrightarrow> is_value (h(a := y)) v"
  by (auto simp: is_value_def)

definition leaf_node :: "nat \<Rightarrow> 64 word \<Rightarrow> nat \<Rightarrow> tree_map_entry \<Rightarrow> tree_map_node \<Rightarrow> tree_map_node" where
  "leaf_node c k v old n = n\<lparr>diff := int c,
     entries := entry_upd (\<not> bit k c) old (entry_upd (bit k c) \<lparr>ekey = k, eslot = Some v\<rparr> (entries n))\<rparr>"

lemma insert_leaf_run:
  fixes k :: "64 word"
  assumes rep: "tree_rep P m t" and c: "c < 64" and a: "tx_alloc H P = Some a" "objects P a = None"
  defines "q \<equiv> pos (below c) k t (RootEntry m)"
  assumes old: "entry_of (objects P) q = Some old"
  shows "\<exists>P4 acts. ctree_map_insert_leaf H (RootEntry m) \<lparr>ekey = k, eslot = Some v\<rparr> (int c) P =
    (if tx_snapshot H P4 (EntryRange q)
     then Some (Inr (P\<lparr>objects := entry_put q \<lparr>ekey = 0, eslot = Some a\<rparr>
       ((objects P)(a \<mapsto> TreeMapNode (leaf_node c k v old (raw_node H))))\<rparr>, acts))
     else tx_abort)"
proof -
  let ?h = "objects P" and ?e = "\<lparr>ekey = k, eslot = Some v\<rparr>" and ?d = "bit k c"
  let ?n3 = "(raw_node H)\<lparr>diff := int c, entries := entry_upd ?d ?e (entries (raw_node H))\<rparr>"
  let ?P3 = "P\<lparr>objects := ?h(a \<mapsto> TreeMapNode ?n3)\<rparr>"
  let ?P4 = "P\<lparr>objects := ?h(a \<mapsto> TreeMapNode (leaf_node c k v old (raw_node H)))\<rparr>"
  from tree_rep_root [OF rep] obtain e where e: "entry_of ?h (RootEntry m) = Some e" "tree_at ?h t e" by auto
  have am: "a \<noteq> m" using e(1) a(2) by auto
  have "holder q \<noteq> a"
    using entry_of_holder [OF old] a(2) by auto
  then have oq: "entry_of (?h(a \<mapsto> y)) q = Some old" for y
    using old entry_of_cong [of "?h(a \<mapsto> y)" q ?h] by simp
  have T: "tree_at (objects ?P3) t e"
    using tree_at_nodes [OF e(2), of a] a(2) by (intro tree_at_frame [OF e(2)]) (auto simp: is_value_def)
  have R: "entry_of (objects ?P3) (RootEntry m) = Some e" using e(1) am by simp
  have W: "wf_ct t" using rep by (simp add: tree_rep_def)
  have N: "objects ?P3 a = Some (TreeMapNode ?n3)" "diff ?n3 = int c" by simp_all
  note run = ctree_map_insert_leaf_def TX_NEW_run tx_do_def BIT_IS_SET_bit TX_ADD_run insert_position_pos [OF T R W N]
  have "leaf_node c k v old (raw_node H) = ?n3\<lparr>entries := entry_upd (\<not> ?d) old (entries ?n3)\<rparr>"
    by (simp add: leaf_node_def)
  moreover have both: "old\<lparr>ekey := 0, eslot := Some a\<rparr> = \<lparr>ekey = 0, eslot = Some a\<rparr>" by simp
  ultimately show ?thesis
    using a c oq unfolding q_def
    by (intro exI [of _ ?P4], cases "tx_snapshot H ?P4 (EntryRange (pos (below c) k t (RootEntry m)))") (simp_all add: run both)
qed


lemma new_leaf:
  fixes k :: "64 word"
  assumes rep: "tree_rep P m t" and c: "crit k c t" "c < 64" "k \<noteq> 0" and v: "is_value (objects P) v"
    and a: "objects P a = None"
  defines "q \<equiv> pos (below c) k t (RootEntry m)"
  assumes old: "entry_of (objects P) q = Some old"
  shows "\<exists>t'. tree_rep (P\<lparr>objects := entry_put q \<lparr>ekey = 0, eslot = Some a\<rparr>
       ((objects P)(a \<mapsto> TreeMapNode (leaf_node c k v old n)))\<rparr>) m t' \<and>
    map_of (leaves t') = (map_of (leaves t))(k \<mapsto> v)"
proof -
  let ?h = "objects P" and ?e2 = "\<lparr>ekey = 0, eslot = Some a\<rparr>" and ?s = "sub (below c) k t"
  let ?N = "leaf_node c k v old n" and ?t2 = "if bit k c then Nd a c ?s (Lf k v) else Nd a c (Lf k v) ?s"
  let ?h' = "entry_put q ?e2 (?h(a \<mapsto> TreeMapNode ?N))" and ?t = "plug (below c) k ?t2 t"
  from tree_rep_root [OF rep] obtain e where e: "entry_of ?h (RootEntry m) = Some e" "tree_at ?h t e" "m \<notin> set (nodes t)"
    by auto
  have wf: "wf_ct t" "distinct (nodes t)" using rep by (simp_all add: tree_rep_def)
  have nodes_a: "a \<notin> set (nodes t)" using tree_at_nodes [OF e(2), of a] a by auto
  have am: "a \<noteq> m" using e(1) a by auto
  have qa: "holder q \<noteq> a" using entry_of_holder [OF old] a by auto
  have vals: "\<forall>v. is_value ?h v \<longrightarrow> is_value ?h' v"
    using a is_value_put is_value_fresh [of ?h a] by blast
  have other: "?h' x = entry_put q ?e2 ?h x" if "x \<noteq> a" for x
    using entry_put_upd [OF qa that] .
  from pos_entry [OF e(2,1), of "below c" k] old have "tree_at ?h ?s old" by (simp add: q_def)
  then have s: "tree_at ?h' ?s old"
  proof (rule tree_at_frame [OF _ _ vals], intro ballI)
    fix x assume x: "x \<in> set (nodes ?s)"
    then have "x \<noteq> a" "x \<noteq> holder q"
      using sub_nodes [of "below c" k t] nodes_a pos_not_below [OF wf(2), of "RootEntry m" "below c" k] e(3)
      by (auto simp: q_def)
    then show "?h' x = ?h x" using other entry_put_other [of x q ?e2 ?h] by simp
  qed
  have "?h' a = Some (TreeMapNode ?N)" using entry_put_other [of a q ?e2 "?h(a \<mapsto> TreeMapNode ?N)"] qa by simp
  then have t2: "tree_at ?h' ?t2 ?e2"
    using s v vals by (cases "bit k c") (auto simp: leaf_node_def entry_upd_def)
  have same: "\<forall>x \<in> insert (holder (RootEntry m)) (set (nodes t) - set (nodes ?s)).
      ?h' x = entry_put (pos (below c) k t (RootEntry m)) ?e2 ?h x"
  proof
    fix x assume "x \<in> insert (holder (RootEntry m)) (set (nodes t) - set (nodes ?s))"
    then have "x \<noteq> a" using am nodes_a by auto
    then show "?h' x = entry_put (pos (below c) k t (RootEntry m)) ?e2 ?h x" using other by (simp add: q_def)
  qed
  have "\<exists>e'. entry_of ?h' (RootEntry m) = Some e' \<and> tree_at ?h' ?t e'"
    by (rule plug_at [OF e(2,1) wf(2) _ same vals t2]) (use e(3) in simp)
  moreover have wf': "wf_ct ?t"
    using plug_new [OF wf(1) c(1) new_node_wf [OF wf(1) c], of a v] by (cases "bit k c") auto
  moreover have "distinct (nodes ?t)"
    using plug_distinct [OF wf(2), of ?t2 "below c" k] sub_distinct [OF wf(2)] sub_nodes [of "below c" k t] nodes_a
    by (cases "bit k c") auto
  moreover have "map_of (leaves ?t) = (map_of (leaves t))(k \<mapsto> v)"
  proof (rule map_Some_eqI)
    fix x y
    have "fst (best k t) \<noteq> k" using c(1) by (auto simp: crit_def)
    then have "(k, y) \<notin> set (leaves t)" for y
      by (simp add: map_of_leaves [OF wf(1), symmetric] best_map [OF wf(1)])
    moreover have "set (leaves ?t) = insert (k, v) (set (leaves t))"
      using plug_set [OF wf(1), of "below c" k ?t2] sub_leaves [of "below c" k t] by (cases "bit k c") auto
    ultimately show "map_of (leaves ?t) x = Some y \<longleftrightarrow> ((map_of (leaves t))(k \<mapsto> v)) x = Some y"
      using map_of_leaves [OF wf'] map_of_leaves [OF wf(1)] by auto
  qed
  ultimately show ?thesis by (intro exI [of _ ?t] conjI tree_repI) simp_all
qed


text \<open>There is room for a new object in the pool, and for snapshots.\<close>

definition has_room :: "'x pobj \<Rightarrow> 'x pool \<Rightarrow> bool" where
  "has_room H P \<longleftrightarrow> tx_alloc H P \<noteq> None \<and> (\<forall>Q r. tx_snapshot H Q r)"

lemma insert_empty:
  assumes "empty_rep P m" "k \<noteq> 0" "is_value (objects P) v"
  shows "(\<exists>P' acts. ctree_map_insert H nested P m k (Some v) = Some (Inr ((0, P'), acts)) \<and>
      tree_rep P' m (Lf k v) \<and> root_map P' = root_map P) \<or>
    \<not> has_room H P \<and> ctree_map_insert H nested P m k (Some v) = (if nested then tx_abort else rret (1, P))"
proof -
  have root: "entry_of (objects P) (RootEntry m) = Some \<lparr>ekey = 0, eslot = None\<rparr>" using assms(1) by (simp add: empty_rep_def)
  have d: "descend P k (RootEntry m) = rret (RootEntry m)" using root by (subst descend.simps) simp
  have "tree_rep (P\<lparr>objects := entry_put (RootEntry m) \<lparr>ekey = k, eslot = Some v\<rparr> (objects P)\<rparr>) m (Lf k v)"
    using assms is_value_put [of "objects P" v "RootEntry m"] by (auto simp: tree_rep_def empty_rep_def)
  then show ?thesis
    using root unfolding ctree_map_insert_def d
    by (cases "tx_snapshot H P (EntryRange (RootEntry m))") (auto simp: TX_ADD_run has_room_def)
qed

lemma insert_tree:
  assumes rep: "tree_rep P m t" and k: "k \<noteq> 0" and v: "is_value (objects P) v" and fresh: "fresh_alloc H"
  shows "(\<exists>P' acts t'. ctree_map_insert H nested P m k (Some v) = Some (Inr ((0, P'), acts)) \<and>
      tree_rep P' m t' \<and> map_of (leaves t') = (map_of (leaves t))(k \<mapsto> v) \<and> root_map P' = root_map P) \<or>
    \<not> has_room H P \<and> ctree_map_insert H nested P m k (Some v) = (if nested then tx_abort else rret (1, P))"
proof -
  let ?b = "fst (best k t)" and ?p = "pos (\<lambda>_. False) k t (RootEntry m)"
  from tree_rep_root [OF rep] obtain e where e: "entry_of (objects P) (RootEntry m) = Some e" "tree_at (objects P) t e"
    by auto
  have wf: "wf_ct t" using rep by (simp add: tree_rep_def)
  have d: "descend P k (RootEntry m) = rret ?p" by (rule descend_pos [OF e(2,1) wf])
  from pos_entry [OF e(2,1), of "\<lambda>_. False" k] obtain ep where
    ep: "entry_of (objects P) ?p = Some ep" "ekey ep = ?b" by (auto simp: sub_leaf)
  have b0: "?b \<noteq> 0" by (rule wf_keys_nonzero [OF wf best_key])
  show ?thesis
  proof (cases "?b = k")
    case True
    then show ?thesis
      using replace_leaf [OF rep True v] ep unfolding ctree_map_insert_def d
      by (cases "tx_snapshot H P (EntryRange ?p)") (auto simp: TX_ADD_run has_room_def)
  next
    case False
    let ?c = "crit_bit ?b k"
    note spec = find_crit_bit_spec [OF False]
    let ?leaf = "ctree_map_insert_leaf H (RootEntry m) \<lparr>ekey = k, eslot = Some v\<rparr> (int ?c) P"
    have run: "ctree_map_insert H nested P m k (Some v) = tx_block nested 1 P ?leaf"
      using ep b0 False unfolding ctree_map_insert_def d by (simp add: spec(1))
    have crit: "crit k ?c t" using spec(3,4) by (auto simp: crit_def)
    from pos_entry [OF e(2,1), of "below ?c" k] obtain old where
      old: "entry_of (objects P) (pos (below ?c) k t (RootEntry m)) = Some old" by auto
    show ?thesis
    proof (cases "tx_alloc H P")
      case None
      then show ?thesis unfolding run by (auto simp: ctree_map_insert_leaf_def TX_NEW_run has_room_def)
    next
      case (Some a)
      with fresh have a: "objects P a = None" by (auto simp: fresh_alloc_def)
      from insert_leaf_run [OF rep spec(2) Some a old, of v] obtain P4 acts where
        leaf: "?leaf = (if tx_snapshot H P4 (EntryRange (pos (below ?c) k t (RootEntry m)))
          then Some (Inr (P\<lparr>objects := entry_put (pos (below ?c) k t (RootEntry m)) \<lparr>ekey = 0, eslot = Some a\<rparr>
            ((objects P)(a \<mapsto> TreeMapNode (leaf_node ?c k v old (raw_node H))))\<rparr>, acts)) else tx_abort)" by blast
      from new_leaf [OF rep crit spec(2) k v a old, of "raw_node H"] show ?thesis
        unfolding run leaf by (auto simp: has_room_def)
    qed
  qed
qed

lemma ctree_insert_law:
  assumes "ctree_rep P m M" "k \<noteq> 0" "is_value (objects P) v" "fresh_alloc H"
  shows "(\<exists>P' acts. ctree_map_insert H nested P m k (Some v) = Some (Inr ((0, P'), acts)) \<and> ctree_rep P' m (M(k \<mapsto> v)) \<and>
      root_map P' = root_map P) \<or>
    \<not> has_room H P \<and> ctree_map_insert H nested P m k (Some v) = (if nested then tx_abort else rret (1, P))"
proof -
  from assms(1) consider "empty_rep P m" "M = Map.empty" | t where "tree_rep P m t" "M = map_of (leaves t)"
    by (auto simp: ctree_rep_def)
  then show ?thesis
  proof cases
    case 1
    have "ctree_rep P' m (M(k \<mapsto> v))" if "tree_rep P' m (Lf k v)" for P' :: "'a pool"
      unfolding ctree_rep_def using that 1(2) by (intro disjI2 exI [of _ "Lf k v"]) simp
    with insert_empty [OF 1(1) assms(2,3), of H nested] show ?thesis by blast
  next
    case (2 t)
    have "ctree_rep P' m (M(k \<mapsto> v))" if "tree_rep P' m t'" "map_of (leaves t') = (map_of (leaves t))(k \<mapsto> v)" for P' t'
      unfolding ctree_rep_def using that 2(2) by (intro disjI2 exI [of _ t']) simp
    with insert_tree [OF 2(1) assms(2-4), of nested] show ?thesis by blast
  qed
qed


section \<open>Removing\<close>

lemma last_sub:
  "wf_ct t \<Longrightarrow> \<not> is_Lf t \<Longrightarrow> \<exists>a d l r. sub (last_node k) k t = Nd a d l r \<and>
     (if bit k d then r else l) = Lf (fst (best k t)) (snd (best k t))"
proof (induction t)
  case (Nd a d l r)
  show ?case
  proof (cases "is_Lf (if bit k d then r else l)")
    case True
    then show ?thesis by (cases "if bit k d then r else l") (auto split: if_splits)
  next
    case False
    then show ?thesis using Nd by (cases "bit k d") auto
  qed
qed simp

lemma removed_leaf:
  fixes k :: "64 word"
  assumes rep: "tree_rep P m t" and best: "fst (best k t) = k" "\<not> is_Lf t"
  defines "q \<equiv> pos (last_node k) k t (RootEntry m)"
  assumes pe: "entry_of (objects P) q = Some pe" "objects P (the (eslot pe)) = Some (TreeMapNode n)"
  defines "se \<equiv> entry_sel (ekey (fst (entries n)) = k) (entries n)"
  shows "\<exists>t'. tree_rep (P\<lparr>objects := (entry_put q se (objects P))(the (eslot pe) := None)\<rparr>) m t' \<and>
    map_of (leaves t') = (map_of (leaves t))(k := None)"
proof -
  let ?h = "objects P" and ?st = "last_node k" and ?v = "snd (best k t)"
  from tree_rep_root [OF rep] obtain e where e: "entry_of ?h (RootEntry m) = Some e" "tree_at ?h t e" "m \<notin> set (nodes t)"
    by auto
  have wf: "wf_ct t" "distinct (nodes t)" using rep by (simp_all add: tree_rep_def)
  from last_sub [OF wf(1) best(2), of k] best(1) obtain a d l r where
    s: "sub ?st k t = Nd a d l r" "(if bit k d then r else l) = Lf k ?v" by auto
  let ?sib = "if bit k d then l else r"
  have wfs: "wf_ct (Nd a d l r)" "distinct (a # nodes l @ nodes r)"
    using wf_sub [OF wf(1), of ?st k] sub_distinct [OF wf(2), of ?st k] s(1) by simp_all
  from pos_entry [OF e(2,1), of ?st k] pe s(1) have
    nd: "eslot pe = Some a" "?h a = Some (TreeMapNode n)" "tree_at ?h l (fst (entries n))" "tree_at ?h r (snd (entries n))"
    by (auto simp: q_def)
  let ?h' = "(entry_put q se ?h)(a := None)" and ?t = "plug ?st k ?sib t"
  have k: "k \<noteq> 0" "k \<notin> keys ?sib"
    using wf_keys_nonzero [OF wf(1) best_key [of k t]] best(1) wfs(1) s(2) by (auto split: if_splits)
  have "ekey (fst (entries n)) = k \<longleftrightarrow> \<not> bit k d"
    using nd(3,4) s(2) k by (cases l) (auto split: if_splits)
  then have sib: "tree_at ?h ?sib se" using nd(3,4) by (simp add: se_def entry_sel_def)
  have vals: "\<forall>v. is_value ?h v \<longrightarrow> is_value ?h' v"
    using nd(2) is_value_put [of ?h _ q se] is_value_not_node(1) [of ?h a n] by (auto simp: is_value_def)
  have qa: "holder q \<notin> set (nodes (Nd a d l r))"
    using pos_not_below [OF wf(2), of "RootEntry m" ?st k] e(3) s(1) by (simp add: q_def)
  have t2: "tree_at ?h' ?sib se"
  proof (rule tree_at_frame [OF sib _ vals], intro ballI)
    fix x assume "x \<in> set (nodes ?sib)"
    then have "x \<noteq> a" "x \<noteq> holder q" using wfs(2) qa by (auto split: if_splits)
    then show "?h' x = ?h x" by (simp add: entry_put_other)
  qed
  have sub_a: "a \<in> set (nodes t)" using sub_nodes [of ?st k t] s(1) by auto
  have same: "\<forall>x \<in> insert (holder (RootEntry m)) (set (nodes t) - set (nodes (sub ?st k t))).
      ?h' x = entry_put (pos ?st k t (RootEntry m)) se ?h x"
    using sub_a e(3) s(1) by (auto simp: q_def)
  have "\<exists>e'. entry_of ?h' (RootEntry m) = Some e' \<and> tree_at ?h' ?t e'"
    by (rule plug_at [OF e(2,1) wf(2) _ same vals t2]) (use e(3) in simp)
  moreover have "\<forall>d'. below d' (sub ?st k t) \<longrightarrow> below d' ?sib"
    using wfs(1) s(1) by (auto intro: below_mono [OF _ less_imp_le])
  then have wf': "wf_ct ?t"
    using plug_shrink [OF wf(1), of ?sib ?st k] wfs(1) s(1) by auto
  moreover have "set (nodes ?sib) \<inter> (set (nodes t) - set (nodes (sub ?st k t))) = {}" using s(1) by auto
  then have "distinct (nodes ?t)"
    using plug_distinct [OF wf(2), of ?sib ?st k] wfs(2) by auto
  moreover have "map_of (leaves ?t) = (map_of (leaves t))(k := None)"
  proof (rule map_Some_eqI)
    fix x y
    define A B S where "A = set (leaves t)" "B = set (leaves ?sib)" "S = set (leaves (sub ?st k t))"
    note defs = this
    have "(k, y) \<notin> B" for y using k(2) by (force simp: keys_def defs)
    moreover have "(k, y) \<in> A \<Longrightarrow> y = ?v" for y
      by (simp add: defs map_of_leaves [OF wf(1), symmetric] best_map [OF wf(1), of k] best)
    moreover have "S = insert (k, ?v) B" using s by (auto simp: defs split: if_splits)
    moreover have "S \<subseteq> A" unfolding defs by (rule sub_leaves)
    ultimately have "(x, y) \<in> B \<union> (A - S) \<longleftrightarrow> (x, y) \<in> A \<and> x \<noteq> k" by blast
    then have "(x, y) \<in> set (leaves ?t) \<longleftrightarrow> (x, y) \<in> set (leaves t) \<and> x \<noteq> k"
      unfolding plug_set [OF wf(1)] defs .
    then show "map_of (leaves ?t) x = Some y \<longleftrightarrow> ((map_of (leaves t))(k := None)) x = Some y"
      using map_of_leaves [OF wf'] map_of_leaves [OF wf(1)] by auto
  qed
  ultimately show ?thesis using nd(1) by (intro exI [of _ ?t] conjI tree_repI) simp_all
qed

lemma remove_tree:
  assumes rep: "tree_rep P m t"
  shows "(\<exists>P' acts. ctree_map_remove H nested P m k = Some (Inr ((map_of (leaves t) k, P'), acts)) \<and>
      ctree_rep P' m ((map_of (leaves t))(k := None))) \<or>
    \<not> has_room H P \<and> ctree_map_remove H nested P m k = (if nested then tx_abort else rret (map_of (leaves t) k, P))"
proof -
  from tree_rep_root [OF rep] obtain e where e: "entry_of (objects P) (RootEntry m) = Some e" "tree_at (objects P) t e"
    by auto
  have wf: "wf_ct t" using rep by (simp add: tree_rep_def)
  note run = ctree_map_remove_def get_leaf_tree [OF rep] best_map [OF wf, of k]
  show ?thesis
  proof (cases "fst (best k t) = k")
    case False
    then have "map_of (leaves t) k = None" by (simp add: best_map [OF wf])
    then have "(map_of (leaves t))(k := None) = map_of (leaves t)" by (simp add: fun_upd_idem)
    moreover have "ctree_rep P m (map_of (leaves t))" using rep by (auto simp: ctree_rep_def)
    ultimately show ?thesis using False by (simp add: run)
  next
    case True
    show ?thesis
    proof (cases "is_Lf t")
      case lf: True
      then obtain v where t: "t = Lf k v" using True by (cases t) auto
      have "ctree_rep (P\<lparr>objects := entry_put (RootEntry m) \<lparr>ekey = 0, eslot = None\<rparr> (objects P)\<rparr>) m Map.empty"
        using rep by (auto simp: ctree_rep_def empty_rep_def tree_rep_def)
      moreover have "objects P m = Some (CtreeMap e)" using e(1) by (auto split: option.splits object.splits)
      ultimately show ?thesis using e(2) t
        by (cases "tx_snapshot H P (EntryRange (RootEntry m))") (auto simp: run TX_ADD_run has_room_def)
    next
      case nd: False
      let ?q = "pos (last_node k) k t (RootEntry m)" and ?p = "pos (\<lambda>_. False) k t (RootEntry m)"
      from last_sub [OF wf nd, of k] obtain a d l r where s: "sub (last_node k) k t = Nd a d l r" by auto
      from pos_entry [OF e(2,1), of "last_node k" k] s obtain pe n where
        pe: "entry_of (objects P) ?q = Some pe" "eslot pe = Some a" "objects P a = Some (TreeMapNode n)" by auto
      from pos_entry [OF e(2,1), of "\<lambda>_. False" k] True obtain le where
        le: "entry_of (objects P) ?p = Some le" "ekey le = k" "eslot le = Some (snd (best k t))"
        by (auto simp: sub_leaf)
      from removed_leaf [OF rep True nd pe(1)] pe(2,3) obtain t' where
        "tree_rep (P\<lparr>objects := (entry_put ?q (entry_sel (ekey (fst (entries n)) = k) (entries n)) (objects P))(a := None)\<rparr>) m t'"
        "map_of (leaves t') = (map_of (leaves t))(k := None)" by auto
      then have "ctree_rep (P\<lparr>objects := (entry_put ?q (entry_sel (ekey (fst (entries n)) = k) (entries n)) (objects P))(a := None)\<rparr>) m
          ((map_of (leaves t))(k := None))"
        unfolding ctree_rep_def by metis
      then show ?thesis using True nd pe le
        by (cases "tx_snapshot H P (EntryRange ?q)") (auto simp: run TX_ADD_run has_room_def TX_FREE_def tx_do_def)
    qed
  qed
qed


lemma ctree_remove_law:
  assumes "ctree_rep P m M" "k \<noteq> 0"
  shows "(\<exists>P' acts. ctree_map_remove H nested P m k = Some (Inr ((M k, P'), acts)) \<and> ctree_rep P' m (M(k := None))) \<or>
    \<not> has_room H P \<and> ctree_map_remove H nested P m k = (if nested then tx_abort else rret (M k, P))"
proof -
  from assms(1) consider "empty_rep P m" "M = Map.empty" | t where "tree_rep P m t" "M = map_of (leaves t)"
    by (auto simp: ctree_rep_def)
  then show ?thesis
  proof cases
    case 1
    then show ?thesis using assms by (simp add: ctree_map_remove_def empty_get_leaf fun_upd_idem)
  next
    case (2 t)
    show ?thesis unfolding 2(2) by (rule remove_tree [OF 2(1)])
  qed
qed

lemma ctree_get_law:
  assumes "ctree_rep P m M" "k \<noteq> 0"
  shows "ctree_map_get P m k = rret (M k) \<and> ctree_map_lookup P m k = rret (if M k \<noteq> None then 1 else 0)"
proof -
  from assms(1) consider "empty_rep P m" "M = Map.empty" | t where "tree_rep P m t" "M = map_of (leaves t)"
    by (auto simp: ctree_rep_def)
  then show ?thesis
  proof cases
    case 1
    then show ?thesis using assms by (simp add: ctree_map_get_def ctree_map_lookup_def empty_get_leaf)
  next
    case (2 t)
    then have "wf_ct t" by (simp add: tree_rep_def)
    with 2 show ?thesis
      by (simp add: get_tree [OF 2(1)] ctree_map_lookup_def get_leaf_tree [OF 2(1)] best_map)
  qed
qed

section \<open>Traversing\<close>

definition visit :: "(64 word \<Rightarrow> PMEMoid \<Rightarrow> 's \<Rightarrow> ('e, int \<times> 's) outcome) \<Rightarrow> 64 word \<times> nat \<Rightarrow> 's \<Rightarrow> ('e, 's) outcome" where
  "visit cb kv s = xbind (cb (fst kv) (Some (snd kv)) s) (\<lambda>rs. xret (snd rs))"

text \<open>A callback that never asks to stop.\<close>

definition goes_on :: "(64 word \<Rightarrow> PMEMoid \<Rightarrow> 's \<Rightarrow> ('e, int \<times> 's) outcome) \<Rightarrow> bool" where
  "goes_on cb \<longleftrightarrow> (\<forall>k v s r s' es. cb k v s = Inr ((r, s'), es) \<longrightarrow> r = 0)"

lemma goes_onD: "goes_on cb \<Longrightarrow> cb k v s = Inr ((r, s'), es) \<Longrightarrow> r = 0"
  unfolding goes_on_def by blast

lemma foreach_node_tree:
  assumes "tree_at (objects P) t e" "goes_on cb"
  shows "ctree_map_foreach_node P cb e s = Some (xbind (xfor (visit cb) (leaves t) s) (\<lambda>s'. xret (0, s')))"
  using assms(1)
proof (induction t arbitrary: e s)
  case (Lf k v)
  then have "ctree_map_foreach_node P cb e s = Some (cb k (Some v) s)"
    by (subst ctree_map_foreach_node.simps) simp
  also have "cb k (Some v) s = xbind (cb k (Some v) s) (\<lambda>rs. xret (0, snd rs))"
    using assms(2) by (cases "cb k (Some v) s") (auto simp: xret_def dest: goes_onD)
  finally show ?case by (simp add: visit_def xbind_assoc)
next
  case (Nd a d l r)
  then obtain n where n: "objects P a = Some (TreeMapNode n)" "eslot e = Some a"
      "tree_at (objects P) l (fst (entries n))" "tree_at (objects P) r (snd (entries n))" by auto
  have "ctree_map_foreach_node P cb e s =
    rbind (Some (xbind (xfor (visit cb) (leaves l) s) (\<lambda>s'. xret (0 :: int, s')))) (\<lambda>rs. if fst rs = 0
      then rbind (Some (xbind (xfor (visit cb) (leaves r) (snd rs)) (\<lambda>s'. xret (0 :: int, s')))) (\<lambda>rs2. rret (0, snd rs2))
      else rret (0, snd rs))"
    using n by (subst ctree_map_foreach_node.simps) (simp add: Nd.IH cong: if_cong)
  then show ?case
    by (cases "xfor (visit cb) (leaves l) s") (auto simp: xfor_append rbind_def rret_def xbind_assoc xbind_eq_Inr xret_def split: sum.splits)
qed


lemma ctree_foreach_law:
  assumes "ctree_rep P m M" "goes_on cb"
  shows "\<exists>kvs. map_of kvs = M \<and> sorted_wrt (<) (map fst kvs) \<and>
    ctree_map_foreach P m cb s = Some (xbind (xfor (visit cb) kvs s) (\<lambda>s'. xret (0, s')))"
proof -
  from assms(1) consider "empty_rep P m" "M = Map.empty" | t where "tree_rep P m t" "M = map_of (leaves t)"
    by (auto simp: ctree_rep_def)
  then show ?thesis
  proof cases
    case 1
    then show ?thesis
      by (intro exI [of _ "[]"]) (simp add: ctree_map_foreach_def empty_rep_def load_entry_def rret_def [symmetric])
  next
    case (2 t)
    then obtain e where e: "objects P m = Some (CtreeMap e)" "tree_at (objects P) t e" "wf_ct t" by (auto simp: tree_rep_def)
    moreover have "eslot e \<noteq> None" using e(2) by (cases t) auto
    ultimately show ?thesis
      using 2(2) wf_sorted [OF e(3)]
      by (intro exI [of _ "leaves t"]) (auto simp: ctree_map_foreach_def load_entry_def foreach_node_tree [OF e(2) assms(2)])
  qed
qed

section \<open>New objects and maps\<close>

lemma ctree_rep_fresh:
  assumes "ctree_rep P m M" "objects P a = None"
  shows "ctree_rep (P\<lparr>objects := (objects P)(a \<mapsto> x), root_map := q\<rparr>) m M"
proof -
  have "tree_rep (P\<lparr>objects := (objects P)(a \<mapsto> x), root_map := q\<rparr>) m t" if rep: "tree_rep P m t" for t
  proof -
    obtain e where e: "objects P m = Some (CtreeMap e)" "tree_at (objects P) t e" using rep by (auto simp: tree_rep_def)
    have "tree_at ((objects P)(a \<mapsto> x)) t e"
      using tree_at_nodes [OF e(2), of a] assms(2) by (intro tree_at_frame [OF e(2)]) (auto simp: is_value_def)
    then show ?thesis using rep e(1) assms(2) by (auto simp: tree_rep_def)
  qed
  then show ?thesis using assms by (auto simp: ctree_rep_def empty_rep_def)
qed

lemma ctree_create_law:
  "(\<exists>a acts. tx_alloc H P = Some a \<and> ctree_map_create H nested P = Some (Inr ((0, P\<lparr>objects :=
      (objects P)(a \<mapsto> CtreeMap \<lparr>ekey = 0, eslot = None\<rparr>), root_map := Some a\<rparr>), acts))) \<or>
   \<not> has_room H P \<and> ctree_map_create H nested P = (if nested then tx_abort else rret (1, P))"
  by (cases "tx_snapshot H P MapRange"; cases "tx_alloc H P")
    (auto simp: ctree_map_create_def TX_ADD_run TX_NEW_run tx_do_def has_room_def)

lemma ctree_is_empty_law:
  assumes "ctree_rep P m M"
  shows "ctree_map_is_empty P m = rret (if card (dom M) = 1 then 0 else 1)"
proof -
  from assms consider "empty_rep P m" "M = Map.empty" | t where "tree_rep P m t" "M = map_of (leaves t)"
    by (auto simp: ctree_rep_def)
  then show ?thesis
  proof cases
    case 1
    then show ?thesis by (simp add: ctree_map_is_empty_def load_entry_def empty_rep_def)
  next
    case (2 t)
    then obtain e where e: "objects P m = Some (CtreeMap e)" "tree_at (objects P) t e" "wf_ct t" by (auto simp: tree_rep_def)
    show ?thesis
    proof (cases t)
      case (Lf k v)
      then show ?thesis using e 2(2) by (simp add: ctree_map_is_empty_def load_entry_def)
    next
      case (Nd a d l r)
      have "keys l \<inter> keys r = {}" using e(3) Nd by auto
      moreover have "dom M = keys l \<union> keys r" unfolding 2(2) dom_leaves Nd by simp
      ultimately have "card (dom M) = card (keys l) + card (keys r)" by (simp add: card_Un_disjoint)
      moreover have "card (keys l) > 0" "card (keys r) > 0" by (simp_all add: card_gt_0_iff)
      ultimately show ?thesis using e Nd by (simp add: ctree_map_is_empty_def load_entry_def)
    qed
  qed
qed

section \<open>An example\<close>

definition example_pobj :: "unit pobj" where
  "example_pobj = \<lparr>tx_alloc = (\<lambda>P. find (\<lambda>a. objects P a = None) [1..<100]),
     raw_node = \<lparr>diff = 0, entries = (\<lparr>ekey = 9, eslot = None\<rparr>, \<lparr>ekey = 9, eslot = None\<rparr>)\<rparr>, raw_item = 9,
     tx_snapshot = (\<lambda>P r. True)\<rparr>"

text \<open>An empty map at address 1, and a tree with the keys 5 and 6 at address 4.\<close>

definition example_pool :: "unit pool" where
  "example_pool = \<lparr>objects = [1 \<mapsto> CtreeMap \<lparr>ekey = 0, eslot = None\<rparr>, 2 \<mapsto> Item 1 42, 3 \<mapsto> Item 1 43,
     4 \<mapsto> CtreeMap \<lparr>ekey = 0, eslot = Some 5\<rparr>,
     5 \<mapsto> TreeMapNode \<lparr>diff = 1, entries = (\<lparr>ekey = 5, eslot = Some 2\<rparr>, \<lparr>ekey = 6, eslot = Some 3\<rparr>)\<rparr>,
     6 \<mapsto> CtreeMap \<lparr>ekey = 5, eslot = Some 2\<rparr>], root_map = None\<rparr>"

lemma example_fresh: "fresh_alloc example_pobj"
  by (auto simp: fresh_alloc_def example_pobj_def find_Some_iff)

lemma example_room: "has_room example_pobj example_pool"
  unfolding has_room_def example_pobj_def example_pool_def
  by (auto simp: find_None_iff intro!: exI [of _ 7])

lemma example_value: "is_value (objects example_pool) 2" "is_value (objects example_pool) 3"
  by (simp_all add: is_value_def example_pool_def)

lemma example_empty: "ctree_rep example_pool 1 Map.empty"
  by (simp add: ctree_rep_def empty_rep_def example_pool_def)

lemma example_tree: "ctree_rep example_pool 4 [5 \<mapsto> 2, 6 \<mapsto> 3]"
proof -
  have high: "drop_bit 2 (5 :: 64 word) = drop_bit 2 6" by code_simp
  have "bit (5 :: 64 word) i = bit (6 :: 64 word) i" if "Suc 0 < i" for i
  proof -
    have "bit (drop_bit 2 (5 :: 64 word)) (i - 2) = bit (drop_bit 2 (6 :: 64 word)) (i - 2)" by (simp only: high)
    moreover have "2 + (i - 2) = i" using that by simp
    ultimately show ?thesis by (simp only: bit_drop_bit_eq comp_apply)
  qed
  then have "tree_rep example_pool 4 (Nd 5 1 (Lf 5 2) (Lf 6 3))"
    by (simp add: tree_rep_def example_pool_def is_value_def agree_def)
  moreover have "[5 \<mapsto> 2, 6 \<mapsto> 3] = map_of (leaves (Nd 5 1 (Lf 5 2) (Lf 6 3)))" by auto
  ultimately show ?thesis unfolding ctree_rep_def by blast
qed

end
