(* ===== verification/XF_MapOps.thy ===== *)
theory XF_MapOps
  imports XF_CTreeProps
begin

text \<open>
  The common interface of the map workloads, \<open>pmdk/src/examples/libpmemobj/map/map.c\<close>: a table of
  functions, of which some may be missing, and the functions that call through it. The locale states what a client
  of the table relies on.
\<close>

section \<open>The table\<close>

type_synonym ('x, 's) map_callback = "64 word \<Rightarrow> PMEMoid \<Rightarrow> 's \<Rightarrow> ('x tx_act, int \<times> 's) outcome"

record ('x, 's) map_ops =
  op_check :: "('x pool \<Rightarrow> PMEMoid \<Rightarrow> ('x tx_act, int) run) option"
  op_create :: "(bool \<Rightarrow> 'x pool \<Rightarrow> 32 word option \<Rightarrow> ('x tx_act, int \<times> 'x pool) run) option"
  op_destroy :: "(bool \<Rightarrow> 'x pool \<Rightarrow> ('x tx_act, int \<times> 'x pool) run) option"
  op_init :: "('x pool \<Rightarrow> PMEMoid \<Rightarrow> ('x tx_act, int \<times> 'x pool) run) option"
  op_insert :: "(bool \<Rightarrow> 'x pool \<Rightarrow> PMEMoid \<Rightarrow> 64 word \<Rightarrow> PMEMoid \<Rightarrow> ('x tx_act, int \<times> 'x pool) run) option"
  op_insert_new :: "(bool \<Rightarrow> 'x pool \<Rightarrow> PMEMoid \<Rightarrow> 64 word \<Rightarrow> nat \<Rightarrow> (64 word \<Rightarrow> 64 word) \<Rightarrow> ('x tx_act, int \<times> 'x pool) run) option"
  op_remove :: "(bool \<Rightarrow> 'x pool \<Rightarrow> PMEMoid \<Rightarrow> 64 word \<Rightarrow> ('x tx_act, PMEMoid \<times> 'x pool) run) option"
  op_remove_free :: "(bool \<Rightarrow> 'x pool \<Rightarrow> PMEMoid \<Rightarrow> 64 word \<Rightarrow> ('x tx_act, int \<times> 'x pool) run) option"
  op_clear :: "(bool \<Rightarrow> 'x pool \<Rightarrow> PMEMoid \<Rightarrow> ('x tx_act, int \<times> 'x pool) run) option"
  op_get :: "('x pool \<Rightarrow> PMEMoid \<Rightarrow> 64 word \<Rightarrow> ('x tx_act, PMEMoid) run) option"
  op_lookup :: "('x pool \<Rightarrow> PMEMoid \<Rightarrow> 64 word \<Rightarrow> ('x tx_act, int) run) option"
  op_foreach :: "('x pool \<Rightarrow> PMEMoid \<Rightarrow> ('x, 's) map_callback \<Rightarrow> 's \<Rightarrow> ('x tx_act, int \<times> 's) run) option"
  op_is_empty :: "('x pool \<Rightarrow> PMEMoid \<Rightarrow> ('x tx_act, int) run) option"
  op_count :: "('x pool \<Rightarrow> PMEMoid \<Rightarrow> ('x tx_act, 64 word) run) option"
  op_cmd :: "(bool \<Rightarrow> 'x pool \<Rightarrow> PMEMoid \<Rightarrow> 32 word \<Rightarrow> 64 word \<Rightarrow> ('x tx_act, int \<times> 'x pool) run) option"

record ('x, 's) map_ctx =
  ctx_ops :: "('x, 's) map_ops"

text \<open>A missing function ends the process with code 1.\<close>

definition ABORT_NOT_IMPLEMENTED :: "'f option \<Rightarrow> ('f \<Rightarrow> ('e, 'a) run) \<Rightarrow> ('e, 'a) run" where
  "ABORT_NOT_IMPLEMENTED f call = (case f of None \<Rightarrow> Some (Inl (Exit 1)) | Some g \<Rightarrow> call g)"

definition map_ctx_init :: "('x, 's) map_ops option \<Rightarrow> bool \<Rightarrow> ('x, 's) map_ctx option" where
  "map_ctx_init ops calloc_ok =
     (case ops of None \<Rightarrow> None | Some t \<Rightarrow> if calloc_ok then Some \<lparr>ctx_ops = t\<rparr> else None)"

text \<open>The argument is null, or points to a structure whose field is a seed.\<close>

definition map_create :: "('x, 's) map_ctx \<Rightarrow> bool \<Rightarrow> 'x pool \<Rightarrow> 32 word option \<Rightarrow> ('x tx_act, int \<times> 'x pool) run" where
  "map_create mapc nested P arg = ABORT_NOT_IMPLEMENTED (op_create (ctx_ops mapc)) (\<lambda>f. f nested P arg)"

definition map_destroy :: "('x, 's) map_ctx \<Rightarrow> bool \<Rightarrow> 'x pool \<Rightarrow> ('x tx_act, int \<times> 'x pool) run" where
  "map_destroy mapc nested P = ABORT_NOT_IMPLEMENTED (op_destroy (ctx_ops mapc)) (\<lambda>f. f nested P)"

definition map_init :: "('x, 's) map_ctx \<Rightarrow> 'x pool \<Rightarrow> PMEMoid \<Rightarrow> ('x tx_act, int \<times> 'x pool) run" where
  "map_init mapc P mp = ABORT_NOT_IMPLEMENTED (op_init (ctx_ops mapc)) (\<lambda>f. f P mp)"

definition map_check :: "('x, 's) map_ctx \<Rightarrow> 'x pool \<Rightarrow> PMEMoid \<Rightarrow> ('x tx_act, int) run" where
  "map_check mapc P mp = ABORT_NOT_IMPLEMENTED (op_check (ctx_ops mapc)) (\<lambda>f. f P mp)"

definition map_insert ::
  "('x, 's) map_ctx \<Rightarrow> bool \<Rightarrow> 'x pool \<Rightarrow> PMEMoid \<Rightarrow> 64 word \<Rightarrow> PMEMoid \<Rightarrow> ('x tx_act, int \<times> 'x pool) run" where
  "map_insert mapc nested P mp k v = ABORT_NOT_IMPLEMENTED (op_insert (ctx_ops mapc)) (\<lambda>f. f nested P mp k v)"

definition map_insert_new ::
  "('x, 's) map_ctx \<Rightarrow> bool \<Rightarrow> 'x pool \<Rightarrow> PMEMoid \<Rightarrow> 64 word \<Rightarrow> nat \<Rightarrow> (64 word \<Rightarrow> 64 word) \<Rightarrow> ('x tx_act, int \<times> 'x pool) run" where
  "map_insert_new mapc nested P mp k type_num constructor =
     ABORT_NOT_IMPLEMENTED (op_insert_new (ctx_ops mapc)) (\<lambda>f. f nested P mp k type_num constructor)"

definition map_remove ::
  "('x, 's) map_ctx \<Rightarrow> bool \<Rightarrow> 'x pool \<Rightarrow> PMEMoid \<Rightarrow> 64 word \<Rightarrow> ('x tx_act, PMEMoid \<times> 'x pool) run" where
  "map_remove mapc nested P mp k = ABORT_NOT_IMPLEMENTED (op_remove (ctx_ops mapc)) (\<lambda>f. f nested P mp k)"

definition map_remove_free ::
  "('x, 's) map_ctx \<Rightarrow> bool \<Rightarrow> 'x pool \<Rightarrow> PMEMoid \<Rightarrow> 64 word \<Rightarrow> ('x tx_act, int \<times> 'x pool) run" where
  "map_remove_free mapc nested P mp k = ABORT_NOT_IMPLEMENTED (op_remove_free (ctx_ops mapc)) (\<lambda>f. f nested P mp k)"

definition map_clear :: "('x, 's) map_ctx \<Rightarrow> bool \<Rightarrow> 'x pool \<Rightarrow> PMEMoid \<Rightarrow> ('x tx_act, int \<times> 'x pool) run" where
  "map_clear mapc nested P mp = ABORT_NOT_IMPLEMENTED (op_clear (ctx_ops mapc)) (\<lambda>f. f nested P mp)"

definition map_get :: "('x, 's) map_ctx \<Rightarrow> 'x pool \<Rightarrow> PMEMoid \<Rightarrow> 64 word \<Rightarrow> ('x tx_act, PMEMoid) run" where
  "map_get mapc P mp k = ABORT_NOT_IMPLEMENTED (op_get (ctx_ops mapc)) (\<lambda>f. f P mp k)"

definition map_lookup :: "('x, 's) map_ctx \<Rightarrow> 'x pool \<Rightarrow> PMEMoid \<Rightarrow> 64 word \<Rightarrow> ('x tx_act, int) run" where
  "map_lookup mapc P mp k = ABORT_NOT_IMPLEMENTED (op_lookup (ctx_ops mapc)) (\<lambda>f. f P mp k)"

definition map_foreach ::
  "('x, 's) map_ctx \<Rightarrow> 'x pool \<Rightarrow> PMEMoid \<Rightarrow> ('x, 's) map_callback \<Rightarrow> 's \<Rightarrow> ('x tx_act, int \<times> 's) run" where
  "map_foreach mapc P mp cb s = ABORT_NOT_IMPLEMENTED (op_foreach (ctx_ops mapc)) (\<lambda>f. f P mp cb s)"

definition map_is_empty :: "('x, 's) map_ctx \<Rightarrow> 'x pool \<Rightarrow> PMEMoid \<Rightarrow> ('x tx_act, int) run" where
  "map_is_empty mapc P mp = ABORT_NOT_IMPLEMENTED (op_is_empty (ctx_ops mapc)) (\<lambda>f. f P mp)"

definition map_count :: "('x, 's) map_ctx \<Rightarrow> 'x pool \<Rightarrow> PMEMoid \<Rightarrow> ('x tx_act, 64 word) run" where
  "map_count mapc P mp = ABORT_NOT_IMPLEMENTED (op_count (ctx_ops mapc)) (\<lambda>f. f P mp)"

definition map_cmd ::
  "('x, 's) map_ctx \<Rightarrow> bool \<Rightarrow> 'x pool \<Rightarrow> PMEMoid \<Rightarrow> 32 word \<Rightarrow> 64 word \<Rightarrow> ('x tx_act, int \<times> 'x pool) run" where
  "map_cmd mapc nested P mp c arg = ABORT_NOT_IMPLEMENTED (op_cmd (ctx_ops mapc)) (\<lambda>f. f nested P mp c arg)"

section \<open>The contracts\<close>

text \<open>
  What a program may rely on for every map: \<open>rep P mp M\<close> says that the map at \<open>mp\<close> in the pool holds
  the finite map \<open>M\<close>. Some maps do not take every key, hold a limited number of keys, or need more
  room than others, and they differ in the order of a traversal and in what happens to the value of a key that is there
  already. The laws are those of calls inside a transaction, which a call without room aborts.
\<close>

locale map_base =
  fixes ops :: "'x pobj \<Rightarrow> ('x, 's) map_ops"
    and rep :: "'x pool \<Rightarrow> PMEMoid \<Rightarrow> (64 word \<rightharpoonup> nat) \<Rightarrow> bool"
    and key_ok :: "64 word \<Rightarrow> bool"
    and fits :: "nat \<Rightarrow> bool"
    and room :: "'x pobj \<Rightarrow> 'x pool \<Rightarrow> PMEMoid \<Rightarrow> bool"
    and order :: "64 word list \<Rightarrow> bool"
  assumes check_none: "map_check \<lparr>ctx_ops = ops H\<rparr> P None = rret 1"
    and check_some: "rep P mp M \<Longrightarrow> map_check \<lparr>ctx_ops = ops H\<rparr> P mp = rret 0"
    and fits_le: "fits n \<Longrightarrow> m \<le> n \<Longrightarrow> fits m"
    and insert_key: "rep P mp M \<Longrightarrow> key_ok k \<Longrightarrow> fits (Suc (card (dom M))) \<Longrightarrow> is_value (objects P) v \<Longrightarrow> fresh_alloc H \<Longrightarrow>
      (\<exists>r P' acts M'. map_insert \<lparr>ctx_ops = ops H\<rparr> True P mp k (Some v) = Some (Inr ((r, P'), acts)) \<and>
        rep P' mp M' \<and> root_map P' = root_map P \<and> dom M' = insert k (dom M) \<and> (\<forall>k'. k' \<noteq> k \<longrightarrow> M' k' = M k') \<and>
        (k \<notin> dom M \<longrightarrow> M' k = Some v)) \<or>
      \<not> room H P mp \<and> map_insert \<lparr>ctx_ops = ops H\<rparr> True P mp k (Some v) = tx_abort"
    and remove_key: "rep P mp M \<Longrightarrow> key_ok k \<Longrightarrow> fresh_alloc H \<Longrightarrow>
      (\<exists>P' acts. map_remove \<lparr>ctx_ops = ops H\<rparr> True P mp k = Some (Inr ((M k, P'), acts)) \<and> rep P' mp (M(k := None))) \<or>
      \<not> room H P mp \<and> map_remove \<lparr>ctx_ops = ops H\<rparr> True P mp k = tx_abort"
    and get_key: "rep P mp M \<Longrightarrow> key_ok k \<Longrightarrow> map_get \<lparr>ctx_ops = ops H\<rparr> P mp k = rret (M k)"
    and foreach_key: "rep P mp M \<Longrightarrow> goes_on cb \<Longrightarrow>
      \<exists>kvs. map_of kvs = M \<and> distinct (map fst kvs) \<and> order (map fst kvs) \<and>
        map_foreach \<lparr>ctx_ops = ops H\<rparr> P mp cb s = Some (xbind (xfor (visit cb) kvs s) (\<lambda>s'. xret (0, s')))"
    and new_item: "rep P mp M \<Longrightarrow> objects P a = None \<Longrightarrow> rep (P\<lparr>objects := (objects P)(a \<mapsto> x)\<rparr>) mp M"
begin

lemma finite_rep: "rep P mp M \<Longrightarrow> finite (dom M)"
  using foreach_key [of P mp M "\<lambda>_ _ s. xret (0, s)"] finite_dom_map_of by (fastforce simp: goes_on_def xret_def)

text \<open>A new key is found after its insertion and gone after its removal, and the other keys keep their values.\<close>

lemma insert_get_remove:
  assumes "rep P mp M" "key_ok k" "key_ok k'" "fits (Suc (card (dom M)))" "is_value (objects P) v" "fresh_alloc H" "room H P mp" "k \<notin> dom M"
  shows "\<exists>r P' acts M'. map_insert \<lparr>ctx_ops = ops H\<rparr> True P mp k (Some v) = Some (Inr ((r, P'), acts)) \<and>
    map_get \<lparr>ctx_ops = ops H\<rparr> P' mp k' = rret (if k' = k then Some v else M k') \<and>
    (room H P' mp \<longrightarrow> (\<exists>P'' acts'. map_remove \<lparr>ctx_ops = ops H\<rparr> True P' mp k = Some (Inr ((Some v, P''), acts')) \<and> rep P'' mp M))"
proof -
  obtain r P' acts M' where ins: "map_insert \<lparr>ctx_ops = ops H\<rparr> True P mp k (Some v) = Some (Inr ((r, P'), acts))"
      "rep P' mp M'" "\<forall>k'. k' \<noteq> k \<longrightarrow> M' k' = M k'" "M' k = Some v"
    using insert_key [OF assms(1,2,4-6)] assms(7,8) by blast
  have M: "M'(k := None) = M" using ins(3) assms(8) by (auto simp: domIff)
  have "map_get \<lparr>ctx_ops = ops H\<rparr> P' mp k' = rret (if k' = k then Some v else M k')"
    using get_key [OF ins(2) assms(3), of H] ins(3,4) by (cases "k' = k") simp_all
  then show ?thesis using ins(1) remove_key [OF ins(2) assms(2,6)] ins(4) M by fastforce
qed

end

text \<open>
  The contract of a map that takes every key but 0, replaces the value of a key, and is traversed in ascending
  order, inside and outside transactions. A call fails only when the library has no room.
\<close>

definition refused :: "'x pobj \<Rightarrow> bool \<Rightarrow> 'x pool \<Rightarrow> 'r \<Rightarrow> ('e, 'r \<times> 'x pool) run \<Rightarrow> bool" where
  "refused H nested P r m \<longleftrightarrow> \<not> has_room H P \<and> m = (if nested then tx_abort else rret (r, P))"

locale map_impl =
  fixes ops :: "'x pobj \<Rightarrow> ('x, 's) map_ops"
    and rep :: "'x pool \<Rightarrow> PMEMoid \<Rightarrow> (64 word \<rightharpoonup> nat) \<Rightarrow> bool"
  assumes check_null: "map_check \<lparr>ctx_ops = ops H\<rparr> P None = rret 1"
    and check_rep: "rep P mp M \<Longrightarrow> map_check \<lparr>ctx_ops = ops H\<rparr> P mp = rret 0"
    and create: "fresh_alloc H \<Longrightarrow>
      (\<exists>P' acts. map_create \<lparr>ctx_ops = ops H\<rparr> nested P arg = Some (Inr ((0, P'), acts)) \<and> rep P' (root_map P') Map.empty) \<or>
      refused H nested P 1 (map_create \<lparr>ctx_ops = ops H\<rparr> nested P arg)"
    and insert: "rep P mp M \<Longrightarrow> k \<noteq> 0 \<Longrightarrow> is_value (objects P) v \<Longrightarrow> fresh_alloc H \<Longrightarrow>
      (\<exists>P' acts. map_insert \<lparr>ctx_ops = ops H\<rparr> nested P mp k (Some v) = Some (Inr ((0, P'), acts)) \<and>
        rep P' mp (M(k \<mapsto> v)) \<and> root_map P' = root_map P) \<or>
      refused H nested P 1 (map_insert \<lparr>ctx_ops = ops H\<rparr> nested P mp k (Some v))"
    and remove: "rep P mp M \<Longrightarrow> k \<noteq> 0 \<Longrightarrow>
      (\<exists>P' acts. map_remove \<lparr>ctx_ops = ops H\<rparr> nested P mp k = Some (Inr ((M k, P'), acts)) \<and> rep P' mp (M(k := None))) \<or>
      refused H nested P (M k) (map_remove \<lparr>ctx_ops = ops H\<rparr> nested P mp k)"
    and get: "rep P mp M \<Longrightarrow> k \<noteq> 0 \<Longrightarrow> map_get \<lparr>ctx_ops = ops H\<rparr> P mp k = rret (M k)"
    and foreach: "rep P mp M \<Longrightarrow> goes_on cb \<Longrightarrow>
      \<exists>kvs. map_of kvs = M \<and> sorted_wrt (<) (map fst kvs) \<and>
        map_foreach \<lparr>ctx_ops = ops H\<rparr> P mp cb s = Some (xbind (xfor (visit cb) kvs s) (\<lambda>s'. xret (0, s')))"
    and new_object: "rep P mp M \<Longrightarrow> objects P a = None \<Longrightarrow> rep (P\<lparr>objects := (objects P)(a \<mapsto> x)\<rparr>) mp M"
begin

text \<open>A value that was inserted is found, and the other keys keep theirs.\<close>

lemma get_insert:
  assumes "rep P mp M" "k \<noteq> 0" "k' \<noteq> 0" "is_value (objects P) v" "fresh_alloc H" "has_room H P"
  shows "\<exists>P' acts. map_insert \<lparr>ctx_ops = ops H\<rparr> nested P mp k (Some v) = Some (Inr ((0, P'), acts)) \<and>
    map_get \<lparr>ctx_ops = ops H\<rparr> P' mp k' = rret (if k' = k then Some v else M k')"
proof -
  obtain P' acts where "map_insert \<lparr>ctx_ops = ops H\<rparr> nested P mp k (Some v) = Some (Inr ((0, P'), acts))"
      "rep P' mp (M(k \<mapsto> v))"
    using insert [OF assms(1,2,4,5), of nested] assms(6) by (auto simp: refused_def)
  then show ?thesis using get [of P' mp "M(k \<mapsto> v)" k' H] assms(3) by fastforce
qed

text \<open>A key that was removed is gone, its value was returned, and the other keys keep theirs.\<close>

lemma get_remove:
  assumes "rep P mp M" "k \<noteq> 0" "k' \<noteq> 0" "has_room H P"
  shows "\<exists>P' acts. map_remove \<lparr>ctx_ops = ops H\<rparr> nested P mp k = Some (Inr ((M k, P'), acts)) \<and>
    map_get \<lparr>ctx_ops = ops H\<rparr> P' mp k' = rret (if k' = k then None else M k')"
proof -
  obtain P' acts where "map_remove \<lparr>ctx_ops = ops H\<rparr> nested P mp k = Some (Inr ((M k, P'), acts))"
      "rep P' mp (M(k := None))"
    using remove [OF assms(1,2), of H nested] assms(4) by (auto simp: refused_def)
  then show ?thesis using get [of P' mp "M(k := None)" k' H] assms(3) by fastforce
qed

end

sublocale map_impl \<subseteq> base: map_base ops rep "\<lambda>k. k \<noteq> 0" "\<lambda>_. True" "\<lambda>H P mp. has_room H P" "sorted_wrt (<)"
proof (unfold_locales, goal_cases)
  case (4 P mp M k v H)
  from insert [OF 4(1,2,4,5), of True] show ?case
  proof
    assume "\<exists>P' acts. map_insert \<lparr>ctx_ops = ops H\<rparr> True P mp k (Some v) = Some (Inr ((0, P'), acts)) \<and> rep P' mp (M(k \<mapsto> v)) \<and> root_map P' = root_map P"
    then obtain P' acts where "map_insert \<lparr>ctx_ops = ops H\<rparr> True P mp k (Some v) = Some (Inr ((0, P'), acts))" "rep P' mp (M(k \<mapsto> v))"
      "root_map P' = root_map P" by blast
    moreover have "dom (M(k \<mapsto> v)) = insert k (dom M)" "\<forall>k'. k' \<noteq> k \<longrightarrow> (M(k \<mapsto> v)) k' = M k'" "(M(k \<mapsto> v)) k = Some v" by simp_all
    ultimately show ?case by blast
  qed (simp add: refused_def)
next
  case (5 P mp M k H)
  then show ?case using remove [OF 5(1,2), of H True] unfolding refused_def by auto
next
  case (7 P mp M cb H s)
  then show ?case using foreach [OF 7, of H s] strict_sorted_iff by blast
next
  case (8 P mp M a x)
  then show ?case by (rule new_object)
qed (simp_all add: check_null check_rep get)

end
