(* ===== verification/XF_CTreeCrash.thy ===== *)
theory XF_CTreeCrash
  imports XF_CTreeProps
begin

text \<open>
  Crashes of the crit-bit tree: at every moment of an operation the library can bring back the pool from
  before it, because every change is either to a new object or to a range that was added to the
  transaction before.
\<close>

section \<open>Runs that a crash undoes\<close>

text \<open>A run that reads only, and a run whose changes a crash undoes.\<close>

definition quiet :: "('e, 'a) run \<Rightarrow> bool" where
  "quiet r \<longleftrightarrow> (\<forall>x es. r = Some (Inr (x, es)) \<longrightarrow> es = [])"

definition safe :: "tx_range list \<Rightarrow> nat list \<Rightarrow> 'x pool \<Rightarrow> ('x tx_act, 'x pool) run \<Rightarrow> bool" where
  "safe rs as P r \<longleftrightarrow> (\<forall>P' acts. r = Some (Inr (P', acts)) \<longrightarrow> fold apply_act acts P = P' \<and> protected rs as acts)"

lemma quiet_rret [simp]: "quiet (rret x)" "quiet (rub msg)"
  by (simp_all add: quiet_def)

lemma quiet_rbind: "quiet r \<Longrightarrow> (\<And>x. quiet (k x)) \<Longrightarrow> quiet (rbind r k)"
  by (auto simp: quiet_def rbind_eq_Some)

lemma quiet_reads [simp]:
  "quiet (load_entry P p)" "quiet (node_at P a)" "quiet (OID_INSTANCEOF P q)" "quiet (BIT_IS_SET n i)" "quiet (find_crit_bit x y)"
  by (auto simp: load_entry_def node_at_def OID_INSTANCEOF_def BIT_IS_SET_def find_crit_bit_def find_last_set_64_def
      split: option.splits object.splits)

lemma quietI: "(\<And>y. r = Some y \<Longrightarrow> quiet (Some y)) \<Longrightarrow> quiet r"
  by (cases r) (auto simp: quiet_def)

lemma quiet_insert_position [simp]: "quiet (insert_position P new k p)"
proof (rule quietI)
  fix y assume "insert_position P new k p = Some y"
  then show "quiet (Some y)"
  proof (rule insert_position.raw_induct [where Pa = "\<lambda>_ y. quiet (Some y)", rotated], goal_cases)
    case (1 f)
    have [simp]: "quiet (f P new k p)" for P new k p by (rule quietI) (rule 1(1))
    show ?case using 1(2) [symmetric] by (simp add: quiet_rbind)
  qed
qed

lemma quiet_descend [simp]: "quiet (descend P k p)"
proof (rule quietI)
  fix y assume "descend P k p = Some y"
  then show "quiet (Some y)"
  proof (rule descend.raw_induct [where Pa = "\<lambda>_ y. quiet (Some y)", rotated], goal_cases)
    case (1 f)
    have [simp]: "quiet (f P k p)" for P k p by (rule quietI) (rule 1(1))
    show ?case using 1(2) [symmetric] by (simp add: quiet_rbind split: option.split)
  qed
qed

lemma quiet_descend_parent [simp]: "quiet (descend_parent P k par p)"
proof (rule quietI)
  fix y assume "descend_parent P k par p = Some y"
  then show "quiet (Some y)"
  proof (rule descend_parent.raw_induct [where Pa = "\<lambda>_ y. quiet (Some y)", rotated], goal_cases)
    case (1 f)
    have [simp]: "quiet (f P k par p)" for P k par p by (rule quietI) (rule 1(1))
    show ?case using 1(2) [symmetric] by (simp add: quiet_rbind split: option.split)
  qed
qed

text \<open>Safe steps.\<close>

lemma safe_simps [simp]: "safe rs as P tx_abort" "safe rs as P (rub msg)" "safe rs as P (rret P)"
  by (simp_all add: safe_def tx_abort_def)

lemma safe_read: "quiet r \<Longrightarrow> (\<And>x. safe rs as P (k x)) \<Longrightarrow> safe rs as P (rbind r k)"
  by (fastforce simp: safe_def quiet_def rbind_eq_Some)

lemma safe_bind:
  "safe rs as P r \<Longrightarrow> (\<And>P'. safe rs as P' (k P')) \<Longrightarrow> safe rs as P (rbind r k)"
  by (fastforce simp: safe_def rbind_eq_Some intro: protected_append)

lemma safe_do:
  assumes "undone rs as act"
    and "safe (case act of TxAdd r \<Rightarrow> r # rs | _ \<Rightarrow> rs) (case act of TxNew a x \<Rightarrow> a # as | _ \<Rightarrow> as)
      (apply_act act P) (k (apply_act act P))"
  shows "safe rs as P (rbind (tx_do act P) k)"
  using assms by (auto simp: safe_def tx_do_def xemit_eq_Inr)

lemma safe_last: "undone rs as act \<Longrightarrow> safe rs as P (tx_do act P)"
  by (simp add: safe_def tx_do_def)

lemma safe_store:
  assumes "EntryRange p \<in> set rs \<or> holder p \<in> set as"
    and "\<And>P'. safe rs as P' (k P')"
  shows "safe rs as P (rbind (store_entry p e P) k)"
proof -
  have "safe rs as P (store_entry p e P)"
    unfolding store_entry_def using assms(1) by (intro safe_read safe_last) simp_all
  then show ?thesis using assms(2) by (rule safe_bind)
qed

lemma safe_store_last: "EntryRange p \<in> set rs \<or> holder p \<in> set as \<Longrightarrow> safe rs as P (store_entry p e P)"
  unfolding store_entry_def by (intro safe_read safe_last) simp_all

lemma safe_add: "safe (r # rs) as P (k P) \<Longrightarrow> safe rs as P (rbind (TX_ADD H r P) k)"
  using safe_do [of rs as "TxAdd r" P k] by (simp add: TX_ADD_def)

lemma safe_new:
  assumes "\<And>a P'. safe rs (a # as) P' (k (a, P'))"
  shows "safe rs as P (rbind (TX_NEW H x P) k)"
  using assms by (auto simp: safe_def TX_NEW_run xemit_eq_Inr tx_abort_def split: option.splits)

lemma safe_free: "(\<And>P'. safe rs as P' (k P')) \<Longrightarrow> safe rs as P (rbind (TX_FREE q P) k)"
    and safe_free_last: "safe rs as P (TX_FREE q P)"
  by (cases q; fastforce simp: TX_FREE_def intro: safe_do safe_last)+

lemma safe_clear_node: "safe rs as P (ctree_map_clear_node q P)"
proof -
  have "safe rs as P (Some y)" if "ctree_map_clear_node q P = Some y" for y
    using that
  proof (rule ctree_map_clear_node.raw_induct [where Pa = "\<lambda>(q, P) y. safe rs as P (Some y)", rotated, simplified], goal_cases)
    case (1 f q P y)
    have f: "safe rs as P (f q P)" for q P using 1(1) [of q P] by (cases "f q P") (auto simp: safe_def)
    show ?case using 1(2) [symmetric]
      by (auto intro!: safe_read safe_bind f safe_free_last split: option.split)
  qed
  then show ?thesis by (cases "ctree_map_clear_node q P") (auto simp: safe_def)
qed


text \<open>Operations, which return a value and the pool.\<close>

definition safe_op :: "'x pool \<Rightarrow> ('x tx_act, 'r \<times> 'x pool) run \<Rightarrow> bool" where
  "safe_op P r \<longleftrightarrow> (\<forall>x P' acts. r = Some (Inr ((x, P'), acts)) \<longrightarrow> fold apply_act acts P = P' \<and> protected [] [] acts)"

lemma safe_op_block: "safe [] [] P body \<Longrightarrow> safe_op P (tx_block nested r P body)"
proof (cases body)
  case (Some b)
  assume "safe [] [] P body"
  with Some show ?thesis
  proof (cases b)
    case (Inl f)
    with Some show ?thesis by (cases f) (auto simp: safe_op_def tx_block_def)
  qed (auto simp: safe_op_def safe_def tx_block_def)
qed (simp add: safe_op_def tx_block_def)

lemma safe_op_read: "quiet r \<Longrightarrow> (\<And>x. safe_op P (k x)) \<Longrightarrow> safe_op P (rbind r k)"
  by (fastforce simp: safe_op_def quiet_def rbind_eq_Some)

lemma safe_op_ret: "safe_op P r \<Longrightarrow> safe_op P (rbind r (\<lambda>(_, P'). rret (x, P')))"
  by (auto simp: safe_op_def rbind_eq_Some)

lemma safe_call:
  assumes "safe_op P r" "\<And>x P'. safe rs as P' (k (x, P'))"
  shows "safe rs as P (rbind r k)"
  unfolding safe_def
proof (intro allI impI)
  fix P' acts assume "rbind r k = Some (Inr (P', acts))"
  then obtain x P1 as1 as2 where r: "r = Some (Inr ((x, P1), as1))" "k (x, P1) = Some (Inr (P', as2))" "acts = as1 @ as2"
    by (auto simp: rbind_eq_Some)
  from assms(1) r(1) have 1: "fold apply_act as1 P = P1" "protected [] [] as1" unfolding safe_op_def by blast+
  from assms(2) r(2) have 2: "fold apply_act as2 P1 = P'" "protected rs as as2" unfolding safe_def by blast+
  have "protected rs as as1" by (rule protected_mono [OF 1(2)]) simp_all
  then show "fold apply_act acts P = P' \<and> protected rs as acts"
    using 1(1) 2 r(3) by (simp add: protected_append)
qed

lemmas safe_reads = quiet_reads [THEN safe_read] quiet_insert_position [THEN safe_read]

lemma safe_insert_leaf: "safe [] [] P (ctree_map_insert_leaf H p e df P)"
  unfolding ctree_map_insert_leaf_def
  by (auto intro!: safe_new safe_reads safe_add safe_store safe_store_last safe_do)

lemma safe_insert: "safe_op P (ctree_map_insert H nested P m k v)"
  unfolding ctree_map_insert_def
  by (intro safe_op_read safe_op_block safe_reads) (auto intro!: safe_add safe_store_last safe_reads safe_insert_leaf)

lemma quiet_get_leaf [simp]: "quiet (ctree_map_get_leaf P m k)"
  unfolding ctree_map_get_leaf_def by (auto intro!: quiet_rbind)

lemma safe_op_rret [simp]: "safe_op P (rret (x, P))"
  by (simp add: safe_op_def)

lemma safe_remove: "safe_op P (ctree_map_remove H nested P m k)"
  unfolding ctree_map_remove_def
proof (rule safe_op_read)
  fix found :: "(entry_ptr option \<times> entry_ptr) option"
  show "safe_op P (case found of
       None \<Rightarrow> rret (None, P)
     | Some (None, leaf) \<Rightarrow>
         rbind (load_entry P leaf) (\<lambda>le.
         rbind (tx_block nested 0 P
           (rbind (TX_ADD H (EntryRange leaf) P) (\<lambda>P1.
            rbind (store_entry leaf (le\<lparr>ekey := 0\<rparr>) P1) (\<lambda>P2.
            store_entry leaf \<lparr>ekey = 0, eslot = None\<rparr> P2)))) (\<lambda>(_, P3).
         rret (eslot le, P3)))
     | Some (Some parent, leaf) \<Rightarrow>
         rbind (load_entry P leaf) (\<lambda>le.
         rbind (tx_block nested 0 P
           (rbind (load_entry P parent) (\<lambda>pe.
            rbind (TX_ADD H (EntryRange parent) P) (\<lambda>P1.
            rbind (node_at P1 (the (eslot pe))) (\<lambda>n.
            rbind (store_entry parent (entry_sel (ekey (fst (entries n)) = ekey le) (entries n)) P1) (\<lambda>P2.
            TX_FREE (eslot pe) P2)))))) (\<lambda>(_, P3).
         rret (eslot le, P3))))"
    by (cases found rule: option.exhaust)
      (auto intro!: safe_op_read [OF quiet_reads(1)] safe_op_ret safe_op_block safe_reads safe_add safe_store safe_store_last safe_free_last
        split: option.split)
qed simp

lemma safe_clear: "safe_op P (ctree_map_clear H nested P m)"
  unfolding ctree_map_clear_def
  by (intro safe_op_block safe_reads safe_bind [OF safe_clear_node] safe_add safe_store_last) simp_all

lemma safe_create: "safe_op P (ctree_map_create H nested P)"
  unfolding ctree_map_create_def
  by (intro safe_op_block safe_add safe_new) (simp add: safe_last)

lemma safe_destroy: "safe_op P (ctree_map_destroy H nested P)"
  unfolding ctree_map_destroy_def
  by (auto intro!: safe_op_block safe_call [OF safe_clear] safe_add safe_free safe_last split: option.split)


section \<open>Crash consistency\<close>

text \<open>
  C7. The operations of the crit-bit tree are atomic with respect to crashes: a crash after any number
  of their actions, followed by the recovery of the library, leaves the pool as it was before the
  operation, and all actions together have the effect of the operation.
\<close>

theorem ctree_crash_atomic:
  assumes "ctree_map_insert H nested P m k v = Some (Inr ((ret, P'), acts)) \<or>
      ctree_map_remove H nested P m k = Some (Inr ((val, P'), acts)) \<or>
      ctree_map_clear H nested P m = Some (Inr ((ret, P'), acts)) \<or>
      ctree_map_create H nested P = Some (Inr ((ret, P'), acts)) \<or>
      ctree_map_destroy H nested P = Some (Inr ((ret, P'), acts))"
  shows "(\<forall>n. after_crash [] [] (take n acts) P = P) \<and> fold apply_act acts P = P'"
proof -
  have "fold apply_act acts P = P' \<and> protected [] [] acts"
    using assms safe_insert [of P H nested m k v] safe_remove [of P H nested m k] safe_clear [of P H nested m]
      safe_create [of P H nested] safe_destroy [of P H nested]
    unfolding safe_op_def by blast
  then show ?thesis by (simp add: after_crash_protected)
qed

theorem ctree_crash_atomic_witness:
  "\<exists>P' acts. ctree_map_insert example_pobj False example_pool 4 7 (Some 2) = Some (Inr ((0, P'), acts)) \<and>
     acts \<noteq> [] \<and> (\<forall>n. after_crash [] [] (take n acts) example_pool = example_pool) \<and> fold apply_act acts example_pool = P'"
proof -
  from ctree_insert_law [OF example_tree _ example_value(1) example_fresh, of 7 False] example_room obtain P' acts where
    run: "ctree_map_insert example_pobj False example_pool 4 7 (Some 2) = Some (Inr ((0, P'), acts))"
      "ctree_rep P' 4 [5 \<mapsto> 2, 6 \<mapsto> 3, 7 \<mapsto> 2]"
    by auto
  then have eff: "(\<forall>n. after_crash [] [] (take n acts) example_pool = example_pool) \<and> fold apply_act acts example_pool = P'"
    using ctree_crash_atomic [of example_pobj False example_pool 4 7 "Some 2" 0 P' acts] by blast
  have "(ctree_map_get P' 4 7 :: (unit, PMEMoid) run) = rret (Some 2)"
      "(ctree_map_get example_pool 4 7 :: (unit, PMEMoid) run) = rret None"
    by (simp_all add: ctree_get_law [OF run(2)] ctree_get_law [OF example_tree])
  then have "P' \<noteq> example_pool" by (auto simp: rret_def)
  with run eff show ?thesis by (intro exI [of _ P'] exI [of _ acts]) auto
qed

section \<open>Clearing\<close>

lemma rub_run [simp]:
  "map_option (xemit es) (rub msg) = rub msg" "tx_block nested r P (rub msg) = rub msg"
  by (simp_all add: rub_def tx_block_def)

lemma single_leaf:
  assumes "wf_ct t" "map_of (leaves t) = [k \<mapsto> v]"
  shows "t = Lf k v"
proof (cases t)
  case (Lf k' v')
  then show ?thesis using fun_cong [OF assms(2), of k] by (auto split: if_splits)
next
  case (Nd a d l r)
  have "keys t = {k}" using dom_leaves [of t] assms(2) by simp
  then have "keys l = {k}" "keys r = {k}" using Nd by (auto simp: Un_singleton_iff)
  then show ?thesis using assms(1) Nd by auto
qed

lemma example_single: "ctree_rep example_pool 6 [5 \<mapsto> 2]"
proof -
  have "tree_rep example_pool 6 (Lf 5 2)" by (simp add: tree_rep_def example_pool_def is_value_def)
  moreover have "[5 \<mapsto> 2] = map_of (leaves (Lf 5 2))" by simp
  ultimately show ?thesis unfolding ctree_rep_def by blast
qed

definition cleared :: "'x pool \<Rightarrow> nat \<Rightarrow> 64 word \<Rightarrow> nat \<Rightarrow> 'x pool" where
  "cleared P m k v = P\<lparr>objects := (objects P)(v := None, m \<mapsto> CtreeMap \<lparr>ekey = k, eslot = None\<rparr>)\<rparr>"

lemma clear_leaf:
  assumes "tree_rep P m (Lf k v)" "has_room H P"
  shows "\<exists>acts. ctree_map_clear H nested P m = Some (Inr ((0, cleared P m k v), acts))"
proof -
  obtain e where e: "objects P m = Some (CtreeMap e)" "ekey e = k" "eslot e = Some v" "is_value (objects P) v"
    using assms(1) by (auto simp: tree_rep_def)
  have "m \<noteq> v" using e(1,4) is_value_not_node(3) by auto
  moreover have n: "ctree_map_clear_node (Some v) P = Some (Inr (P\<lparr>objects := (objects P)(v := None)\<rparr>, [TxFree v]))"
    using e(4) by (subst ctree_map_clear_node.simps) (simp add: TX_FREE_def tx_do_def)
  moreover have root: "e\<lparr>eslot := None\<rparr> = \<lparr>ekey = k, eslot = None\<rparr>" using e(2) by simp
  ultimately show ?thesis
    using e assms(2) by (simp add: root ctree_map_clear_def has_room_def TX_ADD_run cleared_def load_entry_def store_entry_def tx_do_def)
qed



end
