(* ===== verification/XF_CTreeMap.thy ===== *)
theory XF_CTreeMap
  imports XF_MapOps XF_CTreeCrash
begin

text \<open>
  The crit-bit tree behind the map interface, \<open>pmdk/src/examples/libpmemobj/map/map_ctree.c\<close>: the
  wrappers, their table, and that the table keeps the contract of the interface.
\<close>

section \<open>The table of the crit-bit tree\<close>

text \<open>The functions of \<open>map_ctree.c\<close> turn the handle of a map into that of a crit-bit tree.\<close>

definition on_map :: "PMEMoid \<Rightarrow> (nat \<Rightarrow> ('e, 'a) run) \<Rightarrow> ('e, 'a) run" where
  "on_map mp f = (case mp of None \<Rightarrow> rub ''null object'' | Some m \<Rightarrow> f m)"

definition map_ctree_check :: "'x pool \<Rightarrow> PMEMoid \<Rightarrow> ('x tx_act, int) run" where
  "map_ctree_check P mp = ctree_map_check P mp"

definition map_ctree_create :: "'x pobj \<Rightarrow> bool \<Rightarrow> 'x pool \<Rightarrow> 32 word option \<Rightarrow> ('x tx_act, int \<times> 'x pool) run" where
  "map_ctree_create H nested P arg = ctree_map_create H nested P"

definition map_ctree_destroy :: "'x pobj \<Rightarrow> bool \<Rightarrow> 'x pool \<Rightarrow> ('x tx_act, int \<times> 'x pool) run" where
  "map_ctree_destroy H nested P = ctree_map_destroy H nested P"

definition map_ctree_insert ::
  "'x pobj \<Rightarrow> bool \<Rightarrow> 'x pool \<Rightarrow> PMEMoid \<Rightarrow> 64 word \<Rightarrow> PMEMoid \<Rightarrow> ('x tx_act, int \<times> 'x pool) run" where
  "map_ctree_insert H nested P mp k v = on_map mp (\<lambda>m. ctree_map_insert H nested P m k v)"

definition map_ctree_insert_new ::
  "'x pobj \<Rightarrow> bool \<Rightarrow> 'x pool \<Rightarrow> PMEMoid \<Rightarrow> 64 word \<Rightarrow> nat \<Rightarrow> (64 word \<Rightarrow> 64 word) \<Rightarrow> ('x tx_act, int \<times> 'x pool) run" where
  "map_ctree_insert_new H nested P mp k type_num constructor =
     on_map mp (\<lambda>m. ctree_map_insert_new H nested P m k type_num constructor)"

definition map_ctree_remove ::
  "'x pobj \<Rightarrow> bool \<Rightarrow> 'x pool \<Rightarrow> PMEMoid \<Rightarrow> 64 word \<Rightarrow> ('x tx_act, PMEMoid \<times> 'x pool) run" where
  "map_ctree_remove H nested P mp k = on_map mp (\<lambda>m. ctree_map_remove H nested P m k)"

definition map_ctree_remove_free ::
  "'x pobj \<Rightarrow> bool \<Rightarrow> 'x pool \<Rightarrow> PMEMoid \<Rightarrow> 64 word \<Rightarrow> ('x tx_act, int \<times> 'x pool) run" where
  "map_ctree_remove_free H nested P mp k = on_map mp (\<lambda>m. ctree_map_remove_free H nested P m k)"

definition map_ctree_clear :: "'x pobj \<Rightarrow> bool \<Rightarrow> 'x pool \<Rightarrow> PMEMoid \<Rightarrow> ('x tx_act, int \<times> 'x pool) run" where
  "map_ctree_clear H nested P mp = on_map mp (ctree_map_clear H nested P)"

definition map_ctree_get :: "'x pool \<Rightarrow> PMEMoid \<Rightarrow> 64 word \<Rightarrow> ('x tx_act, PMEMoid) run" where
  "map_ctree_get P mp k = on_map mp (\<lambda>m. ctree_map_get P m k)"

definition map_ctree_lookup :: "'x pool \<Rightarrow> PMEMoid \<Rightarrow> 64 word \<Rightarrow> ('x tx_act, int) run" where
  "map_ctree_lookup P mp k = on_map mp (\<lambda>m. ctree_map_lookup P m k)"

definition map_ctree_foreach ::
  "'x pool \<Rightarrow> PMEMoid \<Rightarrow> ('x, 's) map_callback \<Rightarrow> 's \<Rightarrow> ('x tx_act, int \<times> 's) run" where
  "map_ctree_foreach P mp cb s = on_map mp (\<lambda>m. ctree_map_foreach P m cb s)"

definition map_ctree_is_empty :: "'x pool \<Rightarrow> PMEMoid \<Rightarrow> ('x tx_act, int) run" where
  "map_ctree_is_empty P mp = on_map mp (ctree_map_is_empty P)"

definition ctree_map_ops :: "'x pobj \<Rightarrow> ('x, 's) map_ops" where
  "ctree_map_ops H =
     \<lparr>op_check = Some map_ctree_check,
      op_create = Some (map_ctree_create H),
      op_destroy = Some (map_ctree_destroy H),
      op_init = None,
      op_insert = Some (map_ctree_insert H),
      op_insert_new = Some (map_ctree_insert_new H),
      op_remove = Some (map_ctree_remove H),
      op_remove_free = Some (map_ctree_remove_free H),
      op_clear = Some (map_ctree_clear H),
      op_get = Some map_ctree_get,
      op_lookup = Some map_ctree_lookup,
      op_foreach = Some map_ctree_foreach,
      op_is_empty = Some map_ctree_is_empty,
      op_count = None,
      op_cmd = None\<rparr>"

section \<open>The contract\<close>

lemmas map_calls = ABORT_NOT_IMPLEMENTED_def ctree_map_ops_def on_map_def
  map_check_def map_create_def map_insert_def map_remove_def map_get_def map_foreach_def
  map_ctree_check_def map_ctree_create_def map_ctree_insert_def map_ctree_remove_def map_ctree_get_def map_ctree_foreach_def

definition ctree_map_rep :: "'x pool \<Rightarrow> PMEMoid \<Rightarrow> (64 word \<rightharpoonup> nat) \<Rightarrow> bool" where
  "ctree_map_rep P mp M = (case mp of None \<Rightarrow> False | Some m \<Rightarrow> ctree_rep P m M)"

lemma ctree_rep_check: "ctree_rep P m M \<Longrightarrow> ctree_map_check P (Some m) = rret 0"
  by (auto simp: ctree_rep_def empty_rep_def tree_rep_def ctree_map_check_def)

lemma ctree_create_rep:
  assumes "fresh_alloc H"
  shows "(\<exists>P' acts. ctree_map_create H nested P = Some (Inr ((0, P'), acts)) \<and> ctree_map_rep P' (root_map P') Map.empty) \<or>
    refused H nested P 1 (ctree_map_create H nested P)"
  using ctree_create_law [of H P nested] by (auto simp: refused_def ctree_map_rep_def ctree_rep_def empty_rep_def)

interpretation ctm: map_impl ctree_map_ops ctree_map_rep
proof (unfold_locales, goal_cases)
  case (1 H P)
  show ?case by (simp add: map_calls ctree_map_check_def)
next
  case (2 P mp M H)
  then show ?case by (cases mp) (auto simp: ctree_map_rep_def map_calls ctree_rep_check)
next
  case (3 H nested P arg)
  then show ?case using ctree_create_rep [of H nested P] by (simp add: map_calls)
next
  case (4 P mp M k v H nested)
  then show ?case using ctree_insert_law [of P "the mp" M k v H nested]
    by (cases mp) (auto simp: ctree_map_rep_def map_calls refused_def)
next
  case (5 P mp M k H nested)
  then show ?case using ctree_remove_law [of P "the mp" M k H nested]
    by (cases mp) (auto simp: ctree_map_rep_def map_calls refused_def)
next
  case (6 P mp M k H)
  then show ?case by (cases mp) (auto simp: ctree_map_rep_def map_calls ctree_get_law)
next
  case (7 P mp M cb H s)
  then show ?case using ctree_foreach_law [of P "the mp" M cb s] by (cases mp) (auto simp: ctree_map_rep_def map_calls)
next
  case (8 P mp M a x)
  then show ?case using ctree_rep_fresh [where P = P and m = "the mp" and M = M and a = a and x = x and q = "root_map P"] by (cases mp) (auto simp: ctree_map_rep_def)
qed

section \<open>Correctness of the crit-bit tree\<close>

abbreviation ctree_ctx :: "'x pobj \<Rightarrow> ('x, 's) map_ctx" where
  "ctree_ctx H \<equiv> \<lparr>ctx_ops = ctree_map_ops H\<rparr>"

lemma example_rep: "ctree_map_rep example_pool (Some 4) [5 \<mapsto> 2, 6 \<mapsto> 3]"
  by (simp add: ctree_map_rep_def example_tree)

definition collect :: "(unit, 64 word list) map_callback" where
  "collect k v ks = xret (0, ks @ [k])"

lemmas example_hyps = example_rep example_value example_fresh example_room

text \<open>
  C6. Inserting a key other than 0 into a crit-bit tree through the map interface: the call returns 0 and
  the tree then holds the map with the key bound to the value, or the library had no room and nothing
  changed.
\<close>

theorem ctree_insert_correct:
  assumes "ctree_map_rep P mp M" "k \<noteq> 0" "is_value (objects P) v" "fresh_alloc H"
  shows "(\<exists>P' acts. map_insert (ctree_ctx H :: ('x, 's) map_ctx) nested P mp k (Some v) = Some (Inr ((0, P'), acts)) \<and>
      ctree_map_rep P' mp (M(k \<mapsto> v)) \<and> root_map P' = root_map P) \<or>
    \<not> has_room H P \<and> map_insert (ctree_ctx H :: ('x, 's) map_ctx) nested P mp k (Some v) = (if nested then tx_abort else rret (1, P))"
  using ctm.insert [OF assms, of nested] unfolding refused_def .

theorem ctree_insert_correct_witness:
  "\<exists>P' acts. map_insert (ctree_ctx example_pobj :: (unit, unit) map_ctx) False example_pool (Some 4) 7 (Some 2) = Some (Inr ((0, P'), acts)) \<and>
    ctree_map_rep P' (Some 4) [5 \<mapsto> 2, 6 \<mapsto> 3, 7 \<mapsto> 2]"
  using ctree_insert_correct [of example_pool "Some 4" "[5 \<mapsto> 2, 6 \<mapsto> 3]" 7 2 example_pobj False] example_hyps by auto

text \<open>
  C19. Removing a key other than 0: the value that the key was bound to is returned, or the null object, and
  the tree then holds the map without the key; when the library had no room for the snapshot nothing
  changed, although the value is returned.
\<close>

theorem ctree_remove_correct:
  assumes "ctree_map_rep P mp M" "k \<noteq> 0"
  shows "(\<exists>P' acts. map_remove (ctree_ctx H :: ('x, 's) map_ctx) nested P mp k = Some (Inr ((M k, P'), acts)) \<and>
      ctree_map_rep P' mp (M(k := None))) \<or>
    \<not> has_room H P \<and> map_remove (ctree_ctx H :: ('x, 's) map_ctx) nested P mp k = (if nested then tx_abort else rret (M k, P))"
  using ctm.remove [OF assms, of H nested] unfolding refused_def .

theorem ctree_remove_correct_witness:
  "\<exists>P' acts. map_remove (ctree_ctx example_pobj :: (unit, unit) map_ctx) False example_pool (Some 4) 5 = Some (Inr ((Some 2, P'), acts)) \<and>
    ctree_map_rep P' (Some 4) [6 \<mapsto> 3]"
proof -
  have [simp]: "[5 \<mapsto> 2, 6 \<mapsto> 3](5 := None) = [6 :: 64 word \<mapsto> 3 :: nat]" by auto
  show ?thesis
    using ctree_remove_correct [of example_pool "Some 4" "[5 \<mapsto> 2, 6 \<mapsto> 3]" 5 example_pobj False] example_hyps by auto
qed

text \<open>
  Reading a key other than 0: \<open>map_get\<close> returns the value of the key or the null object, and \<open>map_lookup\<close>
  whether there is one.
\<close>

lemma ctree_get_correct:
  assumes "ctree_map_rep P mp M" "k \<noteq> 0"
  shows "map_get (ctree_ctx H :: ('x, 's) map_ctx) P mp k = rret (M k) \<and>
    map_lookup (ctree_ctx H :: ('x, 's) map_ctx) P mp k = rret (if k \<in> dom M then 1 else 0)"
proof -
  obtain m where "mp = Some m" "ctree_rep P m M" using assms(1) by (auto simp: ctree_map_rep_def split: option.splits)
  then have "map_lookup (ctree_ctx H :: ('x, 's) map_ctx) P mp k = rret (if k \<in> dom M then 1 else 0)"
    using assms(2) by (auto simp: map_lookup_def map_ctree_lookup_def map_calls ctree_get_law)
  then show ?thesis using ctm.get [OF assms] by simp
qed

lemma ctree_get_correct_example:
  "map_get (ctree_ctx example_pobj :: (unit, unit) map_ctx) example_pool (Some 4) 6 = rret (Some 3)"
  using ctree_get_correct [of example_pool "Some 4" "[5 \<mapsto> 2, 6 \<mapsto> 3]" 6 example_pobj] example_hyps by auto

text \<open>
  C26. A traversal with a callback that never asks to stop calls it on every pair of the map, once, with the
  keys in ascending order.
\<close>

theorem ctree_foreach_ascending:
  assumes "ctree_map_rep P mp M" "goes_on cb"
  shows "\<exists>kvs. map_of kvs = M \<and> sorted_wrt (<) (map fst kvs) \<and>
    map_foreach (ctree_ctx H) P mp cb s = Some (xbind (xfor (visit cb) kvs s) (\<lambda>s'. xret (0, s')))"
  by (rule ctm.foreach [OF assms])

theorem ctree_foreach_ascending_witness:
  "\<exists>kvs. map_of kvs = [5 \<mapsto> 2, 6 \<mapsto> 3] \<and> sorted_wrt (<) (map fst kvs) \<and>
    map_foreach (ctree_ctx example_pobj) example_pool (Some 4) collect [] =
      Some (xbind (xfor (visit collect) kvs []) (\<lambda>s'. xret (0, s')))"
  by (rule ctree_foreach_ascending [OF example_rep]) (simp add: goes_on_def collect_def xret_def)

end
