(* ===== verification/XF_Driver.thy ===== *)
theory XF_Driver
  imports XF_CTreeMap XF_Interface XF_Main
begin

unbundle bit_operations_syntax

text \<open>
  The programs that are run under the detector to test the map workloads, \<open>driver/data_store.c\<close> and
  \<open>driver/data_store_hash.c\<close>: they open a pool, make the map ready, insert items with random keys in
  transactions, each of which adds a failure point, and collect the keys. The messages are the actions on
  the pool and the annotations; what is printed is left out. The tables of the other maps, the pool that the library
  opens, and the random numbers are parameters.
\<close>

section \<open>State\<close>

definition MAX_INSERTS :: nat where "MAX_INSERTS = 500"

record store =
  nkeys :: "64 word"
  keys_array :: "64 word list"

definition store_init :: store where
  "store_init = \<lparr>nkeys = 0, keys_array = replicate MAX_INSERTS 0\<rparr>"

datatype 'x driver_ev = Pool "'x tx_act" | Annot marker

definition rlift :: "('e \<Rightarrow> 'f) \<Rightarrow> ('e, 'a) run \<Rightarrow> ('f, 'a) run" where
  "rlift f r = map_option (xlift f) r"

text \<open>The seven tables.\<close>

record 'x map_tables =
  MAP_CTREE :: "('x, store) map_ops"
  MAP_BTREE :: "('x, store) map_ops"
  MAP_RBTREE :: "('x, store) map_ops"
  MAP_HASHMAP_ATOMIC :: "('x, store) map_ops"
  MAP_HASHMAP_TX :: "('x, store) map_ops"
  MAP_HASHMAP_RP :: "('x, store) map_ops"
  MAP_SKIPLIST :: "('x, store) map_ops"

text \<open>
  What the system and the library answer: \<open>access\<close>, the pool that is created or opened, whether the
  root object is there, whether the context can be allocated, the environment, and the two random numbers
  of each insertion, for the key and for the item. The order of the two calls is not specified.
\<close>

record 'x store_host =
  host_access :: "string \<Rightarrow> int"
  pool_create :: "string \<Rightarrow> 'x pool option"
  pool_open :: "string \<Rightarrow> 'x pool option"
  root_ok :: bool
  calloc_ok :: bool
  host_getenv :: "string \<Rightarrow> string option"
  rands :: "nat \<Rightarrow> int \<times> int"

section \<open>Items and keys\<close>

text \<open>The items have the first type number of their layout.\<close>

definition new_store_item :: "'x pobj \<Rightarrow> int \<Rightarrow> 'x pool \<Rightarrow> ('x tx_act, nat \<times> 'x pool) run" where
  "new_store_item H r P =
     rbind (TX_NEW H (Item 1 (raw_item H)) P) (\<lambda>(item, P1).
     rbind (tx_do (SetItem item (word_of_int r)) P1) (\<lambda>P2.
     rret (item, P2)))"

definition get_keys :: "('x, store) map_callback" where
  "get_keys k v s =
     (if unat (nkeys s) < length (keys_array s)
      then xret (0, s\<lparr>nkeys := nkeys s + 1, keys_array := (keys_array s)[unat (nkeys s) := k]\<rparr>)
      else Inl (UB ''array index''))"

definition dec_keys :: "('x, store) map_callback" where
  "dec_keys k v s = xret (0, s\<lparr>nkeys := nkeys s - 1\<rparr>)"

definition parse_map_type :: "'x map_tables \<Rightarrow> string \<Rightarrow> ('x, store) map_ops option" where
  "parse_map_type T type =
     (if type = ''ctree'' then Some (MAP_CTREE T)
      else if type = ''btree'' then Some (MAP_BTREE T)
      else if type = ''rbtree'' then Some (MAP_RBTREE T)
      else if type = ''hashmap_atomic'' then Some (MAP_HASHMAP_ATOMIC T)
      else if type = ''hashmap_tx'' then Some (MAP_HASHMAP_TX T)
      else if type = ''hashmap_rp'' then Some (MAP_HASHMAP_RP T)
      else if type = ''skiplist'' then Some (MAP_SKIPLIST T)
      else None)"

definition file_exists :: "'x store_host \<Rightarrow> string \<Rightarrow> int" where
  "file_exists E file = host_access E file"

section \<open>The programs\<close>

text \<open>
  A block \<open>TX_BEGIN ... TX_ONABORT { aborted = 1; } TX_END\<close> of the program: when the transaction is aborted
  the pool is what it was before. No annotation comes before an operation that can abort.
\<close>

definition store_tx ::
  "'x pool \<Rightarrow> iface \<Rightarrow> ('e, 'x pool \<times> iface) run \<Rightarrow> ('e, bool \<times> 'x pool \<times> iface) run" where
  "store_tx P I body = Option.bind body (\<lambda>b. case b of
       Inl (Throw s) \<Rightarrow> rret (True, P, I)
     | Inl f \<Rightarrow> Some (Inl f)
     | Inr (PI, es) \<Rightarrow> Some (Inr ((False, PI), es)))"

definition setup_map ::
  "('x, store) map_ctx \<Rightarrow> bool \<Rightarrow> 'x pool \<Rightarrow> iface \<Rightarrow> ('x driver_ev, bool \<times> 'x pool \<times> iface) run" where
  "setup_map mapc exist P I =
     rbind (rlift Pool (map_check mapc P (root_map P))) (\<lambda>c.
     if c \<noteq> 0
     then store_tx P I (rbind (rlift Pool (map_create mapc True P None)) (\<lambda>(_, P1). rret (P1, I)))
     else rret (False, P, I))"

definition setup_map_hash ::
  "('x, store) map_ctx \<Rightarrow> bool \<Rightarrow> 'x pool \<Rightarrow> iface \<Rightarrow> ('x driver_ev, bool \<times> 'x pool \<times> iface) run" where
  "setup_map_hash mapc exist P I =
     store_tx P I
       (if \<not> exist then rbind (rlift Pool (map_create mapc True P None)) (\<lambda>(_, P1). rret (P1, I))
        else rbind (rlift Pool (map_init mapc P (root_map P))) (\<lambda>(_, P1). rret (P1, I)))"

definition insert_item ::
  "('x, store) map_ctx \<Rightarrow> 'x pobj \<Rightarrow> int \<times> int \<Rightarrow> 'x pool \<Rightarrow> iface \<Rightarrow> ('x driver_ev, bool \<times> 'x pool \<times> iface) run" where
  "insert_item mapc H r P I =
     store_tx P I
       (rbind (rlift Pool (new_store_item H (snd r) P)) (\<lambda>(item, P1).
        rbind (rlift Pool (map_insert mapc True P1 (root_map P1) (word_of_int (fst r)) (Some item))) (\<lambda>(_, P2).
        rbind (Some (xlift Annot (XFDetector_addFailurePoint TRACING I))) (\<lambda>I1.
        rret (P2, I1)))))"

fun insert_items ::
  "('x, store) map_ctx \<Rightarrow> 'x pobj \<Rightarrow> (int \<times> int) list \<Rightarrow> 'x pool \<Rightarrow> iface \<Rightarrow> ('x driver_ev, bool \<times> 'x pool \<times> iface) run" where
  "insert_items mapc H [] P I = rret (False, P, I)"
| "insert_items mapc H (r # rs) P I =
     rbind (insert_item mapc H r P I) (\<lambda>(aborted, P1, I1).
     if aborted then rret (True, P1, I1) else insert_items mapc H rs P1 I1)"

text \<open>From the insertions to the end: the function that ends the test may exit the process.\<close>

definition store_work ::
  "('x, store) map_ctx \<Rightarrow> 'x pobj \<Rightarrow> 'x store_host \<Rightarrow> nat \<Rightarrow> 'x pool \<Rightarrow> iface \<Rightarrow>
   ('x driver_ev, int \<times> ('x pool \<times> iface \<times> store) option) run" where
  "store_work mapc H E nops P I =
     rbind (insert_items mapc H (map (rands E) [0..<nops]) P I) (\<lambda>(aborted, P1, I1).
     if aborted then rret (-1, Some (P1, I1, store_init))
     else
       rbind (rlift Pool (map_foreach mapc P1 (root_map P1) get_keys store_init)) (\<lambda>(_, s).
       rbind (Some (xlift Annot (XFDetector_RoIEnd TRACING (PRE_FAILURE OR POST_FAILURE) I1))) (\<lambda>I2.
       rbind (Some (xlift Annot (XFDetector_complete (host_getenv E) TRACING (PRE_FAILURE OR POST_FAILURE) I2))) (\<lambda>I3.
       rret (case exited I3 of Some c \<Rightarrow> c | None \<Rightarrow> 0, Some (P1, I3, s))))))"

text \<open>With the pool open.\<close>

definition store_run ::
  "(('x, store) map_ctx \<Rightarrow> bool \<Rightarrow> 'x pool \<Rightarrow> iface \<Rightarrow> ('x driver_ev, bool \<times> 'x pool \<times> iface) run) \<Rightarrow>
   ('x, store) map_ops \<Rightarrow> 'x pobj \<Rightarrow> 'x store_host \<Rightarrow> nat \<Rightarrow> bool \<Rightarrow> 'x pool \<Rightarrow>
   ('x driver_ev, int \<times> ('x pool \<times> iface \<times> store) option) run" where
  "store_run setup ops H E nops exist P =
     rbind (Some (xlift Annot (XFDetector_RoIBegin TRACING (PRE_FAILURE OR POST_FAILURE) iface_init))) (\<lambda>I.
     if \<not> root_ok E then rub ''null object'' else
     case map_ctx_init (Some ops) (calloc_ok E) of
       None \<Rightarrow> rret (1, Some (P, I, store_init))
     | Some mapc \<Rightarrow>
         rbind (setup mapc exist P I) (\<lambda>(aborted, P1, I1).
         if aborted then rret (-1, Some (P1, I1, store_init))
         else store_work mapc H E nops P1 I1))"

definition store_main ::
  "(('x, store) map_ctx \<Rightarrow> bool \<Rightarrow> 'x pool \<Rightarrow> iface \<Rightarrow> ('x driver_ev, bool \<times> 'x pool \<times> iface) run) \<Rightarrow>
   'x map_tables \<Rightarrow> 'x pobj \<Rightarrow> 'x store_host \<Rightarrow> string list \<Rightarrow>
   ('x driver_ev, int \<times> ('x pool \<times> iface \<times> store) option) run" where
  "store_main setup T H E argv =
     (if length argv < 3 then rret (1, None)
      else case parse_map_type T (argv ! 1) of
        None \<Rightarrow> rret (1, None)
      | Some ops \<Rightarrow>
          let nops = (if length argv > 3 then atoi (argv ! 3) else int MAX_INSERTS)
          in if nops \<le> 0 \<or> nops > int MAX_INSERTS then rret (1, None)
             else if file_exists E (argv ! 2) \<noteq> 0
             then (case pool_create E (argv ! 2) of
                     None \<Rightarrow> rret (1, None)
                   | Some P \<Rightarrow> store_run setup ops H E (nat nops) False P)
             else (case pool_open E (argv ! 2) of
                     None \<Rightarrow> rret (1, None)
                   | Some P \<Rightarrow> store_run setup ops H E (nat nops) True P))"

definition data_store_main where
  "data_store_main = store_main setup_map"

definition data_store_hash_main where
  "data_store_hash_main = store_main setup_map_hash"

section \<open>Messages\<close>

definition annots :: "'x driver_ev list \<Rightarrow> marker list" where
  "annots es = concat (map (\<lambda>e. case e of Annot m \<Rightarrow> [m] | Pool a \<Rightarrow> []) es)"

definition pool_acts :: "'x driver_ev list \<Rightarrow> 'x tx_act list" where
  "pool_acts es = concat (map (\<lambda>e. case e of Annot m \<Rightarrow> [] | Pool a \<Rightarrow> [a]) es)"

lemma annots_simps [simp]:
  "annots [] = []" "annots (xs @ ys) = annots xs @ annots ys" "annots (Annot m # es) = m # annots es"
  "annots (Pool a # es) = annots es"
  by (simp_all add: annots_def)

lemma annots_map [simp]: "annots (map Pool as) = []" "annots (map Annot ms) = ms"
  by (simp_all add: annots_def comp_def)

lemma pool_acts_simps [simp]:
  "pool_acts [] = []" "pool_acts (xs @ ys) = pool_acts xs @ pool_acts ys" "pool_acts (Annot m # es) = pool_acts es"
  "pool_acts (Pool a # es) = a # pool_acts es"
  by (simp_all add: pool_acts_def)

lemma pool_acts_map [simp]: "pool_acts (map Pool as) = as" "pool_acts (map Annot ms) = []"
  by (simp_all add: pool_acts_def comp_def)

lemma rlift_simps [simp]:
  "rlift f (Some (Inr (x, es))) = Some (Inr (x, map f es))" "rlift f (Some (Inl e)) = Some (Inl e)"
  "rlift f tx_abort = tx_abort" "rlift f (rret x) = rret x" "rlift f (Some (xret x)) = rret x"
  by (simp_all add: rlift_def xlift_def tx_abort_def rret_def xret_def)

lemma store_tx_simps [simp]:
  "store_tx P I tx_abort = rret (True, P, I)" "store_tx P I (Some (Inr (PI, es))) = Some (Inr ((False, PI), es))"
  by (simp_all add: store_tx_def tx_abort_def)

definition point_marker :: marker where
  "point_marker = Marker ''_add_failure_point'' []"

lemma add_point:
  "has_completed I = INCOMPLETE \<Longrightarrow> xlift Annot (XFDetector_addFailurePoint TRACING I) =
     Inr (I\<lparr>additional_failure_point_count := additional_failure_point_count I + 1\<rparr>, [Annot point_marker])"
  by (simp add: XFDetector_addFailurePoint_def assert_incomplete_def xassert_def add_failure_point_def iface_consts
      xlift_def point_marker_def)

text \<open>The pool with a new item.\<close>

definition with_item :: "nat \<Rightarrow> int \<Rightarrow> 'x pool \<Rightarrow> 'x pool" where
  "with_item a r P = P\<lparr>objects := (objects P)(a \<mapsto> Item 1 (word_of_int r))\<rparr>"

lemma new_item_run:
  "new_store_item H r P = (case tx_alloc H P of
       None \<Rightarrow> tx_abort
     | Some a \<Rightarrow> Some (Inr ((a, with_item a r P), [TxNew a (Item 1 (raw_item H)), SetItem a (word_of_int r)])))"
  by (cases "tx_alloc H P") (simp_all add: new_store_item_def TX_NEW_run tx_do_def with_item_def)

text \<open>The library has no room for a new item, or for its insertion into the map.\<close>

definition full :: "('x pobj \<Rightarrow> 'x pool \<Rightarrow> PMEMoid \<Rightarrow> bool) \<Rightarrow> 'x pobj \<Rightarrow> int \<Rightarrow> 'x pool \<Rightarrow> bool" where
  "full room H r P \<longleftrightarrow> (case tx_alloc H P of None \<Rightarrow> True | Some a \<Rightarrow> \<not> room H (with_item a r P) (root_map P))"

text \<open>The thread after a number of failure points.\<close>

definition points :: "nat \<Rightarrow> iface \<Rightarrow> iface" where
  "points n I = I\<lparr>additional_failure_point_count := additional_failure_point_count I + of_nat n\<rparr>"

lemma points_simps [simp]:
  "points 0 I = I" "points n (points m I) = points (m + n) I" "has_completed (points n I) = has_completed I"
  "trace_status (points n I) = trace_status I"
  by (simp_all add: points_def algebra_simps)

lemma points_1: "I\<lparr>additional_failure_point_count := additional_failure_point_count I + 1\<rparr> = points 1 I"
  by (simp add: points_def)

text \<open>The array of the keys after the traversal of a map.\<close>

definition collected :: "64 word list \<Rightarrow> store" where
  "collected ks = \<lparr>nkeys = of_nat (length ks), keys_array = ks @ replicate (MAX_INSERTS - length ks) 0\<rparr>"

lemma get_keys_goes_on [simp]: "goes_on get_keys"
  by (auto simp: goes_on_def get_keys_def xret_def split: if_splits)

lemma collected_step:
  assumes "length ks \<le> MAX_INSERTS"
  shows "visit get_keys (k, v) (collected ks) =
    (if length ks < MAX_INSERTS then xret (collected (ks @ [k])) else Inl (UB ''array index''))"
proof -
  have n: "unat (of_nat (length ks) :: 64 word) = length ks"
    using assms by (simp add: unat_of_nat take_bit_nat_eq_self MAX_INSERTS_def)
  have "(ks @ replicate (MAX_INSERTS - length ks) 0)[length ks := k] = (ks @ [k]) @ replicate (MAX_INSERTS - length (ks @ [k])) 0"
    if "length ks < MAX_INSERTS"
    using that by (simp add: list_update_append flip: Suc_diff_Suc)
  then show ?thesis using assms n
    by (auto simp: visit_def get_keys_def collected_def xret_def)
qed

lemma collect_all:
  "length ks + length kvs \<le> MAX_INSERTS \<Longrightarrow> xfor (visit get_keys) kvs (collected ks) = xret (collected (ks @ map fst kvs))"
  "length ks \<le> MAX_INSERTS \<Longrightarrow> \<not> length ks + length kvs \<le> MAX_INSERTS \<Longrightarrow>
     xfor (visit get_keys) kvs (collected ks) = Inl (UB ''array index'')"
proof (induction kvs arbitrary: ks)
  case (Cons kv kvs)
  { case 1 then show ?case using Cons.IH(1) [of "ks @ [fst kv]"] by (cases kv) (simp add: collected_step) }
  { case 2 then show ?case using Cons.IH(2) [of "ks @ [fst kv]"] by (cases kv) (simp add: collected_step) }
qed simp_all

lemma collected_init: "collected [] = store_init"
  by (simp add: collected_def store_init_def)

lemmas collect_init = collect_all [of "[]", unfolded collected_init, simplified]

text \<open>The annotations at the beginning and at the end of the program.\<close>

definition roi_begin :: "marker list" where
  "roi_begin = [Marker ''_roi_pre_begin'' [], Marker ''_roi_post_begin'' []]"

definition roi_end :: "marker list" where
  "roi_end = [Marker ''_roi_pre_end'' [], Marker ''_roi_post_end'' [],
     Marker ''_testing_pre_complete'' [], Marker ''_testing_post_complete'' []]"

definition tracing :: iface where
  "tracing = iface_init\<lparr>trace_status := TRACING\<rparr>"

definition ended :: "iface \<Rightarrow> iface" where
  "ended I = I\<lparr>trace_status := NOT_TRACING, has_completed := COMPLETE, exited := Some 0\<rparr>"

lemmas iface_defs = by_stage_def assert_incomplete_def xassert_def iface_consts PRE_FAILURE_def POST_FAILURE_def
  xlift_def xret_def

lemma begin_run:
  "xlift Annot (XFDetector_RoIBegin TRACING (PRE_FAILURE OR POST_FAILURE) iface_init) = Inr (tracing, map Annot roi_begin)"
  by (simp add: XFDetector_RoIBegin_def roi_pre_begin_def roi_post_begin_def iface_init_def tracing_def roi_begin_def iface_defs)

lemma end_run:
  assumes "trace_status I = TRACING" "has_completed I = INCOMPLETE"
  shows "rbind (Some (xlift Annot (XFDetector_RoIEnd TRACING (PRE_FAILURE OR POST_FAILURE) I))) (\<lambda>I2.
      rbind (Some (xlift Annot (XFDetector_complete env TRACING (PRE_FAILURE OR POST_FAILURE) I2))) k) =
    map_option (xemit (map Annot roi_end)) (k (ended I))"
  using assms
  by (simp add: XFDetector_RoIEnd_def XFDetector_complete_def roi_pre_end_def roi_post_end_def testing_pre_complete_def
      testing_post_complete_def cur_stage_def ended_def roi_end_def iface_defs option.map_comp comp_def)

text \<open>
  What a run of the insertions and the rest of the program gives, from a map \<open>M\<close>: the first \<open>n\<close>
  insertions were made; the program ends there with -1 when the library is full; otherwise the keys of the map are
  in the array, in the order of the map, and too many of them overflow it.
\<close>

definition key_of :: "int \<times> int \<Rightarrow> 64 word" where
  "key_of r = word_of_int (fst r)"

definition store_result ::
  "('x pool \<Rightarrow> PMEMoid \<Rightarrow> (64 word \<rightharpoonup> nat) \<Rightarrow> bool) \<Rightarrow> ('x pobj \<Rightarrow> 'x pool \<Rightarrow> PMEMoid \<Rightarrow> bool) \<Rightarrow> (64 word list \<Rightarrow> bool) \<Rightarrow> 'x pobj \<Rightarrow> (int \<times> int) list \<Rightarrow> (64 word \<rightharpoonup> nat) \<Rightarrow> marker list \<Rightarrow>
   ('x driver_ev, int \<times> ('x pool \<times> iface \<times> store) option) run \<Rightarrow> bool" where
  "store_result rep room order H rs M ms m \<longleftrightarrow>
     (\<exists>n P' M' ks es. n \<le> length rs \<and> rep P' (root_map P') M' \<and> dom M' = dom M \<union> key_of ` set (take n rs) \<and>
        distinct ks \<and> set ks = dom M' \<and> order ks \<and>
        (if n < length rs
         then full room H (snd (rs ! n)) P' \<and> m = Some (Inr ((-1, Some (P', points n tracing, store_init)), es)) \<and>
           annots es = ms @ replicate n point_marker
         else if length ks > MAX_INSERTS then m = Some (Inl (UB ''array index''))
         else m = Some (Inr ((0, Some (P', ended (points n tracing), collected ks)), es)) \<and>
           annots es = ms @ replicate n point_marker @ roi_end))"

lemma store_result_emit:
  "store_result rep room order H rs M ms m \<Longrightarrow> store_result rep room order H rs M (annots es @ ms) (map_option (xemit es) m)"
  unfolding store_result_def
  by (elim exE, rule_tac x = n in exI, rule_tac x = P' in exI, rule_tac x = M' in exI, rule_tac x = ks in exI, rule_tac x = "es @ esa" in exI)
    (auto split: if_splits)

section \<open>Programs over any map\<close>

locale store_map = map_base ops rep key_ok fits room order
  for ops :: "'x pobj \<Rightarrow> ('x, store) map_ops" and rep key_ok fits room order
begin

lemma insert_item_law:
  assumes "rep P (root_map P) M" "key_ok (key_of r)" "fits (Suc (card (dom M)))" "fresh_alloc H" "has_completed I = INCOMPLETE"
  shows "(\<exists>P' es M'. insert_item \<lparr>ctx_ops = ops H\<rparr> H r P I = Some (Inr ((False, P', points 1 I), es)) \<and>
      rep P' (root_map P') M' \<and> dom M' = insert (key_of r) (dom M) \<and> annots es = [point_marker]) \<or>
    full room H (snd r) P \<and> insert_item \<lparr>ctx_ops = ops H\<rparr> H r P I = rret (True, P, I)"
proof (cases "tx_alloc H P")
  case None
  then show ?thesis by (simp add: insert_item_def new_item_run full_def)
next
  case (Some a)
  let ?Q = "with_item a (snd r) P"
  have free: "objects P a = None" using Some assms(4) by (simp add: fresh_alloc_def)
  have Q: "rep ?Q (root_map ?Q) M" "is_value (objects ?Q) a" "root_map ?Q = root_map P"
    using new_item [OF assms(1) free] by (simp_all add: with_item_def is_value_def)
  from insert_key [OF Q(1) assms(2,3) Q(2) assms(4)]
  consider x P' acts M' where "map_insert \<lparr>ctx_ops = ops H\<rparr> True ?Q (root_map ?Q) (key_of r) (Some a) = Some (Inr ((x, P'), acts))"
      "rep P' (root_map ?Q) M'" "root_map P' = root_map ?Q" "dom M' = insert (key_of r) (dom M)"
    | "\<not> room H ?Q (root_map ?Q)" "map_insert \<lparr>ctx_ops = ops H\<rparr> True ?Q (root_map ?Q) (key_of r) (Some a) = tx_abort"
    by blast
  then show ?thesis
  proof cases
    case 1
    have "insert_item \<lparr>ctx_ops = ops H\<rparr> H r P I =
        Some (Inr ((False, P', I\<lparr>additional_failure_point_count := additional_failure_point_count I + 1\<rparr>),
          map Pool [TxNew a (Item 1 (raw_item H)), SetItem a (word_of_int (snd r))] @ map Pool acts @ [Annot point_marker]))"
      by (simp add: insert_item_def new_item_run Some 1(1) [unfolded key_of_def] add_point [OF assms(5)])
    then show ?thesis using 1(2-4) unfolding points_1 by fastforce
  next
    case 2
    then show ?thesis using Some Q(3) by (simp add: insert_item_def new_item_run full_def key_of_def)
  qed
qed

lemma insert_items_law:
  assumes "rep P (root_map P) M" "\<forall>r \<in> set rs. key_ok (key_of r)" "fits (card (dom M) + length rs)" "fresh_alloc H"
    and "has_completed I = INCOMPLETE"
  shows "\<exists>n P' M' es. n \<le> length rs \<and> rep P' (root_map P') M' \<and> dom M' = dom M \<union> key_of ` set (take n rs) \<and>
    insert_items \<lparr>ctx_ops = ops H\<rparr> H rs P I = Some (Inr ((n < length rs, P', points n I), es)) \<and>
    annots es = replicate n point_marker \<and> (n < length rs \<longrightarrow> full room H (snd (rs ! n)) P')"
  using assms
proof (induction rs arbitrary: P M I)
  case Nil
  then show ?case by (auto simp: rret_def xret_def)
next
  case (Cons r rs)
  have "key_ok (key_of r)" "fits (Suc (card (dom M)))" using Cons.prems(2,3) by (auto elim: fits_le)
  from insert_item_law [OF Cons.prems(1) this Cons.prems(4,5)]
  consider P1 es1 M1 where "insert_item \<lparr>ctx_ops = ops H\<rparr> H r P I = Some (Inr ((False, P1, points 1 I), es1))"
      "rep P1 (root_map P1) M1" "dom M1 = insert (key_of r) (dom M)" "annots es1 = [point_marker]"
    | "full room H (snd r) P" "insert_item \<lparr>ctx_ops = ops H\<rparr> H r P I = rret (True, P, I)" by blast
  then show ?case
  proof cases
    case 1
    have "card (dom M1) \<le> Suc (card (dom M))" unfolding 1(3) using finite_rep [OF Cons.prems(1)] by (simp add: card_insert_if)
    then have f: "fits (card (dom M1) + length rs)" using fits_le [OF Cons.prems(3)] by simp
    have "\<forall>r \<in> set rs. key_ok (key_of r)" "has_completed (points 1 I) = INCOMPLETE" using Cons.prems(2,5) by simp_all
    from Cons.IH [OF 1(2) this(1) f Cons.prems(4) this(2)] obtain n P' M' es where 2: "n \<le> length rs" "rep P' (root_map P') M'" "dom M' = dom M1 \<union> key_of ` set (take n rs)"
      "insert_items \<lparr>ctx_ops = ops H\<rparr> H rs P1 (points 1 I) = Some (Inr ((n < length rs, P', points n (points 1 I)), es))"
      "annots es = replicate n point_marker" "n < length rs \<longrightarrow> full room H (snd (rs ! n)) P'"
      by blast
    have "insert_items \<lparr>ctx_ops = ops H\<rparr> H (r # rs) P I =
        Some (Inr ((Suc n < length (r # rs), P', points (Suc n) I), es1 @ es))"
      using 1(1) 2(4) by simp
    then show ?thesis using 1(3,4) 2
      by (intro exI [of _ "Suc n"] exI [of _ P'] exI [of _ M'] exI [of _ "es1 @ es"]) auto
  next
    case 2
    then show ?thesis using Cons.prems(1)
      by (intro exI [of _ 0] exI [of _ P] exI [of _ M] exI [of _ "[]"]) (simp add: rret_def xret_def)
  qed
qed

lemma store_work_law:
  assumes "rep P (root_map P) M" "\<forall>i < nops. key_ok (key_of (rands E i))" "fits (card (dom M) + nops)" "fresh_alloc H"
  shows "store_result rep room order H (map (rands E) [0..<nops]) M [] (store_work \<lparr>ctx_ops = ops H\<rparr> H E nops P tracing)"
proof -
  let ?rs = "map (rands E) [0..<nops]" and ?m = "store_work \<lparr>ctx_ops = ops H\<rparr> H E nops P tracing"
  have "\<forall>r \<in> set ?rs. key_ok (key_of r)" "fits (card (dom M) + length ?rs)" "has_completed tracing = INCOMPLETE"
    using assms(2,3) by (auto simp: tracing_def iface_init_def)
  from insert_items_law [OF assms(1) this(1,2) assms(4) this(3)]
  obtain n P' M' es where 1: "n \<le> length ?rs" "rep P' (root_map P') M'" "dom M' = dom M \<union> key_of ` set (take n ?rs)"
    "insert_items \<lparr>ctx_ops = ops H\<rparr> H ?rs P tracing = Some (Inr ((n < length ?rs, P', points n tracing), es))"
    "annots es = replicate n point_marker" "n < length ?rs \<longrightarrow> full room H (snd (?rs ! n)) P'" by blast
  have I: "trace_status (points n tracing) = TRACING" "has_completed (points n tracing) = INCOMPLETE"
    by (simp_all add: tracing_def iface_init_def)
  obtain kvs where kvs: "map_of kvs = M'" "distinct (map fst kvs)" "order (map fst kvs)"
    "map_foreach \<lparr>ctx_ops = ops H\<rparr> P' (root_map P') get_keys store_init =
      Some (xbind (xfor (visit get_keys) kvs store_init) (\<lambda>s'. xret (0, s')))"
    using foreach_key [OF 1(2) get_keys_goes_on] by blast
  define ks where "ks = map fst kvs"
  have ks: "distinct ks" "set ks = dom M'" "order ks" "length ks = length kvs"
    using kvs(2,3) dom_map_of_conv_image_fst [of kvs] unfolding kvs(1) ks_def by simp_all
  have e: "exited (ended I) = Some 0" for I by (simp add: ended_def)
  have full: "?m = Some (Inr ((-1, Some (P', points n tracing, store_init)), es))" if "n < length ?rs"
    using that by (simp add: store_work_def 1(4))
  have over: "?m = Some (Inl (UB ''array index''))" if "\<not> n < length ?rs" "length ks > MAX_INSERTS"
    using that by (simp add: store_work_def 1(4) kvs(4) collect_init ks(4))
  have finish: "?m = Some (Inr ((0, Some (P', ended (points n tracing), collected ks)), es @ map Annot roi_end))"
    if "\<not> n < length ?rs" "\<not> length ks > MAX_INSERTS"
    using that by (simp add: store_work_def 1(4) kvs(4) collect_init ks(4) end_run [OF I] e) (simp add: ks_def)
  show ?thesis
  proof (cases "n < length ?rs \<or> length ks > MAX_INSERTS")
    case True
    then show ?thesis unfolding store_result_def using 1(1-3,5,6) full over ks(1-3)
      by (intro exI [of _ n] exI [of _ P'] exI [of _ M'] exI [of _ ks] exI [of _ es]) auto
  next
    case False
    then have "\<not> n < length ?rs" "\<not> length ks > MAX_INSERTS" by simp_all
    note f = this finish [OF this]
    have "annots (es @ map Annot roi_end) = [] @ replicate n point_marker @ roi_end" using 1(5) by simp
    with f show ?thesis unfolding store_result_def using 1(1-3) ks(1-3)
      by (intro exI [of _ n] exI [of _ P'] exI [of _ M'] exI [of _ ks] exI [of _ "es @ map Annot roi_end"]) (simp only: if_False simp_thms)
  qed
qed

text \<open>The whole run: once the map is ready, or when it cannot be made ready.\<close>

lemma store_run_ready:
  assumes "setup \<lparr>ctx_ops = ops H\<rparr> exist P tracing = Some (Inr ((False, P1, tracing), es))" "annots es = []" "rep P1 (root_map P1) M"
    and "\<forall>i < nops. key_ok (key_of (rands E i))" "fits (card (dom M) + nops)" "fresh_alloc H" "root_ok E" "calloc_ok E"
  shows "store_result rep room order H (map (rands E) [0..<nops]) M roi_begin (store_run setup (ops H) H E nops exist P)"
proof -
  have "store_run setup (ops H) H E nops exist P = map_option (xemit (map Annot roi_begin @ es)) (store_work \<lparr>ctx_ops = ops H\<rparr> H E nops P1 tracing)"
    using assms(1,7,8) by (simp add: store_run_def begin_run map_ctx_init_def option.map_comp comp_def)
  then show ?thesis
    using store_result_emit [OF store_work_law [OF assms(3-6)], of "map Annot roi_begin @ es"] assms(2) by simp
qed

lemma store_run_aborted:
  assumes "setup \<lparr>ctx_ops = ops H\<rparr> exist P tracing = rret (True, P, tracing)" "root_ok E" "calloc_ok E"
  shows "store_run setup (ops H) H E nops exist P = Some (Inr ((-1, Some (P, tracing, store_init)), map Annot roi_begin))"
  using assms by (simp add: store_run_def begin_run map_ctx_init_def)

text \<open>A map that is there is used.\<close>

lemma setup_map_there: "rep P (root_map P) M \<Longrightarrow> setup_map \<lparr>ctx_ops = ops H\<rparr> exist P I = Some (Inr ((False, P, I), []))"
  by (simp add: setup_map_def check_some rret_def xret_def)

lemma setup_map_none:
  assumes "root_map P = None"
  shows "setup_map \<lparr>ctx_ops = ops H\<rparr> exist P I =
    store_tx P I (rbind (rlift Pool (map_create \<lparr>ctx_ops = ops H\<rparr> True P None)) (\<lambda>(_, P1). rret (P1, I)))"
  using assms by (simp add: setup_map_def check_none)

end

interpretation cts: store_map ctree_map_ops ctree_map_rep "\<lambda>k. k \<noteq> 0" "\<lambda>_. True" "\<lambda>H P mp. has_room H P" "sorted_wrt (<)"
  by unfold_locales

abbreviation ctree_result ::
  "'x pobj \<Rightarrow> (int \<times> int) list \<Rightarrow> (64 word \<rightharpoonup> nat) \<Rightarrow> marker list \<Rightarrow> ('x driver_ev, int \<times> ('x pool \<times> iface \<times> store) option) run \<Rightarrow> bool" where
  "ctree_result \<equiv> store_result ctree_map_rep (\<lambda>H P mp. has_room H P) (sorted_wrt (<))"

text \<open>A pool that has a tree, or none yet.\<close>

lemma ctree_store_run:
  assumes "root_map P = None \<and> M = Map.empty \<or> ctree_map_rep P (root_map P) M" "\<forall>i < nops. key_of (rands E i) \<noteq> 0" "fresh_alloc H"
    and "root_ok E" "calloc_ok E"
  shows "ctree_result H (map (rands E) [0..<nops]) M roi_begin (store_run setup_map (ctree_map_ops H) H E nops exist P) \<or>
    root_map P = None \<and> \<not> has_room H P \<and>
      store_run setup_map (ctree_map_ops H) H E nops exist P = Some (Inr ((-1, Some (P, tracing, store_init)), map Annot roi_begin))"
proof -
  let ?c = "ctree_ctx H :: (_, store) map_ctx"
  consider "ctree_map_rep P (root_map P) M"
    | P1 acts where "root_map P = None" "map_create ?c True P None = Some (Inr ((0, P1), acts))" "ctree_map_rep P1 (root_map P1) M"
    | "root_map P = None" "\<not> has_room H P" "map_create ?c True P None = tx_abort"
    using assms(1) ctm.create [OF assms(3), of True P None] by (auto simp: refused_def)
  then show ?thesis
  proof cases
    case 1
    then show ?thesis
      using cts.store_run_ready [of setup_map, OF cts.setup_map_there [OF 1, of H exist tracing] _ 1] assms(2-5) by simp
  next
    case 2
    have "setup_map ?c exist P tracing = Some (Inr ((False, P1, tracing), map Pool acts))"
      using 2(2) by (simp add: cts.setup_map_none [OF 2(1)])
    from cts.store_run_ready [of setup_map, OF this _ 2(3)] show ?thesis using assms(2-5) by simp
  next
    case 3
    have "setup_map ?c exist P tracing = rret (True, P, tracing)" using 3(3) by (simp add: cts.setup_map_none [OF 3(1)])
    from cts.store_run_aborted [of setup_map, OF this assms(4,5)] show ?thesis using 3(1,2) by simp
  qed
qed

section \<open>Crashes of the program\<close>

lemma rlift_eq_Inr: "rlift f r = Some (Inr (x, es)) \<longleftrightarrow> (\<exists>es'. r = Some (Inr (x, es')) \<and> es = map f es')"
proof (cases r)
  case (Some b)
  then show ?thesis by (cases b) (auto simp: rlift_def xlift_def)
qed (simp add: rlift_def)

lemma store_tx_eq_Inr:
  assumes "store_tx P I body = Some (Inr ((aborted, P', I'), es))"
  shows "body = Some (Inr ((P', I'), es)) \<or> P' = P \<and> es = []"
proof (cases body)
  case (Some b)
  with assms show ?thesis
    by (cases b) (auto simp: store_tx_def rret_def xret_def split: xf_fail.splits)
qed (use assms in \<open>simp add: store_tx_def\<close>)

lemma ctree_map_insert_acts:
  assumes "map_insert (ctree_ctx H) nested P mp k v = Some (Inr ((x, P'), acts))"
  shows "fold apply_act acts P = P' \<and> protected [] [] acts"
proof (cases mp)
  case (Some m)
  then have "ctree_map_insert H nested P m k v = Some (Inr ((x, P'), acts))" using assms by (simp add: map_calls)
  then show ?thesis using safe_insert [of P H nested m k v] unfolding safe_op_def by blast
qed (use assms in \<open>simp add: map_calls rub_def\<close>)

lemma insert_item_protected:
  assumes ins: "\<And>P mp k v x P' acts. map_insert mapc True P mp k v = Some (Inr ((x, P'), acts)) \<Longrightarrow> fold apply_act acts P = P' \<and> protected [] [] acts"
    and run: "insert_item mapc H r P I = Some (Inr ((aborted, P', I'), es))"
  shows "fold apply_act (pool_acts es) P = P' \<and> protected [] [] (pool_acts es)"
  using store_tx_eq_Inr [OF run [unfolded insert_item_def]]
proof
  assume body: "rbind (rlift Pool (new_store_item H (snd r) P)) (\<lambda>(item, P1).
        rbind (rlift Pool (map_insert mapc True P1 (root_map P1) (word_of_int (fst r)) (Some item))) (\<lambda>(_, P2).
        rbind (Some (xlift Annot (XFDetector_addFailurePoint TRACING I))) (\<lambda>I1. rret (P2, I1)))) = Some (Inr ((P', I'), es))"
  then obtain a where a: "tx_alloc H P = Some a" by (cases "tx_alloc H P") (auto simp: new_item_run tx_abort_def)
  let ?Q = "with_item a (snd r) P"
  obtain x acts ms where call: "map_insert mapc True ?Q (root_map ?Q) (word_of_int (fst r)) (Some a) = Some (Inr ((x, P'), acts))"
    and es: "es = map Pool [TxNew a (Item 1 (raw_item H)), SetItem a (word_of_int (snd r))] @ map Pool acts @ map Annot ms"
    using body by (auto simp: new_item_run a rbind_eq_Some xlift_eq_Inr rlift_eq_Inr xemit_eq_Inr)
  note acts = ins [OF call]
  have "apply_act (SetItem a (word_of_int (snd r))) (apply_act (TxNew a (Item 1 (raw_item H))) P) = ?Q" by (simp add: with_item_def)
  moreover have "protected [] [a] acts" by (rule protected_mono [of "[]" "[]"]) (use acts in simp_all)
  ultimately show ?thesis using acts by (simp add: es)
qed simp

lemma insert_item_acts:
  assumes "insert_item (ctree_ctx H) H r P I = Some (Inr ((aborted, P', I'), es))"
  shows "fold apply_act (pool_acts es) P = P' \<and> protected [] [] (pool_acts es)"
  by (rule insert_item_protected [OF _ assms]) (rule ctree_map_insert_acts)

section \<open>Correctness of the program\<close>

text \<open>The pool that the program opens or creates.\<close>

definition opened :: "'x store_host \<Rightarrow> string \<Rightarrow> 'x pool option" where
  "opened E path = (if file_exists E path \<noteq> 0 then pool_create E path else pool_open E path)"

text \<open>The program runs on the crit-bit tree with nonzero keys, and has its root object and its context.\<close>

definition good_host :: "'x map_tables \<Rightarrow> 'x pobj \<Rightarrow> 'x store_host \<Rightarrow> nat \<Rightarrow> bool" where
  "good_host T H E n \<longleftrightarrow> MAP_CTREE T = ctree_map_ops H \<and> fresh_alloc H \<and> root_ok E \<and> calloc_ok E \<and>
     0 < n \<and> n \<le> MAX_INSERTS \<and> (\<forall>i < n. key_of (rands E i) \<noteq> 0)"

lemma data_store_run:
  assumes "good_host T H E n" "opened E path = Some P"
    and "root_map P = None \<and> M = Map.empty \<or> ctree_map_rep P (root_map P) M"
  shows "ctree_result H (map (rands E) [0..<n]) M roi_begin (data_store_main T H E [prog, ''ctree'', path, to_string (int n)]) \<or>
    root_map P = None \<and> \<not> has_room H P \<and>
      data_store_main T H E [prog, ''ctree'', path, to_string (int n)] = Some (Inr ((-1, Some (P, tracing, store_init)), map Annot roi_begin))"
proof -
  have h: "MAP_CTREE T = ctree_map_ops H" "fresh_alloc H" "root_ok E" "calloc_ok E" "0 < n" "n \<le> MAX_INSERTS"
    "\<forall>i < n. key_of (rands E i) \<noteq> 0" using assms(1) by (simp_all add: good_host_def)
  have "data_store_main T H E [prog, ''ctree'', path, to_string (int n)] =
      store_run setup_map (ctree_map_ops H) H E n (\<not> file_exists E path \<noteq> 0) P"
    using h(1,5,6) assms(2) unfolding data_store_main_def store_main_def
    by (simp add: parse_map_type_def atoi_to_string opened_def numeral_nat split: if_splits)
  then show ?thesis using ctree_store_run [OF assms(3) h(7,2,3,4), of "\<not> file_exists E path \<noteq> 0"] by simp
qed

text \<open>
  The second program initialises the map of a pool that exists, which the crit-bit tree has no function for:
  it can create a tree, but never open one again.
\<close>

lemma hash_cannot_reopen:
  assumes "good_host T H E n" "file_exists E path = 0" "pool_open E path = Some P"
  shows "data_store_hash_main T H E [prog, ''ctree'', path, to_string (int n)] = Some (Inl (Exit 1))"
  using assms unfolding good_host_def data_store_hash_main_def store_main_def
  by (simp add: parse_map_type_def atoi_to_string numeral_nat store_run_def begin_run map_ctx_init_def setup_map_hash_def
      map_init_def ABORT_NOT_IMPLEMENTED_def ctree_map_ops_def store_tx_def)

definition example_tables :: "unit map_tables" where
  "example_tables = (let t = ctree_map_ops example_pobj in
     \<lparr>MAP_CTREE = t, MAP_BTREE = t, MAP_RBTREE = t, MAP_HASHMAP_ATOMIC = t, MAP_HASHMAP_TX = t, MAP_HASHMAP_RP = t, MAP_SKIPLIST = t\<rparr>)"

definition example_host :: "unit pool \<Rightarrow> unit store_host" where
  "example_host P = \<lparr>host_access = (\<lambda>_. 0), pool_create = (\<lambda>_. None), pool_open = (\<lambda>_. Some P), root_ok = True, calloc_ok = True,
     host_getenv = (\<lambda>_. None), rands = (\<lambda>i. (int i + 7, 1))\<rparr>"

lemma example_good_host: "good_host example_tables example_pobj (example_host P) 2" "opened (example_host P) path = Some P"
  by (auto simp: good_host_def example_tables_def example_host_def Let_def MAX_INSERTS_def key_of_def opened_def
      file_exists_def example_fresh less_2_cases_iff)

definition example_rooted :: "unit pool" where
  "example_rooted = example_pool\<lparr>root_map := Some 4\<rparr>"

lemma example_pobj_room: "objects Q a = None \<Longrightarrow> 1 \<le> a \<Longrightarrow> a < 100 \<Longrightarrow> has_room example_pobj Q"
  by (auto simp: has_room_def example_pobj_def find_None_iff)

lemma ctree_rep_root [simp]: "ctree_rep (P\<lparr>root_map := q\<rparr>) m M = ctree_rep P m M"
  by (simp add: ctree_rep_def empty_rep_def tree_rep_def)

lemma example_crash:
  "ctree_map_rep example_rooted (root_map example_rooted) [5 \<mapsto> 2, 6 \<mapsto> 3]"
  "\<exists>P' I' es. insert_item (ctree_ctx example_pobj) example_pobj (7, 1) example_rooted tracing = Some (Inr ((False, P', I'), es)) \<and>
    annots es = [point_marker]"
proof -
  show rep: "ctree_map_rep example_rooted (root_map example_rooted) [5 \<mapsto> 2, 6 \<mapsto> 3]"
    using example_tree by (simp add: ctree_map_rep_def example_rooted_def)
  have free: "objects example_rooted 7 = None" "objects example_rooted 8 = None" by (simp_all add: example_rooted_def example_pool_def)
  have "has_room example_pobj (with_item a 1 example_rooted)" for a
    using example_pobj_room [of "with_item a 1 example_rooted" "if a = 7 then 8 else 7"] free by (simp add: with_item_def)
  then have "\<not> full (\<lambda>H P mp. has_room H P) example_pobj 1 example_rooted"
    using example_pobj_room [OF free(1)] by (auto simp: full_def has_room_def split: option.split)
  then show "\<exists>P' I' es. insert_item (ctree_ctx example_pobj) example_pobj (7, 1) example_rooted tracing =
      Some (Inr ((False, P', I'), es)) \<and> annots es = [point_marker]"
    using cts.insert_item_law [OF rep, of "(7, 1)" example_pobj tracing] example_fresh
    by (auto simp: tracing_def iface_init_def key_of_def)
qed



text \<open>
  C10. A crash at any moment of an insertion of the test program, at its failure point also, and a recovery by the program
  itself on the pool that the library has recovered: the recovered pool is the one from before the insertion, and the
  program runs on it as on the map from before.
\<close>

theorem data_store_recovers:
  assumes "ctree_map_rep P (root_map P) M" "insert_item (ctree_ctx H) H r P I = Some (Inr ((aborted, P', I'), es))"
    and "good_host T H E n" "opened E path = Some (after_crash [] [] (take j (pool_acts es)) P)"
  shows "after_crash [] [] (take j (pool_acts es)) P = P \<and>
    ctree_result H (map (rands E) [0..<n]) M roi_begin (data_store_main T H E [prog, ''ctree'', path, to_string (int n)])"
proof -
  have same: "after_crash [] [] (take j (pool_acts es)) P = P"
    using insert_item_acts [OF assms(2)] by (simp add: after_crash_protected)
  obtain m where "root_map P = Some m" using assms(1) by (auto simp: ctree_map_rep_def split: option.splits)
  then show ?thesis
    using data_store_run [OF assms(3) assms(4) [unfolded same] disjI2 [OF assms(1)], of prog] same by simp
qed

theorem data_store_recovers_witness:
  "\<exists>P' I' es. insert_item (ctree_ctx example_pobj) example_pobj (7, 1) example_rooted tracing = Some (Inr ((False, P', I'), es)) \<and>
    annots es = [point_marker] \<and> after_crash [] [] (take 3 (pool_acts es)) example_rooted = example_rooted \<and>
    ctree_result example_pobj (map (rands (example_host example_rooted)) [0..<2]) [5 \<mapsto> 2, 6 \<mapsto> 3] roi_begin
      (data_store_main example_tables example_pobj (example_host (after_crash [] [] (take 3 (pool_acts es)) example_rooted))
        [''data_store'', ''ctree'', ''pool'', to_string (int 2)])"
proof -
  obtain P' I' es where run: "insert_item (ctree_ctx example_pobj) example_pobj (7, 1) example_rooted tracing =
      Some (Inr ((False, P', I'), es))" "annots es = [point_marker]" using example_crash(2) by blast
  have "rands (example_host P) = rands (example_host example_rooted)" for P by (simp add: example_host_def)
  with data_store_recovers [OF example_crash(1) run(1) example_good_host, of 3 "''data_store''" "''pool''"] run
  show ?thesis by auto
qed

end
