(* ===== verification/XF_HashmapTx.thy ===== *)
theory XF_HashmapTx
  imports XF_PObj XF_Strings
begin

text \<open>
  The hash map of \<open>pmdk/src/examples/libpmemobj/hashmap/hashmap_tx.c\<close>, a workload of the detector: an
  object for the map, one for the array of its buckets, and chains of entries. The argument \<open>nested\<close> says
  whether an operation is called inside a transaction.
\<close>

section \<open>Objects\<close>

record hm_entry =
  ent_key :: "64 word"
  ent_value :: PMEMoid
  ent_next :: PMEMoid

record hashmap_tx =
  hm_seed :: "32 word"
  hash_fun_a :: "32 word"
  hash_fun_b :: "32 word"
  hash_fun_p :: "64 word"
  hm_count :: "64 word"
  hm_buckets :: PMEMoid

text \<open>The array of the buckets has its length in a field, which is not that of the allocated memory by itself.\<close>

datatype hm_object =
    HashmapTx hashmap_tx
  | Buckets "64 word" "PMEMoid list"
  | Entry hm_entry

definition HASH_FUNC_COEFF_P :: "64 word" where "HASH_FUNC_COEFF_P = 32212254719"
definition INIT_BUCKETS_NUM :: "64 word" where "INIT_BUCKETS_NUM = 10"
definition MIN_HASHSET_THRESHOLD :: int where "MIN_HASHSET_THRESHOLD = 5"
definition MAX_HASHSET_THRESHOLD :: int where "MAX_HASHSET_THRESHOLD = 10"
definition PMEMOBJ_MAX_ALLOC_SIZE :: "64 word" where "PMEMOBJ_MAX_ALLOC_SIZE = 0x3FFDFFFC0"
definition HASHMAP_CMD_REBUILD :: "32 word" where "HASHMAP_CMD_REBUILD = 0"
definition HASHMAP_CMD_DEBUG :: "32 word" where "HASHMAP_CMD_DEBUG = 1"
definition EINVAL :: int where "EINVAL = 22"
definition INT_MAX :: int where "INT_MAX = 2147483647"

text \<open>What a new entry holds before it is written, and the random numbers that are drawn for a new map.\<close>

record hm_host =
  raw_entry :: hm_entry
  hm_rand :: "nat \<Rightarrow> int"

section \<open>Reading and writing\<close>

definition hm_at :: "hm_object pool \<Rightarrow> PMEMoid \<Rightarrow> ('e, hashmap_tx) run" where
  "hm_at P q = (case q of
       None \<Rightarrow> rub ''null object''
     | Some a \<Rightarrow> (case objects P a of Some (OtherObject (HashmapTx m)) \<Rightarrow> rret m | _ \<Rightarrow> rub ''pointer''))"

definition buckets_at :: "hm_object pool \<Rightarrow> PMEMoid \<Rightarrow> ('e, 64 word \<times> PMEMoid list) run" where
  "buckets_at P q = (case q of
       None \<Rightarrow> rub ''null object''
     | Some a \<Rightarrow> (case objects P a of Some (OtherObject (Buckets n bs)) \<Rightarrow> rret (n, bs) | _ \<Rightarrow> rub ''pointer''))"

definition entry_at :: "hm_object pool \<Rightarrow> nat \<Rightarrow> ('e, hm_entry) run" where
  "entry_at P a = (case objects P a of Some (OtherObject (Entry e)) \<Rightarrow> rret e | _ \<Rightarrow> rub ''pointer'')"

definition bucket_at :: "hm_object pool \<Rightarrow> PMEMoid \<Rightarrow> nat \<Rightarrow> ('e, PMEMoid) run" where
  "bucket_at P q i =
     rbind (buckets_at P q) (\<lambda>(n, bs). if i < length bs then rret (bs ! i) else rub ''array index'')"

text \<open>Fields: 4 and 5 of a map are its count and its buckets, 0 of the buckets is their number, 2 of an entry is the next one.\<close>

fun upd_hm :: "(hashmap_tx \<Rightarrow> hashmap_tx) \<Rightarrow> hm_object \<Rightarrow> hm_object" where
  "upd_hm u (HashmapTx m) = HashmapTx (u m)"
| "upd_hm u x = x"

fun upd_entry :: "(hm_entry \<Rightarrow> hm_entry) \<Rightarrow> hm_object \<Rightarrow> hm_object" where
  "upd_entry u (Entry e) = Entry (u e)"
| "upd_entry u x = x"

fun upd_nbuckets :: "64 word \<Rightarrow> hm_object \<Rightarrow> hm_object" where
  "upd_nbuckets n (Buckets m bs) = Buckets n bs"
| "upd_nbuckets n x = x"

fun upd_bucket :: "nat \<Rightarrow> PMEMoid \<Rightarrow> hm_object \<Rightarrow> hm_object" where
  "upd_bucket i q (Buckets n bs) = Buckets n (bs[i := q])"
| "upd_bucket i q x = x"

definition COUNT_FIELD :: nat where "COUNT_FIELD = 4"
definition BUCKETS_FIELD :: nat where "BUCKETS_FIELD = 5"
definition NEXT_FIELD :: nat where "NEXT_FIELD = 2"

abbreviation (input) bucket_field :: "nat \<Rightarrow> nat" where
  "bucket_field i \<equiv> Suc i"

definition set_hm :: "nat \<Rightarrow> nat \<Rightarrow> (hashmap_tx \<Rightarrow> hashmap_tx) \<Rightarrow> hm_object pool \<Rightarrow> (hm_object tx_act, hm_object pool) run" where
  "set_hm a f u P = rbind (hm_at P (Some a)) (\<lambda>_. tx_do (SetOther a f (upd_hm u)) P)"

definition set_entry :: "nat \<Rightarrow> nat \<Rightarrow> (hm_entry \<Rightarrow> hm_entry) \<Rightarrow> hm_object pool \<Rightarrow> (hm_object tx_act, hm_object pool) run" where
  "set_entry a f u P = rbind (entry_at P a) (\<lambda>_. tx_do (SetOther a f (upd_entry u)) P)"

definition set_bucket :: "nat \<Rightarrow> nat \<Rightarrow> PMEMoid \<Rightarrow> hm_object pool \<Rightarrow> (hm_object tx_act, hm_object pool) run" where
  "set_bucket a i q P = rbind (bucket_at P (Some a) i) (\<lambda>_. tx_do (SetOther a (bucket_field i) (upd_bucket i q)) P)"

text \<open>
  \<open>TX_ZALLOC\<close> of an array of buckets: the size is computed with 64 bits, and the library refuses sizes above
  its limit.
\<close>

definition buckets_size :: "64 word \<Rightarrow> 64 word" where
  "buckets_size n = 8 + n * 16"

definition zalloc_buckets :: "hm_object pobj \<Rightarrow> 64 word \<Rightarrow> hm_object pool \<Rightarrow> (hm_object tx_act, nat \<times> hm_object pool) run" where
  "zalloc_buckets H sz P =
     (if sz > PMEMOBJ_MAX_ALLOC_SIZE then tx_abort
      else TX_NEW H (OtherObject (Buckets 0 (replicate ((unat sz - 8) div 16) None))) P)"

definition set_nbuckets :: "nat \<Rightarrow> 64 word \<Rightarrow> hm_object pool \<Rightarrow> (hm_object tx_act, hm_object pool) run" where
  "set_nbuckets a n P = tx_do (SetOther a 0 (upd_nbuckets n)) P"

section \<open>Creating\<close>

text \<open>The first random number from position \<open>i\<close> whose lower 32 bits are not 0; the loop may not end.\<close>

partial_function (option) draw_nonzero :: "(nat \<Rightarrow> int) \<Rightarrow> nat \<Rightarrow> nat option" where
  "draw_nonzero r i = (if (word_of_int (r i) :: 32 word) \<noteq> 0 then Some i else draw_nonzero r (Suc i))"

text \<open>
  The turns of the loop before the last write 0 to a field that is 0 already, which is left out. An abort
  ends the process.
\<close>

definition create_hashmap ::
  "hm_object pobj \<Rightarrow> hm_host \<Rightarrow> hm_object pool \<Rightarrow> nat \<Rightarrow> 32 word \<Rightarrow> (hm_object tx_act, hm_object pool) run" where
  "create_hashmap H E P a seed =
     Option.bind
       (rbind (TX_ADD H (OtherRange a None) P) (\<lambda>P1.
        rbind (set_hm a 0 (\<lambda>m. m\<lparr>hm_seed := seed\<rparr>) P1) (\<lambda>P2.
        Option.bind (draw_nonzero (hm_rand E) 0) (\<lambda>i.
        rbind (set_hm a 1 (\<lambda>m. m\<lparr>hash_fun_a := word_of_int (hm_rand E i)\<rparr>) P2) (\<lambda>P3.
        rbind (set_hm a 2 (\<lambda>m. m\<lparr>hash_fun_b := word_of_int (hm_rand E (Suc i))\<rparr>) P3) (\<lambda>P4.
        rbind (set_hm a 3 (\<lambda>m. m\<lparr>hash_fun_p := HASH_FUNC_COEFF_P\<rparr>) P4) (\<lambda>P5.
        rbind (zalloc_buckets H (buckets_size INIT_BUCKETS_NUM) P5) (\<lambda>(b, P6).
        rbind (set_hm a BUCKETS_FIELD (\<lambda>m. m\<lparr>hm_buckets := Some b\<rparr>) P6) (\<lambda>P7.
        set_nbuckets b INIT_BUCKETS_NUM P7)))))))))
       (\<lambda>r. case r of
            Inl (Throw s) \<Rightarrow> Some (Inl (Abort ''create_hashmap: transaction aborted''))
          | _ \<Rightarrow> Some r)"

definition hashmap_zero :: hashmap_tx where
  "hashmap_zero = \<lparr>hm_seed = 0, hash_fun_a = 0, hash_fun_b = 0, hash_fun_p = 0, hm_count = 0, hm_buckets = None\<rparr>"

definition hm_tx_create ::
  "hm_object pobj \<Rightarrow> hm_host \<Rightarrow> bool \<Rightarrow> hm_object pool \<Rightarrow> 32 word option \<Rightarrow> (hm_object tx_act, int \<times> hm_object pool) run" where
  "hm_tx_create H E nested P args =
     tx_block nested (-1) P
       (rbind (TX_ADD H MapRange P) (\<lambda>P1.
        rbind (TX_NEW H (OtherObject (HashmapTx hashmap_zero)) P1) (\<lambda>(a, P2).
        rbind (tx_do (SetMap (Some a)) P2) (\<lambda>P3.
        create_hashmap H E P3 a (case args of None \<Rightarrow> 0 | Some seed \<Rightarrow> seed)))))"

section \<open>Hashing\<close>

definition hash_value :: "hashmap_tx \<Rightarrow> 64 word \<Rightarrow> 64 word \<Rightarrow> 64 word" where
  "hash_value m len v = ((ucast (hash_fun_a m) * v + ucast (hash_fun_b m)) mod hash_fun_p m) mod len"

definition hash :: "hm_object pool \<Rightarrow> PMEMoid \<Rightarrow> PMEMoid \<Rightarrow> 64 word \<Rightarrow> ('e, nat) run" where
  "hash P hm b v =
     rbind (hm_at P hm) (\<lambda>m.
     rbind (buckets_at P b) (\<lambda>(len, bs).
     if hash_fun_p m = 0 \<or> len = 0 then rub ''division by zero'' else rret (unat (hash_value m len v))))"

section \<open>Rebuilding\<close>

text \<open>The inner loop of \<open>hm_tx_rebuild\<close> moves the entries of an old bucket to the new ones.\<close>

partial_function (option) move_bucket ::
  "hm_object pobj \<Rightarrow> PMEMoid \<Rightarrow> nat \<Rightarrow> nat \<Rightarrow> nat \<Rightarrow> hm_object pool \<Rightarrow> (hm_object tx_act, hm_object pool) outcome option" where
  "move_bucket H hm old new i P =
     rbind (bucket_at P (Some old) i) (\<lambda>q.
     case q of
       None \<Rightarrow> rret P
     | Some en \<Rightarrow>
         rbind (entry_at P en) (\<lambda>e.
         rbind (hash P hm (Some new) (ent_key e)) (\<lambda>h.
         rbind (set_bucket old i (ent_next e) P) (\<lambda>P1.
         rbind (TX_ADD H (OtherRange en (Some NEXT_FIELD)) P1) (\<lambda>P2.
         rbind (bucket_at P2 (Some new) h) (\<lambda>first.
         rbind (set_entry en NEXT_FIELD (\<lambda>e. e\<lparr>ent_next := first\<rparr>) P2) (\<lambda>P3.
         rbind (set_bucket new h (Some en) P3) (\<lambda>P4.
         move_bucket H hm old new i P4))))))))"

text \<open>The outer loop, over the indices of the old buckets, whose number does not change.\<close>

fun move_buckets ::
  "hm_object pobj \<Rightarrow> PMEMoid \<Rightarrow> nat \<Rightarrow> nat \<Rightarrow> nat list \<Rightarrow> hm_object pool \<Rightarrow> (hm_object tx_act, hm_object pool) run" where
  "move_buckets H hm old new [] P = rret P"
| "move_buckets H hm old new (i # is) P =
     rbind (move_bucket H hm old new i P) (\<lambda>P1. move_buckets H hm old new is P1)"

definition hm_tx_rebuild ::
  "hm_object pobj \<Rightarrow> bool \<Rightarrow> hm_object pool \<Rightarrow> nat \<Rightarrow> 64 word \<Rightarrow> (hm_object tx_act, hm_object pool) run" where
  "hm_tx_rebuild H nested P a new_len0 =
     rbind (hm_at P (Some a)) (\<lambda>m.
     rbind (buckets_at P (hm_buckets m)) (\<lambda>(len, bs).
     let new_len = (if new_len0 = 0 then len else new_len0);
         old = the (hm_buckets m)
     in rbind (tx_block nested 0 P
          (rbind (TX_ADD H (OtherRange a (Some BUCKETS_FIELD)) P) (\<lambda>P1.
           rbind (zalloc_buckets H (buckets_size new_len) P1) (\<lambda>(new, P2).
           rbind (set_nbuckets new new_len P2) (\<lambda>P3.
           rbind (TX_ADD H (OtherRange old None) P3) (\<lambda>P4.
           rbind (move_buckets H (Some a) old new [0..<unat len] P4) (\<lambda>P5.
           rbind (set_hm a BUCKETS_FIELD (\<lambda>m. m\<lparr>hm_buckets := Some new\<rparr>) P5) (\<lambda>P6.
           TX_FREE (Some old) P6))))))))
        (\<lambda>(_, P7). rret P7)))"

section \<open>Inserting\<close>

text \<open>
  The loop of \<open>hm_tx_insert\<close> over a bucket: it ends with \<open>None\<close> when the key is found, and otherwise with the
  number of the entries, a signed integer.
\<close>

definition num_inc :: "int \<Rightarrow> ('e, int) run" where
  "num_inc num = (if num < INT_MAX then rret (num + 1) else rub ''signed overflow'')"

partial_function (option) scan_bucket ::
  "hm_object pool \<Rightarrow> 64 word \<Rightarrow> PMEMoid \<Rightarrow> int \<Rightarrow> ('e, int option) outcome option" where
  "scan_bucket P k var num =
     (case var of
        None \<Rightarrow> rret (Some num)
      | Some a \<Rightarrow>
          rbind (entry_at P a) (\<lambda>e.
          if ent_key e = k then rret None
          else rbind (num_inc num) (\<lambda>num1. scan_bucket P k (ent_next e) num1)))"

definition hm_tx_insert ::
  "hm_object pobj \<Rightarrow> hm_host \<Rightarrow> bool \<Rightarrow> hm_object pool \<Rightarrow> nat \<Rightarrow> 64 word \<Rightarrow> PMEMoid \<Rightarrow> (hm_object tx_act, int \<times> hm_object pool) run" where
  "hm_tx_insert H E nested P a k v =
     rbind (hm_at P (Some a)) (\<lambda>m.
     rbind (hash P (Some a) (hm_buckets m) k) (\<lambda>h.
     rbind (bucket_at P (hm_buckets m) h) (\<lambda>first.
     rbind (scan_bucket P k first 0) (\<lambda>found.
     case found of
       None \<Rightarrow> rret (1, P)
     | Some num \<Rightarrow>
         let b = the (hm_buckets m)
         in rbind (tx_block nested (-1) P
           (rbind (TX_ADD H (OtherRange b (Some (bucket_field h))) P) (\<lambda>P1.
            rbind (TX_ADD H (OtherRange a (Some COUNT_FIELD)) P1) (\<lambda>P2.
            rbind (TX_NEW H (OtherObject (Entry (raw_entry E))) P2) (\<lambda>(e, P3).
            rbind (set_entry e 0 (\<lambda>x. x\<lparr>ent_key := k\<rparr>) P3) (\<lambda>P4.
            rbind (set_entry e 1 (\<lambda>x. x\<lparr>ent_value := v\<rparr>) P4) (\<lambda>P5.
            rbind (bucket_at P5 (Some b) h) (\<lambda>q.
            rbind (set_entry e NEXT_FIELD (\<lambda>x. x\<lparr>ent_next := q\<rparr>) P5) (\<lambda>P6.
            rbind (set_bucket b h (Some e) P6) (\<lambda>P7.
            rbind (set_hm a COUNT_FIELD (\<lambda>m. m\<lparr>hm_count := hm_count m + 1\<rparr>) P7) (\<lambda>P8.
            rbind (num_inc num) (\<lambda>_. rret P8))))))))))))
         (\<lambda>(ret, P9).
            if ret \<noteq> 0 then rret (ret, P9)
            else
              rbind (hm_at P9 (Some a)) (\<lambda>m9.
              rbind (buckets_at P9 (Some b)) (\<lambda>(len, bs).
              if num + 1 > MAX_HASHSET_THRESHOLD \<or> (num + 1 > MIN_HASHSET_THRESHOLD \<and> hm_count m9 > 2 * len)
              then rbind (hm_tx_rebuild H nested P9 a (len * 2)) (\<lambda>P10. rret (0, P10))
              else rret (0, P9))))))))"

section \<open>Removing\<close>

text \<open>The loop over a bucket that keeps the entry before the current one.\<close>

partial_function (option) find_entry ::
  "hm_object pool \<Rightarrow> 64 word \<Rightarrow> PMEMoid \<Rightarrow> PMEMoid \<Rightarrow> ('e, PMEMoid \<times> PMEMoid) outcome option" where
  "find_entry P k prev var =
     (case var of
        None \<Rightarrow> rret (prev, None)
      | Some a \<Rightarrow>
          rbind (entry_at P a) (\<lambda>e.
          if ent_key e = k then rret (prev, Some a) else find_entry P k (Some a) (ent_next e)))"

definition hm_tx_remove ::
  "hm_object pobj \<Rightarrow> bool \<Rightarrow> hm_object pool \<Rightarrow> nat \<Rightarrow> 64 word \<Rightarrow> (hm_object tx_act, PMEMoid \<times> hm_object pool) run" where
  "hm_tx_remove H nested P a k =
     rbind (hm_at P (Some a)) (\<lambda>m.
     rbind (hash P (Some a) (hm_buckets m) k) (\<lambda>h.
     rbind (bucket_at P (hm_buckets m) h) (\<lambda>first.
     rbind (find_entry P k None first) (\<lambda>(prev, var).
     case var of
       None \<Rightarrow> rret (None, P)
     | Some en \<Rightarrow>
         let b = the (hm_buckets m)
         in rbind (entry_at P en) (\<lambda>e.
         rbind (tx_block nested (-1) P
           (rbind (TX_ADD H (case prev of None \<Rightarrow> OtherRange b (Some (bucket_field h)) | Some p \<Rightarrow> OtherRange p (Some NEXT_FIELD)) P) (\<lambda>P1.
            rbind (TX_ADD H (OtherRange a (Some COUNT_FIELD)) P1) (\<lambda>P2.
            rbind (case prev of
                None \<Rightarrow> set_bucket b h (ent_next e) P2
              | Some p \<Rightarrow> set_entry p NEXT_FIELD (\<lambda>x. x\<lparr>ent_next := ent_next e\<rparr>) P2) (\<lambda>P3.
            rbind (set_hm a COUNT_FIELD (\<lambda>m. m\<lparr>hm_count := hm_count m - 1\<rparr>) P3) (\<lambda>P4.
            TX_FREE (Some en) P4))))))
         (\<lambda>(ret, P5).
            if ret \<noteq> 0 then rret (None, P5)
            else
              rbind (hm_at P5 (Some a)) (\<lambda>m5.
              rbind (buckets_at P5 (Some b)) (\<lambda>(len, bs).
              if hm_count m5 < len
              then rbind (hm_tx_rebuild H nested P5 a (len div 2)) (\<lambda>P6. rret (ent_value e, P6))
              else rret (ent_value e, P5)))))))))"

section \<open>Searching and traversing\<close>

definition hm_tx_get :: "hm_object pool \<Rightarrow> nat \<Rightarrow> 64 word \<Rightarrow> ('e, PMEMoid) run" where
  "hm_tx_get P a k =
     rbind (hm_at P (Some a)) (\<lambda>m.
     rbind (hash P (Some a) (hm_buckets m) k) (\<lambda>h.
     rbind (bucket_at P (hm_buckets m) h) (\<lambda>first.
     rbind (find_entry P k None first) (\<lambda>(_, var).
     case var of None \<Rightarrow> rret None | Some en \<Rightarrow> rbind (entry_at P en) (\<lambda>e. rret (ent_value e))))))"

definition hm_tx_lookup :: "hm_object pool \<Rightarrow> nat \<Rightarrow> 64 word \<Rightarrow> ('e, int) run" where
  "hm_tx_lookup P a k =
     rbind (hm_at P (Some a)) (\<lambda>m.
     rbind (hash P (Some a) (hm_buckets m) k) (\<lambda>h.
     rbind (bucket_at P (hm_buckets m) h) (\<lambda>first.
     rbind (find_entry P k None first) (\<lambda>(_, var).
     rret (if var = None then 0 else 1)))))"

text \<open>A nonzero result of the callback ends the inner loop only.\<close>

partial_function (option) foreach_bucket ::
  "hm_object pool \<Rightarrow> (64 word \<Rightarrow> PMEMoid \<Rightarrow> 's \<Rightarrow> ('e, int \<times> 's) outcome) \<Rightarrow> PMEMoid \<Rightarrow> int \<Rightarrow> 's \<Rightarrow> ('e, int \<times> 's) outcome option" where
  "foreach_bucket P cb var ret s =
     (case var of
        None \<Rightarrow> rret (ret, s)
      | Some a \<Rightarrow>
          rbind (entry_at P a) (\<lambda>e.
          rbind (Some (cb (ent_key e) (ent_value e) s)) (\<lambda>rs.
          if fst rs \<noteq> 0 then rret rs else foreach_bucket P cb (ent_next e) (fst rs) (snd rs))))"

fun foreach_buckets ::
  "hm_object pool \<Rightarrow> PMEMoid \<Rightarrow> (64 word \<Rightarrow> PMEMoid \<Rightarrow> 's \<Rightarrow> ('e, int \<times> 's) outcome) \<Rightarrow> nat list \<Rightarrow> int \<Rightarrow> 's \<Rightarrow> ('e, int \<times> 's) run" where
  "foreach_buckets P b cb [] ret s = rret (ret, s)"
| "foreach_buckets P b cb (i # is) ret s =
     rbind (bucket_at P b i) (\<lambda>first.
     rbind (foreach_bucket P cb first ret s) (\<lambda>rs. foreach_buckets P b cb is (fst rs) (snd rs)))"

definition hm_tx_foreach ::
  "hm_object pool \<Rightarrow> nat \<Rightarrow> (64 word \<Rightarrow> PMEMoid \<Rightarrow> 's \<Rightarrow> ('e, int \<times> 's) outcome) \<Rightarrow> 's \<Rightarrow> ('e, int \<times> 's) run" where
  "hm_tx_foreach P a cb s =
     rbind (hm_at P (Some a)) (\<lambda>m.
     rbind (buckets_at P (hm_buckets m)) (\<lambda>(len, bs). foreach_buckets P (hm_buckets m) cb [0..<unat len] 0 s))"

section \<open>Debugging\<close>

text \<open>The text that \<open>hm_tx_debug\<close> prints: the keys of a bucket with their number, and the whole map.\<close>

partial_function (option) debug_bucket ::
  "hm_object pool \<Rightarrow> PMEMoid \<Rightarrow> int \<Rightarrow> string \<Rightarrow> ('e, int \<times> string) outcome option" where
  "debug_bucket P var num out =
     (case var of
        None \<Rightarrow> rret (num, out)
      | Some a \<Rightarrow>
          rbind (entry_at P a) (\<lambda>e.
          rbind (num_inc num) (\<lambda>num1.
          debug_bucket P (ent_next e) num1 (out @ to_string (uint (ent_key e)) @ '' ''))))"

fun debug_buckets :: "hm_object pool \<Rightarrow> PMEMoid \<Rightarrow> nat list \<Rightarrow> string \<Rightarrow> ('e, string) run" where
  "debug_buckets P b [] out = rret out"
| "debug_buckets P b (i # is) out =
     rbind (bucket_at P b i) (\<lambda>first.
     if first = None then debug_buckets P b is out
     else
       rbind (debug_bucket P first 0 (out @ to_string (int i) @ '': '')) (\<lambda>(num, out1).
       debug_buckets P b is (out1 @ ''('' @ to_string num @ '')'' @ [CHR 0x0A])))"

definition hm_tx_debug :: "hm_object pool \<Rightarrow> nat \<Rightarrow> ('e, string) run" where
  "hm_tx_debug P a =
     rbind (hm_at P (Some a)) (\<lambda>m.
     rbind (buckets_at P (hm_buckets m)) (\<lambda>(len, bs).
     debug_buckets P (hm_buckets m) [0..<unat len]
       (''a: '' @ to_string (uint (hash_fun_a m)) @ '' b: '' @ to_string (uint (hash_fun_b m)) @
        '' p: '' @ to_string (uint (hash_fun_p m)) @ [CHR 0x0A] @
        ''count: '' @ to_string (uint (hm_count m)) @ '', buckets: '' @ to_string (uint len) @ [CHR 0x0A])))"

section \<open>The rest of the interface\<close>

definition hm_tx_count :: "hm_object pool \<Rightarrow> nat \<Rightarrow> ('e, 64 word) run" where
  "hm_tx_count P a = rbind (hm_at P (Some a)) (\<lambda>m. rret (hm_count m))"

text \<open>The seed of the random numbers is set to that of the map; the numbers themselves are an argument of the model.\<close>

definition hm_tx_init :: "hm_object pool \<Rightarrow> nat \<Rightarrow> ('e, int) run" where
  "hm_tx_init P a = rbind (hm_at P (Some a)) (\<lambda>m. rret 0)"

definition hm_tx_check :: "hm_object pool \<Rightarrow> PMEMoid \<Rightarrow> ('e, int) run" where
  "hm_tx_check P mp =
     (case mp of
        None \<Rightarrow> rret 1
      | Some a \<Rightarrow> (case objects P a of
            None \<Rightarrow> rub ''freed object''
          | Some (OtherObject (HashmapTx m)) \<Rightarrow> rret 0
          | Some _ \<Rightarrow> rret 1))"

definition hm_tx_cmd ::
  "hm_object pobj \<Rightarrow> bool \<Rightarrow> hm_object pool \<Rightarrow> nat \<Rightarrow> 32 word \<Rightarrow> 64 word \<Rightarrow> (hm_object tx_act, int \<times> hm_object pool) run" where
  "hm_tx_cmd H nested P a c arg =
     (if c = HASHMAP_CMD_REBUILD then rbind (hm_tx_rebuild H nested P a arg) (\<lambda>P1. rret (0, P1))
      else if c = HASHMAP_CMD_DEBUG then
        (if arg = 0 then rret (- EINVAL, P) else rbind (hm_tx_debug P a) (\<lambda>_. rret (0, P)))
      else rret (- EINVAL, P))"

end
