(* ===== verification/XF_HashmapRep.thy ===== *)
theory XF_HashmapRep
  imports XF_HashmapTx XF_CTreeCrash "HOL-Library.Multiset"
begin

text \<open>
  Hash maps in the pool: the chains of the buckets, rehashing as a function on lists of chains, and a small
  logic for runs that end normally unless the library refuses a request.
\<close>

section \<open>Runs that the library may refuse\<close>

definition tx_ok :: "bool \<Rightarrow> ('e, 'a) run \<Rightarrow> ('a \<Rightarrow> bool) \<Rightarrow> bool" where
  "tx_ok g r Q \<longleftrightarrow> (\<exists>x es. r = Some (Inr (x, es)) \<and> Q x) \<or> \<not> g \<and> r = tx_abort"

lemma tx_ok_ret: "Q x \<Longrightarrow> tx_ok g (rret x) Q"
  by (auto simp: tx_ok_def rret_def xret_def)

lemma tx_ok_bind: "tx_ok g r R \<Longrightarrow> (\<And>x. R x \<Longrightarrow> tx_ok g (k x) Q) \<Longrightarrow> tx_ok g (rbind r k) Q"
  unfolding tx_ok_def by (fastforce simp: tx_abort_def)

lemma tx_ok_mono: "tx_ok g r R \<Longrightarrow> (\<And>x. R x \<Longrightarrow> Q x) \<Longrightarrow> tx_ok g r Q"
  unfolding tx_ok_def by blast

lemma tx_ok_emit [simp]: "tx_ok g (map_option (xemit es) r) Q = tx_ok g r Q"
proof (cases r)
  case (Some b)
  then show ?thesis by (cases b) (auto simp: tx_ok_def tx_abort_def)
qed (simp add: tx_ok_def tx_abort_def)

lemma tx_ok_Inr [simp]: "tx_ok g (Some (Inr (x, es))) Q \<longleftrightarrow> Q x"
  by (auto simp: tx_ok_def tx_abort_def)

lemma tx_ok_abort: "\<not> g \<Longrightarrow> tx_ok g tx_abort Q"
  by (simp add: tx_ok_def)

lemma tx_ok_do: "tx_ok g (k (apply_act act P)) Q \<Longrightarrow> tx_ok g (rbind (tx_do act P) k) Q"
  by (simp add: tx_do_def)

lemma tx_ok_last: "Q (apply_act act P) \<Longrightarrow> tx_ok g (tx_do act P) Q"
  by (simp add: tx_ok_def tx_do_def)

lemma tx_ok_add: "(g \<Longrightarrow> tx_snapshot H P r) \<Longrightarrow> tx_ok g (k P) Q \<Longrightarrow> tx_ok g (rbind (TX_ADD H r P) k) Q"
  by (cases "tx_snapshot H P r") (auto simp: TX_ADD_def tx_do_def intro: tx_ok_abort)

lemma tx_ok_new:
  assumes "g \<Longrightarrow> tx_alloc H P \<noteq> None" "\<And>a. tx_alloc H P = Some a \<Longrightarrow> tx_ok g (k (a, P\<lparr>objects := (objects P)(a \<mapsto> x)\<rparr>)) Q"
  shows "tx_ok g (rbind (TX_NEW H x P) k) Q"
  using assms by (cases "tx_alloc H P") (auto simp: TX_NEW_run intro: tx_ok_abort)

lemma tx_ok_block: "tx_ok g body Q \<Longrightarrow> tx_ok g (tx_block True r P body) (\<lambda>(ret, P'). ret = 0 \<and> Q P')"
  by (auto simp: tx_ok_def tx_block_def tx_abort_def)

lemma tx_ok_outer:
  "tx_ok g body Q \<Longrightarrow> (\<exists>P' es. tx_block False r P body = Some (Inr ((0, P'), es)) \<and> Q P') \<or> \<not> g \<and> tx_block False r P body = rret (r, P)"
  by (auto simp: tx_ok_def tx_block_def tx_abort_def)

section \<open>Chains\<close>

text \<open>An entry of a chain: its address, its key and its value.\<close>

type_synonym hm_node = "nat \<times> 64 word \<times> nat"
type_synonym hm_heap = "nat \<Rightarrow> hm_object object option"

abbreviation node_key :: "hm_node \<Rightarrow> 64 word" where
  "node_key x \<equiv> fst (snd x)"

fun chain :: "hm_heap \<Rightarrow> PMEMoid \<Rightarrow> hm_node list \<Rightarrow> bool" where
  "chain h q [] = (q = None)"
| "chain h q (x # xs) = (q = Some (fst x) \<and> (\<exists>e. h (fst x) = Some (OtherObject (Entry e)) \<and>
     ent_key e = node_key x \<and> ent_value e = Some (snd (snd x)) \<and> chain h (ent_next e) xs))"

lemma chain_frame: "chain h q c \<Longrightarrow> (\<And>a. a \<in> fst ` set c \<Longrightarrow> h' a = h a) \<Longrightarrow> chain h' q c"
  by (induction c arbitrary: q) auto

lemma chain_upd [simp]: "a \<notin> fst ` set c \<Longrightarrow> chain (h(a := y)) q c = chain h q c"
  by (induction c arbitrary: q) auto

lemma chain_entries: "chain h q c \<Longrightarrow> a \<in> fst ` set c \<Longrightarrow> \<exists>e. h a = Some (OtherObject (Entry e))"
  by (induction c arbitrary: q) auto


text \<open>The array of the buckets at an address, with the chains of the buckets.\<close>

definition tab :: "hm_heap \<Rightarrow> nat \<Rightarrow> 64 word \<Rightarrow> hm_node list list \<Rightarrow> bool" where
  "tab h b n cs \<longleftrightarrow> (\<exists>bs. h b = Some (OtherObject (Buckets n bs)) \<and> length bs = length cs \<and>
     (\<forall>i < length cs. chain h (bs ! i) (cs ! i)))"

section \<open>Rehashing\<close>

definition put :: "hashmap_tx \<Rightarrow> 64 word \<Rightarrow> hm_node \<Rightarrow> hm_node list list \<Rightarrow> hm_node list list" where
  "put m n x cs = (let h = unat (hash_value m n (node_key x)) in cs[h := x # cs ! h])"

definition placed :: "hashmap_tx \<Rightarrow> 64 word \<Rightarrow> hm_node list list \<Rightarrow> bool" where
  "placed m n cs \<longleftrightarrow> length cs = unat n \<and> (\<forall>i < length cs. \<forall>x \<in> set (cs ! i). unat (hash_value m n (node_key x)) = i)"

lemma hash_bound: "n \<noteq> 0 \<Longrightarrow> unat (hash_value m n k) < unat n"
  unfolding hash_value_def by (simp add: unat_mod unat_gt_0)

lemma length_put [simp]: "length (put m n x cs) = length cs"
  by (simp add: put_def Let_def)

lemma mset_concat_upd: "i < length cs \<Longrightarrow> mset (concat (cs[i := x # cs ! i])) = add_mset x (mset (concat cs))"
proof (induction cs arbitrary: i)
  case (Cons c cs)
  then show ?case by (cases i) simp_all
qed simp

lemma mset_put: "n \<noteq> 0 \<Longrightarrow> length cs = unat n \<Longrightarrow> mset (concat (put m n x cs)) = add_mset x (mset (concat cs))"
  by (simp add: put_def Let_def mset_concat_upd hash_bound)

lemma placed_put: "n \<noteq> 0 \<Longrightarrow> placed m n cs \<Longrightarrow> placed m n (put m n x cs)"
  unfolding placed_def put_def Let_def
  by (auto simp: nth_list_update hash_bound split: if_splits)

definition rehash :: "hashmap_tx \<Rightarrow> 64 word \<Rightarrow> hm_node list \<Rightarrow> hm_node list list \<Rightarrow> hm_node list list" where
  "rehash m n xs cs = fold (put m n) xs cs"

lemma rehash_simps [simp]:
  "rehash m n [] cs = cs" "rehash m n (x # xs) cs = rehash m n xs (put m n x cs)"
  "rehash m n (xs @ ys) cs = rehash m n ys (rehash m n xs cs)"
  by (simp_all add: rehash_def)

lemma length_rehash [simp]: "length (rehash m n xs cs) = length cs"
  by (induction xs arbitrary: cs) simp_all

lemma placed_rehash: "n \<noteq> 0 \<Longrightarrow> placed m n cs \<Longrightarrow> placed m n (rehash m n xs cs)"
  by (induction xs arbitrary: cs) (simp_all add: placed_put)

lemma mset_rehash: "n \<noteq> 0 \<Longrightarrow> length cs = unat n \<Longrightarrow> mset (concat (rehash m n xs cs)) = mset xs + mset (concat cs)"
  by (induction xs arbitrary: cs) (simp_all add: mset_put)

lemma placed_empty: "placed m n (replicate (unat n) [])"
  by (simp add: placed_def)

lemma concat_empty [simp]: "concat (replicate k []) = []"
  by (induction k) simp_all

section \<open>The loops over a chain\<close>

lemma entry_at_run [simp]: "objects P a = Some (OtherObject (Entry e)) \<Longrightarrow> entry_at P a = rret e"
  by (simp add: entry_at_def)

lemma hm_at_run [simp]: "objects P a = Some (OtherObject (HashmapTx m)) \<Longrightarrow> hm_at P (Some a) = rret m"
  by (simp add: hm_at_def)

lemma buckets_at_run [simp]: "objects P b = Some (OtherObject (Buckets n bs)) \<Longrightarrow> buckets_at P (Some b) = rret (n, bs)"
  by (simp add: buckets_at_def)

lemma bucket_at_run [simp]:
  "objects P b = Some (OtherObject (Buckets n bs)) \<Longrightarrow> i < length bs \<Longrightarrow> bucket_at P (Some b) i = rret (bs ! i)"
  by (simp add: bucket_at_def)

lemma scan_bucket_chain:
  "chain (objects P) q c \<Longrightarrow> num + int (length c) \<le> INT_MAX \<Longrightarrow>
     scan_bucket P k q num = rret (if k \<in> node_key ` set c then None else Some (num + int (length c)))"
proof (induction c arbitrary: q num)
  case Nil
  then show ?case by (subst scan_bucket.simps) simp
next
  case (Cons x c)
  then obtain e where e: "q = Some (fst x)" "objects P (fst x) = Some (OtherObject (Entry e))" "ent_key e = node_key x"
    "chain (objects P) (ent_next e) c" by auto
  show ?case
    using Cons.IH [OF e(4), of "num + 1"] Cons.prems(2) e(1-3)
    by (subst scan_bucket.simps) (auto simp: num_inc_def add.assoc)
qed

text \<open>The entry before the one that is found.\<close>

definition before :: "PMEMoid \<Rightarrow> hm_node list \<Rightarrow> PMEMoid" where
  "before prev xs = (if xs = [] then prev else Some (fst (last xs)))"

lemma find_entry_hit:
  "chain (objects P) q (xs @ x # ys) \<Longrightarrow> node_key x \<notin> node_key ` set xs \<Longrightarrow>
     find_entry P (node_key x) prev q = rret (before prev xs, Some (fst x))"
proof (induction xs arbitrary: q prev)
  case Nil
  then show ?case by (subst find_entry.simps) (auto simp: before_def)
next
  case (Cons y xs)
  then obtain e where e: "q = Some (fst y)" "objects P (fst y) = Some (OtherObject (Entry e))" "ent_key e = node_key y"
    "chain (objects P) (ent_next e) (xs @ x # ys)" by auto
  then show ?case using Cons.IH [OF e(4), of "Some (fst y)"] Cons.prems(2)
    by (subst find_entry.simps) (auto simp: before_def)
qed

lemma find_entry_miss:
  "chain (objects P) q c \<Longrightarrow> k \<notin> node_key ` set c \<Longrightarrow> find_entry P k prev q = rret (before prev c, None)"
proof (induction c arbitrary: q prev)
  case Nil
  then show ?case by (subst find_entry.simps) (auto simp: before_def)
next
  case (Cons y c)
  then obtain e where e: "q = Some (fst y)" "objects P (fst y) = Some (OtherObject (Entry e))" "ent_key e = node_key y"
    "chain (objects P) (ent_next e) c" by auto
  then show ?case using Cons.IH [OF e(4), of "Some (fst y)"] Cons.prems(2)
    by (subst find_entry.simps) (auto simp: before_def)
qed

lemma foreach_bucket_chain:
  assumes "goes_on cb"
  shows "chain (objects P) q c \<Longrightarrow>
    foreach_bucket P cb q 0 s = Some (xbind (xfor (visit cb) (map snd c) s) (\<lambda>s'. xret (0, s')))"
proof (induction c arbitrary: q s)
  case Nil
  then show ?case by (subst foreach_bucket.simps) (simp add: rret_def)
next
  case (Cons x c)
  then obtain e where e: "q = Some (fst x)" "objects P (fst x) = Some (OtherObject (Entry e))" "ent_key e = node_key x"
    "ent_value e = Some (snd (snd x))" "chain (objects P) (ent_next e) c" by auto
  show ?case
  proof (cases "cb (node_key x) (Some (snd (snd x))) s")
    case (Inl f)
    then show ?thesis using e by (subst foreach_bucket.simps) (simp add: visit_def)
  next
    case (Inr p)
    then obtain s' es where p: "cb (node_key x) (Some (snd (snd x))) s = Inr ((0, s'), es)"
      using goes_onD [OF assms] by (cases p) auto
    then have "visit cb (snd x) s = Inr (s', es)" by (simp add: visit_def xret_def)
    then show ?thesis using e p Cons.IH [OF e(5), of s'] by (subst foreach_bucket.simps) simp
  qed
qed

section \<open>Moving the entries of a bucket\<close>

abbreviation snapshots :: "'x pobj \<Rightarrow> bool" where
  "snapshots H \<equiv> \<forall>Q r. tx_snapshot H Q r"

lemma hash_run:
  assumes "objects P a = Some (OtherObject (HashmapTx m))" "objects P b = Some (OtherObject (Buckets n bs))"
    and "hash_fun_p m \<noteq> 0" "n \<noteq> 0"
  shows "hash P (Some a) (Some b) k = rret (unat (hash_value m n k))"
  using assms by (simp add: hash_def)

lemma set_runs:
  "objects P a = Some (OtherObject (Entry e)) \<Longrightarrow> set_entry a f u P =
     Some (Inr (P\<lparr>objects := (objects P)(a \<mapsto> OtherObject (Entry (u e)))\<rparr>, [SetOther a f (upd_entry u)]))"
  "objects P a = Some (OtherObject (HashmapTx m)) \<Longrightarrow> set_hm a f w P =
     Some (Inr (P\<lparr>objects := (objects P)(a \<mapsto> OtherObject (HashmapTx (w m)))\<rparr>, [SetOther a f (upd_hm w)]))"
  "objects P b = Some (OtherObject (Buckets n bs)) \<Longrightarrow> i < length bs \<Longrightarrow> set_bucket b i q P =
     Some (Inr (P\<lparr>objects := (objects P)(b \<mapsto> OtherObject (Buckets n (bs[i := q])))\<rparr>, [SetOther b (bucket_field i) (upd_bucket i q)]))"
  by (simp_all add: set_entry_def set_hm_def set_bucket_def tx_do_def)

text \<open>Putting an entry in front of a chain of the table.\<close>

lemma tab_put:
  assumes t: "tab h b n cs" "i < length cs" and x: "fst x \<notin> fst ` set (concat cs)"
    and bs: "h b = Some (OtherObject (Buckets n bs))"
    and e: "ent_key e = node_key x" "ent_value e = Some (snd (snd x))" "ent_next e = bs ! i" and b: "b \<noteq> fst x"
  shows "tab (h(fst x \<mapsto> OtherObject (Entry e), b \<mapsto> OtherObject (Buckets n (bs[i := Some (fst x)])))) b n (cs[i := x # cs ! i])"
proof -
  have c: "length bs = length cs" "\<And>j. j < length cs \<Longrightarrow> chain h (bs ! j) (cs ! j)" using t(1) bs by (auto simp: tab_def)
  have n1: "fst x \<notin> fst ` set (cs ! j)" if "j < length cs" for j using x nth_mem [OF that] by (auto simp: image_iff)
  have n2: "b \<notin> fst ` set (cs ! j)" if "j < length cs" for j using chain_entries [OF c(2) [OF that]] bs by fastforce
  show ?thesis unfolding tab_def using c t(2) n1 n2 e b by (auto simp: nth_list_update)
qed

lemma tab_frame:
  assumes "tab h b n cs" "h' b = h b" "\<And>x. x \<in> fst ` set (concat cs) \<Longrightarrow> h' x = h x"
  shows "tab h' b n cs"
proof -
  obtain bs where bs: "h b = Some (OtherObject (Buckets n bs))" "length bs = length cs" "\<And>j. j < length cs \<Longrightarrow> chain h (bs ! j) (cs ! j)"
    using assms(1) by (auto simp: tab_def)
  have "chain h' (bs ! j) (cs ! j)" if "j < length cs" for j
    by (rule chain_frame [OF bs(3) [OF that]]) (use assms(3) nth_mem [OF that] in force)
  then show ?thesis using bs(1,2) assms(2) by (auto simp: tab_def)
qed

lemma tab_entries:
  assumes "tab h b n cs" "x \<in> fst ` set (concat cs)"
  shows "\<exists>e. h x = Some (OtherObject (Entry e))"
proof -
  obtain c where "c \<in> set cs" and c: "x \<in> fst ` set c" using assms(2) by auto
  then obtain j where "j < length cs" "x \<in> fst ` set (cs ! j)" by (metis in_set_conv_nth)
  then show ?thesis using assms(1) chain_entries [of h _ "cs ! j" x] by (auto simp: tab_def)
qed

lemma tab_no_entry: "tab h b n cs \<Longrightarrow> (\<And>e. h x \<noteq> Some (OtherObject (Entry e))) \<Longrightarrow> x \<notin> fst ` set (concat cs)"
  using tab_entries by blast

lemma move_bucket_ok:
  assumes "objects P a = Some (OtherObject (HashmapTx m))" "hash_fun_p m \<noteq> 0" "n \<noteq> 0"
    and "objects P old = Some (OtherObject (Buckets no bo))" "i < length bo" "chain (objects P) (bo ! i) c"
    and "tab (objects P) new n cs" "length cs = unat n" "old \<noteq> new" "distinct (map fst (c @ concat cs))"
    and "g \<Longrightarrow> snapshots H"
  shows "tx_ok g (move_bucket H (Some a) old new i P) (\<lambda>P'. tab (objects P') new n (rehash m n c cs) \<and>
    objects P' old = Some (OtherObject (Buckets no (bo[i := None]))) \<and>
    (\<forall>x. x \<noteq> old \<and> x \<noteq> new \<and> x \<notin> fst ` set c \<longrightarrow> objects P' x = objects P x) \<and> root_map P' = root_map P)"
  using assms(1,4-8,10)
proof (induction c arbitrary: P bo cs)
  case Nil
  have "move_bucket H (Some a) old new i P = rret P" using Nil by (subst move_bucket.simps) simp
  moreover have "bo[i := None] = bo" using Nil(4) list_update_id [of bo i] by simp
  ultimately show ?case using Nil by (auto intro!: tx_ok_ret)
next
  case (Cons y c)
  obtain e where e: "bo ! i = Some (fst y)" "objects P (fst y) = Some (OtherObject (Entry e))" "ent_key e = node_key y"
    "ent_value e = Some (snd (snd y))" "chain (objects P) (ent_next e) c" using Cons.prems(4) by auto
  obtain bn where bn: "objects P new = Some (OtherObject (Buckets n bn))" "length bn = length cs" using Cons.prems(5) by (auto simp: tab_def)
  let ?k = "unat (hash_value m n (node_key y))"
  have k: "?k < length cs" using hash_bound [OF assms(3)] Cons.prems(6) by simp
  have ne: "fst y \<noteq> old" "fst y \<noteq> new" "a \<noteq> old" "a \<noteq> new" "a \<noteq> fst y" using e(2) Cons.prems(1,2) bn(1) by auto
  define h4 where "h4 = (objects P)(old \<mapsto> OtherObject (Buckets no (bo[i := ent_next e])),
    fst y \<mapsto> OtherObject (Entry (e\<lparr>ent_next := bn ! ?k\<rparr>)), new \<mapsto> OtherObject (Buckets n (bn[?k := Some (fst y)])))"
  have fresh: "fst y \<notin> fst ` set (concat cs)" "fst y \<notin> fst ` set c" using Cons.prems(7) by (auto simp: image_iff)
  have "tab ((objects P)(old \<mapsto> OtherObject (Buckets no (bo[i := ent_next e])))) new n cs"
    using tab_entries [OF Cons.prems(5)] Cons.prems(2) assms(9) by (intro tab_frame [OF Cons.prems(5)]) fastforce+
  from tab_put [OF this k fresh(1) _ _ _ _ ne(2) [symmetric]] bn e(3,4) assms(9)
  have t4: "tab h4 new n (put m n y cs)" unfolding h4_def put_def Let_def by simp
  have not: "old \<notin> fst ` set c" "new \<notin> fst ` set c" using chain_entries [OF e(5)] Cons.prems(2) bn(1) by fastforce+
  have c4: "chain h4 (ent_next e) c" unfolding h4_def using e(5) fresh(2) not by simp
  have at4: "h4 a = Some (OtherObject (HashmapTx m))" "h4 old = Some (OtherObject (Buckets no (bo[i := ent_next e])))"
      "\<And>x. x \<noteq> old \<Longrightarrow> x \<noteq> new \<Longrightarrow> x \<noteq> fst y \<Longrightarrow> h4 x = objects P x"
    using Cons.prems(1) ne assms(9) by (simp_all add: h4_def)
  have d4: "distinct (map fst (c @ concat (put m n y cs)))"
  proof -
    have "mset (map fst (c @ concat (put m n y cs))) = mset (map fst ((y # c) @ concat cs))"
      using mset_put [OF assms(3) Cons.prems(6), of m y] by simp
    then show ?thesis using Cons.prems(7) mset_eq_imp_distinct_iff by blast
  qed
  have IH: "tx_ok g (move_bucket H (Some a) old new i (P\<lparr>objects := h4\<rparr>)) (\<lambda>P'. tab (objects P') new n (rehash m n (y # c) cs) \<and>
    objects P' old = Some (OtherObject (Buckets no (bo[i := None]))) \<and>
    (\<forall>x. x \<noteq> old \<and> x \<noteq> new \<and> x \<notin> fst ` set (y # c) \<longrightarrow> objects P' x = objects P x) \<and> root_map P' = root_map P)"
    by (rule tx_ok_mono, rule Cons.IH [of "P\<lparr>objects := h4\<rparr>" "bo[i := ent_next e]" "put m n y cs"])
      (use Cons.prems(3,6) t4 c4 d4 at4 assms(9) in auto)
  have "tx_ok g (rbind (set_bucket old i (ent_next e) P) (\<lambda>P1.
      rbind (TX_ADD H (OtherRange (fst y) (Some NEXT_FIELD)) P1) (\<lambda>P2.
      rbind (bucket_at P2 (Some new) ?k) (\<lambda>first.
      rbind (set_entry (fst y) NEXT_FIELD (\<lambda>e. e\<lparr>ent_next := first\<rparr>) P2) (\<lambda>P3.
      rbind (set_bucket new ?k (Some (fst y)) P3) (move_bucket H (Some a) old new i)))))) (\<lambda>P'. tab (objects P') new n (rehash m n (y # c) cs) \<and>
    objects P' old = Some (OtherObject (Buckets no (bo[i := None]))) \<and>
    (\<forall>x. x \<noteq> old \<and> x \<noteq> new \<and> x \<notin> fst ` set (y # c) \<longrightarrow> objects P' x = objects P x) \<and> root_map P' = root_map P)"
    using IH bn k ne e(2) assms(9,11) Cons.prems(2,3) unfolding h4_def
    by (simp add: set_runs) (rule tx_ok_add, auto simp: set_runs)
  then show ?case
    using Cons.prems(1-3) e(1-3) bn(1) assms(2,3)
    by (subst move_bucket.simps) (simp add: hash_run)
qed

lemma move_buckets_ok:
  assumes "objects P a = Some (OtherObject (HashmapTx m))" "hash_fun_p m \<noteq> 0" "n \<noteq> 0"
    and "objects P old = Some (OtherObject (Buckets no bo))" "distinct is"
    and "\<And>i. i \<in> set is \<Longrightarrow> i < length bo \<and> chain (objects P) (bo ! i) (co i)"
    and "tab (objects P) new n cs" "length cs = unat n" "old \<noteq> new" "distinct (map fst (concat (map co is) @ concat cs))"
    and "g \<Longrightarrow> snapshots H"
  shows "tx_ok g (move_buckets H (Some a) old new is P) (\<lambda>P'. tab (objects P') new n (rehash m n (concat (map co is)) cs) \<and>
    (\<forall>x. x \<noteq> old \<and> x \<noteq> new \<and> x \<notin> fst ` set (concat (map co is)) \<longrightarrow> objects P' x = objects P x) \<and> root_map P' = root_map P)"
  using assms(1,4-8,10)
proof (induction "is" arbitrary: P bo cs)
  case Nil
  then show ?case by (simp add: tx_ok_ret)
next
  case (Cons i js)
  let ?rest = "concat (map co js)"
  have i: "i < length bo" "chain (objects P) (bo ! i) (co i)" using Cons.prems(4) by simp_all
  have d: "distinct (map fst (co i @ concat cs))" "fst ` set (co i) \<inter> fst ` set ?rest = {}"
    using Cons.prems(7) by (simp_all add: Int_Un_distrib)
  have "tx_ok g (move_bucket H (Some a) old new i P) (\<lambda>P'. tab (objects P') new n (rehash m n (co i) cs) \<and>
    objects P' old = Some (OtherObject (Buckets no (bo[i := None]))) \<and>
    (\<forall>x. x \<noteq> old \<and> x \<noteq> new \<and> x \<notin> fst ` set (co i) \<longrightarrow> objects P' x = objects P x) \<and> root_map P' = root_map P)"
    by (rule move_bucket_ok [OF Cons.prems(1) assms(2,3) Cons.prems(2) i Cons.prems(5,6) assms(9) d(1) assms(11)])
  then show ?case unfolding move_buckets.simps
  proof (rule tx_ok_bind, elim conjE)
    fix P1 :: "hm_object pool" assume P1: "tab (objects P1) new n (rehash m n (co i) cs)" "objects P1 old = Some (OtherObject (Buckets no (bo[i := None])))"
      "\<forall>x. x \<noteq> old \<and> x \<noteq> new \<and> x \<notin> fst ` set (co i) \<longrightarrow> objects P1 x = objects P x" "root_map P1 = root_map P"
    obtain bn where bn: "objects P new = Some (OtherObject (Buckets n bn))" using Cons.prems(5) by (auto simp: tab_def)
    have no: "x \<noteq> old" "x \<noteq> new" "x \<noteq> a" if "x \<in> fst ` set (co j)" "j \<in> set (i # js)" for x j
      using chain_entries [of "objects P" "bo ! j" "co j" x] Cons.prems(1,2) Cons.prems(4) [of j] bn that by fastforce+
    have "a \<noteq> old" "a \<noteq> new" "a \<notin> fst ` set (co i)" using no(3) [of a i] Cons.prems(1,2) bn by auto
    then have "objects P1 a = Some (OtherObject (HashmapTx m))" using P1(3) Cons.prems(1) by simp
    moreover have "j < length (bo[i := None]) \<and> chain (objects P1) (bo[i := None] ! j) (co j)" if j: "j \<in> set js" for j
    proof -
      have "i \<noteq> j" using j Cons.prems(3) by auto
      moreover have "chain (objects P1) (bo ! j) (co j)"
      proof (rule chain_frame [of "objects P"])
        show "chain (objects P) (bo ! j) (co j)" using Cons.prems(4) [of j] j by simp
        fix x assume x: "x \<in> fst ` set (co j)"
        then have "x \<notin> fst ` set (co i)" using d(2) j by auto
        then show "objects P1 x = objects P x" using P1(3) no(1,2) [OF x] j by simp
      qed
      ultimately show ?thesis using Cons.prems(4) [of j] j by simp
    qed
    moreover have "distinct (map fst (?rest @ concat (rehash m n (co i) cs)))"
    proof -
      have "mset (map fst (?rest @ concat (rehash m n (co i) cs))) = mset (map fst (concat (map co (i # js)) @ concat cs))"
        using mset_rehash [OF assms(3) Cons.prems(6), of m "co i"] by simp
      then show ?thesis using Cons.prems(7) mset_eq_imp_distinct_iff by blast
    qed
    ultimately have "tx_ok g (move_buckets H (Some a) old new js P1) (\<lambda>P'. tab (objects P') new n (rehash m n ?rest (rehash m n (co i) cs)) \<and>
      (\<forall>x. x \<noteq> old \<and> x \<noteq> new \<and> x \<notin> fst ` set ?rest \<longrightarrow> objects P' x = objects P1 x) \<and> root_map P' = root_map P1)"
      using P1(1,2) Cons.prems(3,6) by (intro Cons.IH [of P1 "bo[i := None]"]) auto
    then show "tx_ok g (move_buckets H (Some a) old new js P1) (\<lambda>P'. tab (objects P') new n (rehash m n (concat (map co (i # js))) cs) \<and>
      (\<forall>x. x \<noteq> old \<and> x \<noteq> new \<and> x \<notin> fst ` set (concat (map co (i # js))) \<longrightarrow> objects P' x = objects P x) \<and> root_map P' = root_map P)"
      by (rule tx_ok_mono) (use P1(3,4) in \<open>auto simp: image_Un\<close>)
  qed
qed

end
