(* ===== verification/XF_HashmapProps.thy ===== *)
theory XF_HashmapProps
  imports XF_HashmapRep
begin

text \<open>
  What the operations of the hash map do to the map it stands for: rebuilding keeps it, inserting and
  removing change one key, and the traversal visits every entry once.
\<close>

section \<open>The map a table stands for\<close>

text \<open>
  The object of the map, its buckets with their chains, every entry in the bucket of its hash value, no key
  twice, and the count.
\<close>

definition hm_ok :: "hm_object pool \<Rightarrow> nat \<Rightarrow> hashmap_tx \<Rightarrow> 64 word \<Rightarrow> hm_node list list \<Rightarrow> bool" where
  "hm_ok P a m n cs \<longleftrightarrow> objects P a = Some (OtherObject (HashmapTx m)) \<and> hash_fun_p m \<noteq> 0 \<and> n \<noteq> 0 \<and>
     8 + 16 * unat n \<le> unat PMEMOBJ_MAX_ALLOC_SIZE \<and> (\<exists>b. hm_buckets m = Some b \<and> tab (objects P) b n cs) \<and> placed m n cs \<and>
     distinct (map fst (concat cs)) \<and> distinct (map node_key (concat cs)) \<and> hm_count m = of_nat (length (concat cs))"

definition hm_rep :: "hm_object pool \<Rightarrow> PMEMoid \<Rightarrow> (64 word \<rightharpoonup> nat) \<Rightarrow> bool" where
  "hm_rep P mp M \<longleftrightarrow> (\<exists>a m n cs. mp = Some a \<and> hm_ok P a m n cs \<and> M = map_of (map snd (concat cs)))"

lemma hm_ok_buckets: "hm_ok P a m n cs \<Longrightarrow> \<exists>b. hm_buckets m = Some b"
  by (auto simp: hm_ok_def)

lemma hm_okD:
  assumes "hm_ok P a m n cs" "hm_buckets m = Some b"
  obtains bs where "objects P a = Some (OtherObject (HashmapTx m))" "hash_fun_p m \<noteq> 0" "n \<noteq> 0"
    "objects P b = Some (OtherObject (Buckets n bs))" "length bs = unat n" "length cs = unat n" "tab (objects P) b n cs"
    "\<And>i. i < unat n \<Longrightarrow> chain (objects P) (bs ! i) (cs ! i)" "a \<noteq> b"
proof -
  have b: "tab (objects P) b n cs" using assms by (auto simp: hm_ok_def)
  then obtain bs where bs: "objects P b = Some (OtherObject (Buckets n bs))" "length bs = length cs"
    "\<And>i. i < length cs \<Longrightarrow> chain (objects P) (bs ! i) (cs ! i)" by (auto simp: tab_def)
  show ?thesis by (rule that [of bs]) (use assms b bs in \<open>auto simp: hm_ok_def placed_def\<close>)
qed

lemma concat_nth: "i < length cs \<Longrightarrow> f ` set (cs ! i) \<subseteq> f ` set (concat cs)"
  by (intro image_mono) (auto intro: bexI [OF _ nth_mem])

section \<open>Rebuilding\<close>

lemma unat_of_nat_64: "k < 2 ^ 64 \<Longrightarrow> unat (of_nat k :: 64 word) = k"
  by (simp add: unat_of_nat take_bit_nat_eq_self)

lemma size_no_wrap:
  assumes "unat n < 2 ^ 59"
  shows "unat (buckets_size n) = 8 + 16 * unat n"
proof -
  have "buckets_size n = of_nat (8 + 16 * unat n)" by (simp add: buckets_size_def)
  then show ?thesis using unat_of_nat_64 [of "8 + 16 * unat n"] assms by (simp only:) simp
qed

text \<open>The pool after a rebuilding: the same entries in some other table.\<close>

definition rebuilt :: "hm_object pool \<Rightarrow> nat \<Rightarrow> hm_node list list \<Rightarrow> hm_object pool \<Rightarrow> bool" where
  "rebuilt P a cs P' \<longleftrightarrow> (\<exists>m' n' cs'. hm_ok P' a m' n' cs' \<and> mset (concat cs') = mset (concat cs)) \<and> root_map P' = root_map P"

lemma rebuilt_same: "hm_ok P a m n cs \<Longrightarrow> rebuilt P a cs P"
  unfolding rebuilt_def by blast

lemma tab_new:
  assumes "unat n < 2 ^ 59"
  shows "tab (h(b \<mapsto> OtherObject (Buckets n (replicate ((unat (buckets_size n) - 8) div 16) None)))) b n (replicate (unat n) [])"
  by (simp add: tab_def size_no_wrap [OF assms])

lemma move_all_ok:
  assumes ok: "hm_ok P a m n cs" "hm_buckets m = Some old" and len: "len \<noteq> 0"
    and P4: "objects P4 = (objects P)(new \<mapsto> OtherObject (Buckets len bn))" "tab (objects P4) new len (replicate (unat len) [])"
    and new: "objects P new = None" and g: "g \<Longrightarrow> snapshots H"
  shows "tx_ok g (move_buckets H (Some a) old new [0..<unat n] P4) (\<lambda>P5. tab (objects P5) new len (rehash m len (concat cs) (replicate (unat len) [])) \<and>
    objects P5 a = Some (OtherObject (HashmapTx m)) \<and> root_map P5 = root_map P4)"
proof -
  obtain bs where h: "objects P a = Some (OtherObject (HashmapTx m))" "hash_fun_p m \<noteq> 0" "n \<noteq> 0"
    "objects P old = Some (OtherObject (Buckets n bs))" "length bs = unat n" "length cs = unat n" "tab (objects P) old n cs"
    "\<And>i. i < unat n \<Longrightarrow> chain (objects P) (bs ! i) (cs ! i)" "a \<noteq> old" by (rule hm_okD [OF ok]) blast
  have all: "concat (map ((!) cs) [0..<unat n]) = concat cs" using map_nth [of cs] h(6) by simp
  have ne: "a \<noteq> new" "old \<noteq> new" using h(1,4) new by auto
  note nin = tab_no_entry [OF h(7)]
  have c4: "chain (objects P4) (bs ! i) (cs ! i)" if "i < unat n" for i
  proof (rule chain_frame [OF h(8) [OF that]])
    fix x assume "x \<in> fst ` set (cs ! i)"
    then have "x \<in> fst ` set (concat cs)" by (rule subsetD [OF concat_nth, rotated]) (use that h(6) in simp)
    moreover have "new \<notin> fst ` set (concat cs)" by (rule nin) (simp add: new)
    ultimately have "x \<noteq> new" by blast
    then show "objects P4 x = objects P x" using P4(1) by simp
  qed
  have d: "distinct (map fst (concat cs))" using ok(1) by (simp add: hm_ok_def)
  have "tx_ok g (move_buckets H (Some a) old new [0..<unat n] P4)
    (\<lambda>P'. tab (objects P') new len (rehash m len (concat (map ((!) cs) [0..<unat n])) (replicate (unat len) [])) \<and>
      (\<forall>x. x \<noteq> old \<and> x \<noteq> new \<and> x \<notin> fst ` set (concat (map ((!) cs) [0..<unat n])) \<longrightarrow> objects P' x = objects P4 x) \<and> root_map P' = root_map P4)"
  proof (rule move_buckets_ok [where no = n and bo = bs])
    show "distinct (map fst (concat (map ((!) cs) [0..<unat n]) @ concat (replicate (unat len) [])))" unfolding all using d by simp
  qed (use h ne P4 len c4 g in auto)
  moreover have "a \<notin> fst ` set (concat cs)" by (rule nin) (simp add: h(1))
  ultimately show ?thesis unfolding all by (elim tx_ok_mono) (use h(1,9) ne P4(1) in auto)
qed

lemma distinct_map_mset: "mset xs = mset ys \<Longrightarrow> distinct (map f xs) = distinct (map f ys)"
  by (rule mset_eq_imp_distinct_iff) (metis mset_map)

text \<open>The last steps of a rebuilding: the map gets the new table, and the old one is freed.\<close>

lemma rebuild_end:
  assumes ok: "hm_ok P a m n cs" "hm_buckets m = Some old" and len: "len \<noteq> 0" "8 + 16 * unat len \<le> unat PMEMOBJ_MAX_ALLOC_SIZE"
    and t: "tab (objects P5) new len (rehash m len (concat cs) (replicate (unat len) []))"
    and P5: "objects P5 a = Some (OtherObject (HashmapTx m))" "root_map P5 = root_map P" and ne: "new \<noteq> old"
  shows "rebuilt P a cs (P5\<lparr>objects := (objects P5)(a \<mapsto> OtherObject (HashmapTx (m\<lparr>hm_buckets := Some new\<rparr>)), old := None)\<rparr>)"
proof -
  let ?cs = "rehash m len (concat cs) (replicate (unat len) [])" and ?m = "m\<lparr>hm_buckets := Some new\<rparr>"
  let ?h = "(objects P5)(a \<mapsto> OtherObject (HashmapTx ?m), old := None)"
  have ms: "mset (concat ?cs) = mset (concat cs)" using mset_rehash [OF len(1), of "replicate (unat len) []"] by simp
  then have set: "set (concat ?cs) = set (concat cs)" by (rule mset_eq_setD)
  have old: "a \<noteq> old" "tab (objects P) old n cs" using hm_okD [OF ok] by blast+
  obtain bs where bs: "objects P old = Some (OtherObject (Buckets n bs))" using old(2) by (auto simp: tab_def)
  have "old \<notin> fst ` set (concat ?cs)" unfolding set using bs by (intro tab_no_entry [OF old(2)]) simp
  moreover have "a \<notin> fst ` set (concat ?cs)" "a \<noteq> new" using tab_entries [OF t, of a] P5(1) t by (auto simp: tab_def)
  ultimately have "tab ?h new len ?cs" using ne by (intro tab_frame [OF t]) auto
  moreover have "placed ?m len ?cs" using placed_rehash [OF len(1) placed_empty, of m "concat cs"] by (simp add: placed_def hash_value_def)
  moreover have "distinct (map fst (concat ?cs))" "distinct (map node_key (concat ?cs))" "length (concat ?cs) = length (concat cs)"
    using ok(1) mset_eq_length [OF ms] by (simp_all add: hm_ok_def distinct_map_mset [OF ms])
  ultimately have "hm_ok (P5\<lparr>objects := ?h\<rparr>) a ?m len ?cs"
    using ok(1) len old(1) by (simp add: hm_ok_def)
  then show ?thesis using ms P5(2) unfolding rebuilt_def by auto
qed

text \<open>The transaction of a rebuilding.\<close>

definition rebuild_body ::
  "hm_object pobj \<Rightarrow> nat \<Rightarrow> nat \<Rightarrow> 64 word \<Rightarrow> 64 word \<Rightarrow> hm_object pool \<Rightarrow> (hm_object tx_act, hm_object pool) run" where
  "rebuild_body H a old n len P =
      (rbind (TX_ADD H (OtherRange a (Some BUCKETS_FIELD)) P) (\<lambda>P1.
       rbind (zalloc_buckets H (buckets_size len) P1) (\<lambda>(new, P2).
       rbind (set_nbuckets new len P2) (\<lambda>P3.
       rbind (TX_ADD H (OtherRange old None) P3) (\<lambda>P4.
       rbind (move_buckets H (Some a) old new [0..<unat n] P4) (\<lambda>P5.
       rbind (set_hm a BUCKETS_FIELD (\<lambda>m. m\<lparr>hm_buckets := Some new\<rparr>) P5) (\<lambda>P6.
       TX_FREE (Some old) P6)))))))"

lemma rebuild_body_ok:
  assumes ok: "hm_ok P a m n cs" "hm_buckets m = Some old" and len: "len \<noteq> 0" "unat len < 2 ^ 59" and H: "fresh_alloc H"
    and g: "g \<Longrightarrow> snapshots H \<and> tx_alloc H P \<noteq> None \<and> 8 + 16 * unat len \<le> unat PMEMOBJ_MAX_ALLOC_SIZE"
  shows "tx_ok g (rebuild_body H a old n len P) (rebuilt P a cs)"
  unfolding rebuild_body_def
proof (rule tx_ok_add)
  show "tx_snapshot H P (OtherRange a (Some BUCKETS_FIELD))" if g using g [OF that] by simp
  let ?k = "\<lambda>(new, P2).
       rbind (set_nbuckets new len P2) (\<lambda>P3.
       rbind (TX_ADD H (OtherRange old None) P3) (\<lambda>P4.
       rbind (move_buckets H (Some a) old new [0..<unat n] P4) (\<lambda>P5.
       rbind (set_hm a BUCKETS_FIELD (\<lambda>m. m\<lparr>hm_buckets := Some new\<rparr>) P5) (\<lambda>P6.
       TX_FREE (Some old) P6))))"
  show "tx_ok g (rbind (zalloc_buckets H (buckets_size len) P) ?k) (rebuilt P a cs)"
  proof (cases "buckets_size len > PMEMOBJ_MAX_ALLOC_SIZE")
    case True
    then have "\<not> g" using g size_no_wrap [OF len(2)] by (auto simp: word_less_nat_alt)
    then show ?thesis using True by (simp add: zalloc_buckets_def tx_ok_abort)
  next
    case False
    then have small: "8 + 16 * unat len \<le> unat PMEMOBJ_MAX_ALLOC_SIZE" using size_no_wrap [OF len(2)] by (simp add: word_less_nat_alt)
    show ?thesis unfolding zalloc_buckets_def if_not_P [OF False]
    proof (rule tx_ok_new)
      show "tx_alloc H P \<noteq> None" if g using g [OF that] by simp
      fix new assume new: "tx_alloc H P = Some new"
      define P3 where "P3 = P\<lparr>objects := (objects P)(new \<mapsto> OtherObject (Buckets len (replicate ((unat (buckets_size len) - 8) div 16) None)))\<rparr>"
      show "tx_ok g (?k (new, P\<lparr>objects := (objects P)(new \<mapsto> OtherObject (Buckets 0 (replicate ((unat (buckets_size len) - 8) div 16) None)))\<rparr>)) (rebuilt P a cs)"
      proof (simp add: set_nbuckets_def tx_do_def TX_FREE_def flip: P3_def, rule tx_ok_add)
        show "tx_snapshot H P3 (OtherRange old None)" if g using g [OF that] by simp
        have free: "objects P new = None" using H new by (simp add: fresh_alloc_def)
        have ne: "new \<noteq> old" using hm_okD [OF ok] free by (metis option.distinct(1))
        have "tab (objects P3) new len (replicate (unat len) [])" unfolding P3_def using tab_new [OF len(2)] by simp
        then have "tx_ok g (move_buckets H (Some a) old new [0..<unat n] P3) (\<lambda>P5. tab (objects P5) new len (rehash m len (concat cs) (replicate (unat len) [])) \<and>
            objects P5 a = Some (OtherObject (HashmapTx m)) \<and> root_map P5 = root_map P3)"
          by (intro move_all_ok [OF ok len(1) _ _ free]) (use g in \<open>auto simp: P3_def\<close>)
        then show "tx_ok g (rbind (move_buckets H (Some a) old new [0..<unat n] P3) (\<lambda>P5.
            rbind (set_hm a BUCKETS_FIELD (\<lambda>m. m\<lparr>hm_buckets := Some new\<rparr>) P5) (\<lambda>P6.
            Some (Inr (P6\<lparr>objects := (objects P6)(old := None)\<rparr>, [TxFree old]))))) (rebuilt P a cs)"
        proof (rule tx_ok_bind, elim conjE)
          fix P5 :: "hm_object pool"
          assume "tab (objects P5) new len (rehash m len (concat cs) (replicate (unat len) []))"
            "objects P5 a = Some (OtherObject (HashmapTx m))" "root_map P5 = root_map P3"
          then show "tx_ok g (rbind (set_hm a BUCKETS_FIELD (\<lambda>m. m\<lparr>hm_buckets := Some new\<rparr>) P5) (\<lambda>P6.
            Some (Inr (P6\<lparr>objects := (objects P6)(old := None)\<rparr>, [TxFree old])))) (rebuilt P a cs)"
            using rebuild_end [OF ok len(1) small, of P5 new] ne by (auto simp: set_runs tx_ok_def P3_def)
        qed
      qed
    qed
  qed
qed

lemma rebuild_run:
  assumes "hm_ok P a m n cs" "hm_buckets m = Some old"
  shows "hm_tx_rebuild H nested P a len0 =
    rbind (tx_block nested 0 P (rebuild_body H a old n (if len0 = 0 then n else len0) P)) (\<lambda>(_, P7). rret P7)"
  by (rule hm_okD [OF assms]) (simp add: hm_tx_rebuild_def rebuild_body_def assms(2) Let_def)

lemma small_len:
  assumes "8 + 16 * unat n \<le> unat PMEMOBJ_MAX_ALLOC_SIZE"
  shows "unat n < 2 ^ 30"
  using assms by (simp add: PMEMOBJ_MAX_ALLOC_SIZE_def)

lemma rebuild_nested:
  assumes "hm_ok P a m n cs" "fresh_alloc H" "unat len0 < 2 ^ 59"
    and "g \<Longrightarrow> snapshots H \<and> tx_alloc H P \<noteq> None \<and> 8 + 16 * unat (if len0 = 0 then n else len0) \<le> unat PMEMOBJ_MAX_ALLOC_SIZE"
  shows "tx_ok g (hm_tx_rebuild H True P a len0) (rebuilt P a cs)"
proof -
  obtain old where old: "hm_buckets m = Some old" using hm_ok_buckets [OF assms(1)] by blast
  have "(if len0 = 0 then n else len0) \<noteq> 0" "unat (if len0 = 0 then n else len0) < 2 ^ 59"
    using assms(1,3) small_len [of n] by (auto simp: hm_ok_def)
  from tx_ok_block [OF rebuild_body_ok [OF assms(1) old this assms(2,4)]]
  show ?thesis unfolding rebuild_run [OF assms(1) old]
    by (rule tx_ok_bind) (auto intro: tx_ok_ret)
qed

lemma rebuild_outer:
  assumes "hm_ok P a m n cs" "fresh_alloc H" "unat len0 < 2 ^ 59"
  shows "\<exists>P' es. hm_tx_rebuild H False P a len0 = Some (Inr (P', es)) \<and> rebuilt P a cs P'"
proof -
  obtain old where old: "hm_buckets m = Some old" using hm_ok_buckets [OF assms(1)] by blast
  have "(if len0 = 0 then n else len0) \<noteq> 0" "unat (if len0 = 0 then n else len0) < 2 ^ 59"
    using assms(1,3) small_len [of n] by (auto simp: hm_ok_def)
  then have "tx_ok False (rebuild_body H a old n (if len0 = 0 then n else len0) P) (rebuilt P a cs)"
    by (intro rebuild_body_ok [OF assms(1) old _ _ assms(2)]) simp_all
  from tx_ok_outer [OF this, of 0 P] show ?thesis unfolding rebuild_run [OF assms(1) old]
    by (elim disjE exE conjE) (simp_all add: rebuilt_same [OF assms(1)])
qed

section \<open>Inserting\<close>

lemma placed_keys:
  assumes "placed m n cs" "n \<noteq> 0"
  shows "k \<in> node_key ` set (cs ! unat (hash_value m n k)) \<longleftrightarrow> k \<in> node_key ` set (concat cs)"
proof
  assume "k \<in> node_key ` set (concat cs)"
  then obtain c x where x: "c \<in> set cs" "x \<in> set c" "node_key x = k" by auto
  then obtain i where "i < length cs" "cs ! i = c" by (meson in_set_conv_nth)
  then show "k \<in> node_key ` set (cs ! unat (hash_value m n k))" using assms(1) x by (auto simp: placed_def image_iff)
next
  assume "k \<in> node_key ` set (cs ! unat (hash_value m n k))"
  then show "k \<in> node_key ` set (concat cs)"
    by (rule subsetD [OF concat_nth, rotated]) (use assms hash_bound in \<open>simp add: placed_def\<close>)
qed

text \<open>The transaction of an insertion.\<close>

definition insert_body ::
  "hm_object pobj \<Rightarrow> hm_host \<Rightarrow> nat \<Rightarrow> nat \<Rightarrow> nat \<Rightarrow> 64 word \<Rightarrow> PMEMoid \<Rightarrow> int \<Rightarrow> hm_object pool \<Rightarrow> (hm_object tx_act, hm_object pool) run" where
  "insert_body H E a b h k v num P =
     rbind (TX_ADD H (OtherRange b (Some (bucket_field h))) P) (\<lambda>P1.
     rbind (TX_ADD H (OtherRange a (Some COUNT_FIELD)) P1) (\<lambda>P2.
     rbind (TX_NEW H (OtherObject (Entry (raw_entry E))) P2) (\<lambda>(e, P3).
     rbind (set_entry e 0 (\<lambda>x. x\<lparr>ent_key := k\<rparr>) P3) (\<lambda>P4.
     rbind (set_entry e 1 (\<lambda>x. x\<lparr>ent_value := v\<rparr>) P4) (\<lambda>P5.
     rbind (bucket_at P5 (Some b) h) (\<lambda>q.
     rbind (set_entry e NEXT_FIELD (\<lambda>x. x\<lparr>ent_next := q\<rparr>) P5) (\<lambda>P6.
     rbind (set_bucket b h (Some e) P6) (\<lambda>P7.
     rbind (set_hm a COUNT_FIELD (\<lambda>m. m\<lparr>hm_count := hm_count m + 1\<rparr>) P7) (\<lambda>P8.
     rbind (num_inc num) (\<lambda>_. rret P8))))))))))"

lemma hm_ok_put:
  assumes ok: "hm_ok P a m n cs" "hm_buckets m = Some b" and bs: "objects P b = Some (OtherObject (Buckets n bs))"
    and e: "objects P e = None" and k: "k \<notin> node_key ` set (concat cs)"
    and en: "ent_key en = k" "ent_value en = Some v" "ent_next en = bs ! unat (hash_value m n k)"
  shows "hm_ok (P\<lparr>objects := (objects P)(e \<mapsto> OtherObject (Entry en), b \<mapsto> OtherObject (Buckets n (bs[unat (hash_value m n k) := Some e])),
    a \<mapsto> OtherObject (HashmapTx (m\<lparr>hm_count := hm_count m + 1\<rparr>)))\<rparr>) a (m\<lparr>hm_count := hm_count m + 1\<rparr>) n (put m n (e, k, v) cs)"
proof -
  let ?h = "unat (hash_value m n k)" and ?m = "m\<lparr>hm_count := hm_count m + 1\<rparr>" and ?cs = "put m n (e, k, v) cs"
  let ?h7 = "(objects P)(e \<mapsto> OtherObject (Entry en), b \<mapsto> OtherObject (Buckets n (bs[?h := Some e])))"
  have at: "objects P a = Some (OtherObject (HashmapTx m))" "n \<noteq> 0" "length cs = unat n" "tab (objects P) b n cs" "a \<noteq> b"
    by (rule hm_okD [OF ok], blast)+
  have h: "?h < length cs" using hash_bound [OF at(2)] at(3) by simp
  have be: "b \<noteq> e" using bs e by auto
  have new: "e \<notin> fst ` set (concat cs)" using e by (intro tab_no_entry [OF at(4)]) simp
  have t: "tab ?h7 b n ?cs" using tab_put [OF at(4) h, of "(e, k, v)" bs en] new bs en be by (simp add: put_def Let_def)
  have ms: "mset (concat ?cs) = mset ((e, k, v) # concat cs)" using mset_put [OF at(2,3), of m "(e, k, v)"] by simp
  have ae: "a \<noteq> e" using at(1) e by auto
  then have "a \<notin> fst ` set (concat ?cs)" using at(1,5) by (intro tab_no_entry [OF t]) simp
  then have "tab (?h7(a \<mapsto> OtherObject (HashmapTx ?m))) b n ?cs" using at(5) by (intro tab_frame [OF t]) auto
  moreover have "placed ?m n ?cs" using placed_put [OF at(2), of m cs "(e, k, v)"] ok(1) by (simp add: hm_ok_def placed_def hash_value_def)
  moreover have "distinct (map fst (concat ?cs))" "distinct (map node_key (concat ?cs))"
    using ok(1) new k unfolding distinct_map_mset [OF ms] by (simp_all add: hm_ok_def)
  moreover have "hm_count ?m = of_nat (length (concat ?cs))" using ok(1) mset_eq_length [OF ms] by (simp add: hm_ok_def)
  ultimately show ?thesis using ok by (simp add: hm_ok_def)
qed

lemma insert_body_ok:
  assumes ok: "hm_ok P a m n cs" "hm_buckets m = Some b" and k: "k \<notin> node_key ` set (concat cs)" and H: "fresh_alloc H"
    and num: "num < INT_MAX" and g: "g \<Longrightarrow> snapshots H \<and> tx_alloc H P \<noteq> None"
  shows "tx_ok g (insert_body H E a b (unat (hash_value m n k)) k (Some v) num P) (\<lambda>P'. \<exists>e.
    hm_ok P' a (m\<lparr>hm_count := hm_count m + 1\<rparr>) n (put m n (e, k, v) cs) \<and> root_map P' = root_map P \<and> dom (objects P') = insert e (dom (objects P)))"
proof -
  let ?h = "unat (hash_value m n k)"
  obtain bs where bs: "objects P a = Some (OtherObject (HashmapTx m))" "hash_fun_p m \<noteq> 0" "n \<noteq> 0"
    "objects P b = Some (OtherObject (Buckets n bs))" "length bs = unat n" "length cs = unat n" "tab (objects P) b n cs"
    "\<And>i. i < unat n \<Longrightarrow> chain (objects P) (bs ! i) (cs ! i)" "a \<noteq> b" by (rule hm_okD [OF ok]) blast
  have h: "?h < unat n" using hash_bound [OF bs(3)] by simp
  define P' where "P' e = P\<lparr>objects := (objects P)(e \<mapsto> OtherObject (Entry ((raw_entry E)\<lparr>ent_key := k, ent_value := Some v, ent_next := bs ! ?h\<rparr>)),
    b \<mapsto> OtherObject (Buckets n (bs[?h := Some e])), a \<mapsto> OtherObject (HashmapTx (m\<lparr>hm_count := hm_count m + 1\<rparr>)))\<rparr>" for e
  have res: "\<exists>e'. hm_ok (P' e) a (m\<lparr>hm_count := hm_count m + 1\<rparr>) n (put m n (e', k, v) cs) \<and> root_map (P' e) = root_map P \<and>
      dom (objects (P' e)) = insert e' (dom (objects P))" if "tx_alloc H P = Some e" for e
  proof -
    have "objects P e = None" using that H by (simp add: fresh_alloc_def)
    from hm_ok_put [OF ok bs(4) this k] show ?thesis using bs(1,4) by (intro exI [of _ e]) (auto simp: P'_def)
  qed
  have ne: "e \<noteq> a" "e \<noteq> b" if "tx_alloc H P = Some e" for e using that H bs(1,4) by (auto simp: fresh_alloc_def)
  show ?thesis unfolding insert_body_def
  proof (intro tx_ok_add tx_ok_new)
    fix e assume e: "tx_alloc H P = Some e"
    show "tx_ok g (case (e, P\<lparr>objects := (objects P)(e \<mapsto> OtherObject (Entry (raw_entry E)))\<rparr>) of (e, P3) \<Rightarrow>
        rbind (set_entry e 0 (\<lambda>x. x\<lparr>ent_key := k\<rparr>) P3) (\<lambda>P4.
        rbind (set_entry e 1 (\<lambda>x. x\<lparr>ent_value := Some v\<rparr>) P4) (\<lambda>P5.
        rbind (bucket_at P5 (Some b) ?h) (\<lambda>q.
        rbind (set_entry e NEXT_FIELD (\<lambda>x. x\<lparr>ent_next := q\<rparr>) P5) (\<lambda>P6.
        rbind (set_bucket b ?h (Some e) P6) (\<lambda>P7.
        rbind (set_hm a COUNT_FIELD (\<lambda>m. m\<lparr>hm_count := hm_count m + 1\<rparr>) P7) (\<lambda>P8.
        rbind (num_inc num) (\<lambda>_. rret P8)))))))) (\<lambda>P'. \<exists>e. hm_ok P' a (m\<lparr>hm_count := hm_count m + 1\<rparr>) n (put m n (e, k, v) cs) \<and>
          root_map P' = root_map P \<and> dom (objects P') = insert e (dom (objects P)))"
      using ne [OF e] bs(1,4,5,9) h num res [OF e]
      by (simp add: set_runs num_inc_def tx_ok_ret P'_def fun_upd_twist del: dom_fun_upd)
  qed (use g in auto)
qed

text \<open>Room for a number of further objects.\<close>

definition rooms :: "'x pobj \<Rightarrow> nat \<Rightarrow> 'x pool \<Rightarrow> bool" where
  "rooms H j P \<longleftrightarrow> snapshots H \<and>
     (\<forall>Q A. finite A \<and> card A < j \<and> dom (objects Q) \<subseteq> dom (objects P) \<union> A \<longrightarrow> tx_alloc H Q \<noteq> None)"

lemma roomsD: "rooms H j P \<Longrightarrow> finite A \<Longrightarrow> card A < j \<Longrightarrow> dom (objects Q) \<subseteq> dom (objects P) \<union> A \<Longrightarrow> tx_alloc H Q \<noteq> None"
  unfolding rooms_def by blast

lemma rooms_has_room: "rooms H j P \<Longrightarrow> 0 < j \<Longrightarrow> has_room H P"
  using roomsD [of H j P "{}" P] by (simp add: rooms_def has_room_def)

text \<open>An insertion needs an entry and, when the map is rebuilt, twice the buckets.\<close>

definition hm_room :: "hm_object pobj \<Rightarrow> hm_object pool \<Rightarrow> PMEMoid \<Rightarrow> bool" where
  "hm_room H P mp \<longleftrightarrow> rooms H 2 P \<and> (\<forall>a m b n bs. mp = Some a \<and> objects P a = Some (OtherObject (HashmapTx m)) \<and> hm_buckets m = Some b \<and>
     objects P b = Some (OtherObject (Buckets n bs)) \<longrightarrow> 8 + 32 * unat n \<le> unat PMEMOBJ_MAX_ALLOC_SIZE)"

lemma double_len:
  fixes n :: "64 word"
  assumes "n \<noteq> 0" "8 + 16 * unat n \<le> unat PMEMOBJ_MAX_ALLOC_SIZE"
  shows "unat (n * 2) = 2 * unat n" "n * 2 \<noteq> 0" "unat (n * 2) < 2 ^ 59"
proof -
  have "n * 2 = of_nat (2 * unat n)" by simp
  then show 1: "unat (n * 2) = 2 * unat n"
    using unat_of_nat_64 [of "2 * unat n"] small_len [OF assms(2)] by (simp only:) simp
  then show "n * 2 \<noteq> 0" using assms(1) by (metis mult_eq_0_iff unat_eq_zero zero_neq_numeral)
  show "unat (n * 2) < 2 ^ 59" using 1 small_len [OF assms(2)] by simp
qed

lemma hm_insert_run:
  assumes ok: "hm_ok P a m n cs" "hm_buckets m = Some b" and len: "int (length (concat cs)) \<le> INT_MAX"
  shows "hm_tx_insert H E nested P a k v = (if k \<in> node_key ` set (concat cs) then rret (1, P) else
    let h = unat (hash_value m n k); num = int (length (cs ! h)) in
    rbind (tx_block nested (-1) P (insert_body H E a b h k v num P)) (\<lambda>(ret, P9).
      if ret \<noteq> 0 then rret (ret, P9)
      else
        rbind (hm_at P9 (Some a)) (\<lambda>m9.
        rbind (buckets_at P9 (Some b)) (\<lambda>(len, bs).
        if num + 1 > MAX_HASHSET_THRESHOLD \<or> (num + 1 > MIN_HASHSET_THRESHOLD \<and> hm_count m9 > 2 * len)
        then rbind (hm_tx_rebuild H nested P9 a (len * 2)) (\<lambda>P10. rret (0, P10))
        else rret (0, P9)))))"
proof -
  let ?h = "unat (hash_value m n k)"
  obtain bs where bs: "objects P a = Some (OtherObject (HashmapTx m))" "hash_fun_p m \<noteq> 0" "n \<noteq> 0"
    "objects P b = Some (OtherObject (Buckets n bs))" "length bs = unat n" "length cs = unat n" "tab (objects P) b n cs"
    "\<And>i. i < unat n \<Longrightarrow> chain (objects P) (bs ! i) (cs ! i)" "a \<noteq> b" by (rule hm_okD [OF ok]) blast
  have h: "?h < unat n" using hash_bound [OF bs(3)] by simp
  have pl: "placed m n cs" using ok(1) by (simp add: hm_ok_def)
  have "length (cs ! ?h) \<le> length (concat cs)"
    using member_le_sum_list [of "length (cs ! ?h)" "map length cs"] h bs(6) by (simp add: length_concat)
  then have num: "0 + int (length (cs ! ?h)) \<le> INT_MAX" using len by simp
  show ?thesis
    using bs(1-5) h ok(2) unfolding hm_tx_insert_def placed_keys [OF pl bs(3), symmetric]
    by (cases "k \<in> node_key ` set (cs ! ?h)") (simp_all add: hash_run Let_def insert_body_def scan_bucket_chain [OF bs(8) [OF h] num] cong: if_cong)
qed

definition inserted :: "hm_object pool \<Rightarrow> nat \<Rightarrow> hm_node list list \<Rightarrow> 64 word \<Rightarrow> nat \<Rightarrow> hm_object pool \<Rightarrow> bool" where
  "inserted P a cs k v P' \<longleftrightarrow>
     (\<exists>e m' n' cs'. hm_ok P' a m' n' cs' \<and> mset (concat cs') = add_mset (e, k, v) (mset (concat cs))) \<and> root_map P' = root_map P"

text \<open>What follows the transaction of an insertion: the rebuilding, when it is due.\<close>

lemma inserted_put:
  assumes "hm_ok P9 a m9 n (put m n (e, k, v) cs)" "root_map P9 = root_map P" "length cs = unat n"
  shows "inserted P a cs k v P9" and "rebuilt P9 a (put m n (e, k, v) cs) P10 \<Longrightarrow> inserted P a cs k v P10"
proof -
  have ms: "mset (concat (put m n (e, k, v) cs)) = add_mset (e, k, v) (mset (concat cs))"
    using assms(1,3) by (intro mset_put) (simp_all add: hm_ok_def)
  show "inserted P a cs k v P9" unfolding inserted_def using assms(1,2) ms by blast
  show "inserted P a cs k v P10" if "rebuilt P9 a (put m n (e, k, v) cs) P10"
    using that assms(2) unfolding inserted_def rebuilt_def ms by auto
qed

lemma after_insert:
  assumes ok: "hm_ok P9 a (m\<lparr>hm_count := c\<rparr>) n cs" "hm_buckets m = Some b"
  shows "rbind (hm_at P9 (Some a)) (\<lambda>m9. rbind (buckets_at P9 (Some b)) (\<lambda>(len, bs). f m9 len)) = f (m\<lparr>hm_count := c\<rparr>) n"
  by (rule hm_okD [OF ok(1), of b]) (simp_all add: ok(2))

lemma hm_insert_nested:
  assumes ok: "hm_ok P a m n cs" and k: "k \<notin> node_key ` set (concat cs)" and H: "fresh_alloc H"
    and len: "int (length (concat cs)) < INT_MAX"
  shows "tx_ok (hm_room H P (Some a)) (hm_tx_insert H E True P a k (Some v)) (\<lambda>(r, P'). r = 0 \<and> inserted P a cs k v P')"
proof -
  let ?g = "hm_room H P (Some a)" and ?h = "unat (hash_value m n k)" and ?m = "m\<lparr>hm_count := hm_count m + 1\<rparr>"
  obtain b where b: "hm_buckets m = Some b" using hm_ok_buckets [OF ok] by blast
  have n: "n \<noteq> 0" "8 + 16 * unat n \<le> unat PMEMOBJ_MAX_ALLOC_SIZE" "length cs = unat n"
    using ok by (simp_all add: hm_ok_def placed_def)
  have "length (cs ! ?h) \<le> length (concat cs)"
    using member_le_sum_list [of "length (cs ! ?h)" "map length cs"] hash_bound [OF n(1)] n(3) by (simp add: length_concat)
  then have num: "int (length (cs ! ?h)) < INT_MAX" using len by simp
  have g: "snapshots H \<and> tx_alloc H P \<noteq> None" if ?g
    using that rooms_has_room [of H 2 P] by (simp add: hm_room_def has_room_def)
  have twice: "8 + 16 * unat (n * 2) \<le> unat PMEMOBJ_MAX_ALLOC_SIZE" if ?g
    by (rule hm_okD [OF ok b]) (use that b double_len(1) [OF n(1,2)] in \<open>auto simp: hm_room_def\<close>)
  have body: "tx_ok ?g (insert_body H E a b ?h k (Some v) (int (length (cs ! ?h))) P) (\<lambda>P'. \<exists>e.
      hm_ok P' a ?m n (put m n (e, k, v) cs) \<and> root_map P' = root_map P \<and> dom (objects P') = insert e (dom (objects P)))"
    by (rule insert_body_ok [OF ok b k H num g])
  have len': "int (length (concat cs)) \<le> INT_MAX" using len by simp
  show ?thesis unfolding hm_insert_run [OF ok b len'] if_not_P [OF k] Let_def
  proof (rule tx_ok_bind [OF tx_ok_block [OF body]], clarify)
    fix P9 e assume P9: "hm_ok P9 a ?m n (put m n (e, k, v) cs)" "root_map P9 = root_map P" "dom (objects P9) = insert e (dom (objects P))"
    have "tx_ok ?g (hm_tx_rebuild H True P9 a (n * 2)) (rebuilt P9 a (put m n (e, k, v) cs))"
    proof (rule rebuild_nested [OF P9(1) H double_len(3) [OF n(1,2)]])
      assume g1: ?g
      then have "tx_alloc H P9 \<noteq> None" using P9(3) by (intro roomsD [of H 2 P "{e}" P9]) (auto simp: hm_room_def)
      then show "snapshots H \<and> tx_alloc H P9 \<noteq> None \<and> 8 + 16 * unat (if n * 2 = 0 then n else n * 2) \<le> unat PMEMOBJ_MAX_ALLOC_SIZE"
        using g [OF g1] twice [OF g1] double_len(2) [OF n(1,2)] by simp
    qed
    then show "tx_ok ?g (if (0 :: int) \<noteq> 0 then rret (0, P9) else
        rbind (hm_at P9 (Some a)) (\<lambda>m9. rbind (buckets_at P9 (Some b)) (\<lambda>(len, bs).
        if int (length (cs ! ?h)) + 1 > MAX_HASHSET_THRESHOLD \<or> int (length (cs ! ?h)) + 1 > MIN_HASHSET_THRESHOLD \<and> hm_count m9 > 2 * len
        then rbind (hm_tx_rebuild H True P9 a (len * 2)) (\<lambda>P10. rret (0, P10)) else rret (0, P9)))) (\<lambda>(r, P'). r = 0 \<and> inserted P a cs k v P')"
      using inserted_put [OF P9(1,2) n(3)] unfolding after_insert [OF P9(1) b]
      by (auto intro!: tx_ok_ret elim!: tx_ok_bind)
  qed
qed

end
