(* ===== verification/XF_HashmapRem.thy ===== *)
theory XF_HashmapRem
  imports XF_HashmapProps
begin

text \<open>
  The other operations of the hash map: inserting outside a transaction, removing, reading, traversing and
  creating.
\<close>

section \<open>Inserting outside a transaction\<close>

lemma hm_insert_outer:
  assumes ok: "hm_ok P a m n cs" and k: "k \<notin> node_key ` set (concat cs)" and H: "fresh_alloc H"
    and len: "int (length (concat cs)) < INT_MAX"
  shows "(\<exists>P' es. hm_tx_insert H E False P a k (Some v) = Some (Inr ((0, P'), es)) \<and> inserted P a cs k v P') \<or>
    \<not> has_room H P \<and> hm_tx_insert H E False P a k (Some v) = rret (-1, P)"
proof -
  let ?g = "has_room H P" and ?h = "unat (hash_value m n k)" and ?m = "m\<lparr>hm_count := hm_count m + 1\<rparr>"
  obtain b where b: "hm_buckets m = Some b" using hm_ok_buckets [OF ok] by blast
  have n: "n \<noteq> 0" "8 + 16 * unat n \<le> unat PMEMOBJ_MAX_ALLOC_SIZE" "length cs = unat n"
    using ok by (simp_all add: hm_ok_def placed_def)
  have "length (cs ! ?h) \<le> length (concat cs)"
    using member_le_sum_list [of "length (cs ! ?h)" "map length cs"] hash_bound [OF n(1)] n(3) by (simp add: length_concat)
  then have num: "int (length (cs ! ?h)) < INT_MAX" using len by simp
  have body: "tx_ok ?g (insert_body H E a b ?h k (Some v) (int (length (cs ! ?h))) P) (\<lambda>P'. \<exists>e.
      hm_ok P' a ?m n (put m n (e, k, v) cs) \<and> root_map P' = root_map P \<and> dom (objects P') = insert e (dom (objects P)))"
    by (rule insert_body_ok [OF ok b k H num]) (simp add: has_room_def)
  have len': "int (length (concat cs)) \<le> INT_MAX" using len by simp
  note run = hm_insert_run [OF ok b len', of H E False k "Some v", unfolded if_not_P [OF k] Let_def]
  from tx_ok_outer [OF body, of "- 1" P] consider
      P9 e es where "tx_block False (- 1) P (insert_body H E a b ?h k (Some v) (int (length (cs ! ?h))) P) = Some (Inr ((0, P9), es))"
        "hm_ok P9 a ?m n (put m n (e, k, v) cs)" "root_map P9 = root_map P"
    | "\<not> ?g" "tx_block False (- 1) P (insert_body H E a b ?h k (Some v) (int (length (cs ! ?h))) P) = rret (- 1, P)" by blast
  then show ?thesis
  proof cases
    case 1
    obtain P10 es10 where P10: "hm_tx_rebuild H False P9 a (n * 2) = Some (Inr (P10, es10))" "rebuilt P9 a (put m n (e, k, v) cs) P10"
      using rebuild_outer [OF 1(2) H double_len(3) [OF n(1,2)]] by blast
    have "hm_tx_insert H E False P a k (Some v) \<in> {Some (Inr ((0, P10), es @ es10)), Some (Inr ((0, P9), es))}"
      by (simp add: run 1(1) after_insert [OF 1(2) b] P10(1) del: map_option_eq_Some)
    then show ?thesis using inserted_put(1) [OF 1(2,3) n(3)] inserted_put(2) [OF 1(2,3) n(3) P10(2)] by auto
  next
    case 2
    then show ?thesis by (simp add: run)
  qed
qed

section \<open>Taking an entry out of a chain\<close>

lemma chain_mid:
  "chain h q (xs @ x # ys) \<Longrightarrow> \<exists>e. h (fst x) = Some (OtherObject (Entry e)) \<and> ent_key e = node_key x \<and>
     ent_value e = Some (snd (snd x)) \<and> chain h (ent_next e) ys"
  by (induction xs arbitrary: q) auto

lemma chain_skip:
  assumes "h (fst x) = Some (OtherObject (Entry e))" "h (fst (last xs)) = Some (OtherObject (Entry p))"
  shows "xs \<noteq> [] \<Longrightarrow> chain h q (xs @ x # ys) \<Longrightarrow> distinct (map fst (xs @ x # ys)) \<Longrightarrow>
    chain (h(fst (last xs) \<mapsto> OtherObject (Entry (p\<lparr>ent_next := ent_next e\<rparr>)))) q (xs @ ys)"
  using assms(2)
proof (induction xs arbitrary: q)
  case (Cons y xs)
  show ?case
  proof (cases xs)
    case Nil
    then show ?thesis using Cons.prems assms(1) by (auto simp del: fun_upd_apply simp: fun_upd_same)
  next
    case (Cons z zs)
    then obtain f where f: "q = Some (fst y)" "h (fst y) = Some (OtherObject (Entry f))" "ent_key f = node_key y"
      "ent_value f = Some (snd (snd y))" "chain h (ent_next f) (xs @ x # ys)" using Cons.prems(2) by auto
    have "fst (last xs) \<in> fst ` set xs" using Cons by simp
    moreover have "fst y \<notin> fst ` set xs" using Cons.prems(3) by simp
    ultimately have "fst y \<noteq> fst (last xs)" by metis
    then show ?thesis using Cons.IH [OF _ f(5)] Cons.prems(3,4) Cons f by simp
  qed
qed simp

lemma mset_concat_del: "i < length cs \<Longrightarrow> cs ! i = xs @ x # ys \<Longrightarrow> add_mset x (mset (concat (cs[i := xs @ ys]))) = mset (concat cs)"
proof (induction cs arbitrary: i)
  case (Cons c cs)
  then show ?case by (cases i) simp_all
qed simp

lemma distinct_concat_nth:
  "distinct (map f (concat cs)) \<Longrightarrow> i < length cs \<Longrightarrow>
     distinct (map f (cs ! i)) \<and> (\<forall>j < length cs. j \<noteq> i \<longrightarrow> f ` set (cs ! j) \<inter> f ` set (cs ! i) = {})"
proof (induction cs arbitrary: i)
  case (Cons c cs)
  have d: "distinct (map f c)" "distinct (map f (concat cs))" "f ` set c \<inter> f ` set (concat cs) = {}" using Cons.prems(1) by simp_all
  have c: "f ` set c \<inter> f ` set (cs ! j) = {}" if "j < length cs" for j using d(3) concat_nth [OF that, of f] by blast
  show ?case
  proof (cases i)
    case 0
    then show ?thesis using d(1) c by (auto simp: nth_Cons' Int_commute)
  next
    case (Suc i')
    then have "i' < length cs" using Cons.prems(2) by simp
    from Cons.IH [OF d(2) this] c [OF this] Suc show ?thesis by (auto simp: nth_Cons split: nat.split)
  qed
qed simp

section \<open>Removing\<close>

text \<open>The transaction of a removal.\<close>

definition remove_body ::
  "hm_object pobj \<Rightarrow> nat \<Rightarrow> nat \<Rightarrow> nat \<Rightarrow> PMEMoid \<Rightarrow> nat \<Rightarrow> hm_entry \<Rightarrow> hm_object pool \<Rightarrow> (hm_object tx_act, hm_object pool) run" where
  "remove_body H a b h prev en e P =
     rbind (TX_ADD H (case prev of None \<Rightarrow> OtherRange b (Some (bucket_field h)) | Some p \<Rightarrow> OtherRange p (Some NEXT_FIELD)) P) (\<lambda>P1.
     rbind (TX_ADD H (OtherRange a (Some COUNT_FIELD)) P1) (\<lambda>P2.
     rbind (case prev of
         None \<Rightarrow> set_bucket b h (ent_next e) P2
       | Some p \<Rightarrow> set_entry p NEXT_FIELD (\<lambda>x. x\<lparr>ent_next := ent_next e\<rparr>) P2) (\<lambda>P3.
     rbind (set_hm a COUNT_FIELD (\<lambda>m. m\<lparr>hm_count := hm_count m - 1\<rparr>) P3) (\<lambda>P4.
     TX_FREE (Some en) P4))))"

text \<open>The table without the entry.\<close>

lemma tab_remove:
  assumes t: "tab h b n cs" "h b = Some (OtherObject (Buckets n bs))" and i: "i < length cs" "cs ! i = xs @ x # ys"
    and d: "distinct (map fst (concat cs))" and e: "h (fst x) = Some (OtherObject (Entry e))"
    and h': "h' = (if xs = [] then h(b \<mapsto> OtherObject (Buckets n (bs[i := ent_next e])))
      else h(fst (last xs) \<mapsto> OtherObject (Entry ((case h (fst (last xs)) of Some (OtherObject (Entry p)) \<Rightarrow> p)\<lparr>ent_next := ent_next e\<rparr>))))"
  shows "tab (h'(fst x := None)) b n (cs[i := xs @ ys])"
proof -
  have len: "length bs = length cs" and ch: "\<And>j. j < length cs \<Longrightarrow> chain h (bs ! j) (cs ! j)" using t by (auto simp: tab_def)
  have ci: "chain h (bs ! i) (xs @ x # ys)" using ch [OF i(1)] i(2) by simp
  have di: "distinct (map fst (xs @ x # ys))" and disj: "\<And>j. j < length cs \<Longrightarrow> j \<noteq> i \<Longrightarrow> fst ` set (cs ! j) \<inter> fst ` set (xs @ x # ys) = {}"
    using distinct_concat_nth [OF d i(1)] i(2) by simp_all
  have bx: "b \<notin> fst ` set (cs ! j)" if "j < length cs" for j using chain_entries [OF ch [OF that]] t(2) by fastforce
  have bi: "b \<noteq> fst x" "b \<notin> fst ` set xs" "b \<notin> fst ` set ys" using bx [OF i(1)] i(2) by auto
  obtain e' where e': "h (fst x) = Some (OtherObject (Entry e'))" "chain h (ent_next e') ys" using chain_mid [OF ci] by blast
  have nx: "chain h (ent_next e) ys" using e e' by simp
  show ?thesis
  proof (cases "xs = []")
    case True
    have "chain (h'(fst x := None)) (bs[i := ent_next e] ! j) (cs[i := xs @ ys] ! j)" if "j < length cs" for j
      using True nx ch [OF that] bx [OF that] disj [OF that] di bi i(1) len that unfolding h'
      by (cases "j = i") (auto simp del: fun_upd_apply)
    then show ?thesis unfolding tab_def using True h' len bi(1) by (intro exI [of _ "bs[i := ent_next e]"]) simp
  next
    case False
    then have l: "fst (last xs) \<in> fst ` set xs" by simp
    obtain p where p: "h (fst (last xs)) = Some (OtherObject (Entry p))" using chain_entries [OF ci, of "fst (last xs)"] l by auto
    have h1: "h' = h(fst (last xs) \<mapsto> OtherObject (Entry (p\<lparr>ent_next := ent_next e\<rparr>)))" using False p by (simp add: h')
    have bl: "b \<noteq> fst (last xs)" using l bi(2) by metis
    have "chain (h'(fst x := None)) (bs ! j) (cs[i := xs @ ys] ! j)" if "j < length cs" for j
    proof (cases "j = i")
      case True
      then show ?thesis using chain_skip [OF e p False ci di] h1 i(1) di by (simp add: image_Un)
    next
      case jn: False
      have "fst (last xs) \<notin> fst ` set (cs ! j)" "fst x \<notin> fst ` set (cs ! j)" using disj [OF that jn] l by auto
      then show ?thesis using ch [OF that] jn h1 by (simp del: fun_upd_apply)
    qed
    then show ?thesis unfolding tab_def using t(2) h1 len bi(1) bl by (intro exI [of _ bs]) simp
  qed
qed

definition removed :: "hm_object pool \<Rightarrow> nat \<Rightarrow> hm_node list list \<Rightarrow> hm_node \<Rightarrow> hm_object pool \<Rightarrow> bool" where
  "removed P a cs x P' \<longleftrightarrow>
     (\<exists>m' n' cs'. hm_ok P' a m' n' cs' \<and> add_mset x (mset (concat cs')) = mset (concat cs)) \<and> root_map P' = root_map P"

lemma hm_ok_remove:
  assumes ok: "hm_ok P a m n cs" "hm_buckets m = Some b" and i: "i < length cs" "cs ! i = xs @ x # ys"
    and t: "tab (h(fst x := None)) b n (cs[i := xs @ ys])"
  shows "hm_ok (P\<lparr>objects := h(a \<mapsto> OtherObject (HashmapTx (m\<lparr>hm_count := hm_count m - 1\<rparr>)), fst x := None)\<rparr>) a
    (m\<lparr>hm_count := hm_count m - 1\<rparr>) n (cs[i := xs @ ys])"
proof -
  let ?m = "m\<lparr>hm_count := hm_count m - 1\<rparr>" and ?cs = "cs[i := xs @ ys]"
  obtain bs where at: "objects P a = Some (OtherObject (HashmapTx m))" "tab (objects P) b n cs" "a \<noteq> b"
    by (rule hm_okD [OF ok]) blast
  have ms: "mset (x # concat ?cs) = mset (concat cs)" using mset_concat_del [OF i] by simp
  then have sub: "set (concat ?cs) \<subseteq> set (concat cs)" "x \<in> set (concat cs)" using mset_eq_setD [OF ms] by auto
  have a: "a \<notin> fst ` set (concat cs)" using at(1) by (intro tab_no_entry [OF at(2)]) simp
  have ax: "a \<noteq> fst x" using a sub(2) by blast
  have "a \<notin> fst ` set (concat ?cs)" using a sub(1) by blast
  then have "tab (h(a \<mapsto> OtherObject (HashmapTx ?m), fst x := None)) b n ?cs"
    using at(3) ax by (intro tab_frame [OF t]) (auto simp: fun_upd_twist)
  moreover have "placed ?m n ?cs" using ok(1) i unfolding hm_ok_def placed_def
    by (auto simp: hash_value_def nth_list_update)
  moreover have "distinct (map fst (x # concat ?cs))" "distinct (map node_key (x # concat ?cs))"
    using ok(1) unfolding distinct_map_mset [OF ms] by (simp_all add: hm_ok_def)
  moreover have "hm_count ?m = of_nat (length (concat ?cs))"
    using ok(1) mset_eq_length [OF ms, symmetric] by (simp add: hm_ok_def)
  ultimately show ?thesis using ok ax by (simp add: hm_ok_def)
qed

lemma remove_body_ok:
  assumes ok: "hm_ok P a m n cs" "hm_buckets m = Some b" and i: "i < length cs" "cs ! i = xs @ x # ys"
    and e: "objects P (fst x) = Some (OtherObject (Entry e))" and g: "g \<Longrightarrow> snapshots H"
  shows "tx_ok g (remove_body H a b i (before None xs) (fst x) e P) (\<lambda>P'.
    hm_ok P' a (m\<lparr>hm_count := hm_count m - 1\<rparr>) n (cs[i := xs @ ys]) \<and> root_map P' = root_map P \<and> dom (objects P') \<subseteq> dom (objects P))"
proof -
  obtain bs where bs: "objects P a = Some (OtherObject (HashmapTx m))" "hash_fun_p m \<noteq> 0" "n \<noteq> 0"
    "objects P b = Some (OtherObject (Buckets n bs))" "length bs = unat n" "length cs = unat n" "tab (objects P) b n cs"
    "\<And>i. i < unat n \<Longrightarrow> chain (objects P) (bs ! i) (cs ! i)" "a \<noteq> b" by (rule hm_okD [OF ok]) blast
  have c: "chain (objects P) (bs ! i) (xs @ x # ys)" using bs(6,8) i by force
  have d: "distinct (map fst (concat cs))" using ok(1) by (simp add: hm_ok_def)
  note t = tab_remove [OF bs(7,4) i d e refl]
  note res = hm_ok_remove [OF ok i t]
  show ?thesis
  proof (cases "xs = []")
    case True
    have "hm_ok (P\<lparr>objects := (objects P)(b \<mapsto> OtherObject (Buckets n (bs[i := ent_next e])),
        a \<mapsto> OtherObject (HashmapTx (m\<lparr>hm_count := hm_count m - 1\<rparr>)), fst x := None)\<rparr>) a (m\<lparr>hm_count := hm_count m - 1\<rparr>) n (cs[i := xs @ ys])"
      using res True by simp
    then show ?thesis unfolding remove_body_def using True g bs(1,4,5,6,9) i(1)
      by (intro tx_ok_add) (auto simp: before_def set_runs TX_FREE_def tx_do_def)
  next
    case False
    then obtain p where p: "objects P (fst (last xs)) = Some (OtherObject (Entry p))"
      using chain_entries [OF c, of "fst (last xs)"] by auto
    have "hm_ok (P\<lparr>objects := (objects P)(fst (last xs) \<mapsto> OtherObject (Entry (p\<lparr>ent_next := ent_next e\<rparr>)),
        a \<mapsto> OtherObject (HashmapTx (m\<lparr>hm_count := hm_count m - 1\<rparr>)), fst x := None)\<rparr>) a (m\<lparr>hm_count := hm_count m - 1\<rparr>) n (cs[i := xs @ ys])"
      using res False p by auto
    moreover have "a \<noteq> fst (last xs)" using p bs(1) by auto
    ultimately show ?thesis unfolding remove_body_def using False g bs(1) p
      by (intro tx_ok_add) (auto simp: before_def set_runs TX_FREE_def tx_do_def)
  qed
qed

lemma hm_remove_run:
  assumes ok: "hm_ok P a m n cs" "hm_buckets m = Some b"
    and i: "i = unat (hash_value m n (node_key x))" "cs ! i = xs @ x # ys" and x: "node_key x \<notin> node_key ` set xs"
    and e: "objects P (fst x) = Some (OtherObject (Entry e))"
  shows "hm_tx_remove H nested P a (node_key x) =
    rbind (tx_block nested (-1) P (remove_body H a b i (before None xs) (fst x) e P)) (\<lambda>(ret, P5).
      if ret \<noteq> 0 then rret (None, P5)
      else
        rbind (hm_at P5 (Some a)) (\<lambda>m5.
        rbind (buckets_at P5 (Some b)) (\<lambda>(len, bs).
        if hm_count m5 < len
        then rbind (hm_tx_rebuild H nested P5 a (len div 2)) (\<lambda>P6. rret (ent_value e, P6))
        else rret (ent_value e, P5))))"
proof -
  obtain bs where bs: "objects P a = Some (OtherObject (HashmapTx m))" "hash_fun_p m \<noteq> 0" "n \<noteq> 0"
    "objects P b = Some (OtherObject (Buckets n bs))" "length bs = unat n" "length cs = unat n" "tab (objects P) b n cs"
    "\<And>i. i < unat n \<Longrightarrow> chain (objects P) (bs ! i) (cs ! i)" "a \<noteq> b" by (rule hm_okD [OF ok]) blast
  have h: "i < unat n" using hash_bound [OF bs(3)] i(1) by simp
  have c: "chain (objects P) (bs ! i) (xs @ x # ys)" using bs(8) [OF h] i(2) by simp
  show ?thesis
    using bs(1-5) h ok(2) e unfolding hm_tx_remove_def
    by (simp add: hash_run Let_def remove_body_def find_entry_hit [OF c x] flip: i(1) cong: if_cong option.case_cong)
qed

lemma hm_remove_miss:
  assumes ok: "hm_ok P a m n cs" and k: "k \<notin> node_key ` set (concat cs)"
  shows "hm_tx_remove H nested P a k = rret (None, P)" "hm_tx_get P a k = rret None" "hm_tx_lookup P a k = rret 0"
proof -
  obtain b where b: "hm_buckets m = Some b" using hm_ok_buckets [OF ok] by blast
  obtain bs where bs: "objects P a = Some (OtherObject (HashmapTx m))" "hash_fun_p m \<noteq> 0" "n \<noteq> 0"
    "objects P b = Some (OtherObject (Buckets n bs))" "length bs = unat n" "length cs = unat n" "tab (objects P) b n cs"
    "\<And>i. i < unat n \<Longrightarrow> chain (objects P) (bs ! i) (cs ! i)" "a \<noteq> b" by (rule hm_okD [OF ok b]) blast
  have h: "unat (hash_value m n k) < unat n" using hash_bound [OF bs(3)] by simp
  have pl: "placed m n cs" using ok by (simp add: hm_ok_def)
  have "k \<notin> node_key ` set (cs ! unat (hash_value m n k))" using k unfolding placed_keys [OF pl bs(3)] .
  note f = find_entry_miss [OF bs(8) [OF h] this]
  show "hm_tx_remove H nested P a k = rret (None, P)" "hm_tx_get P a k = rret None" "hm_tx_lookup P a k = rret 0"
    using bs(1-5) h b by (simp_all add: hm_tx_remove_def hm_tx_get_def hm_tx_lookup_def hash_run f)
qed

lemma hm_get_hit:
  assumes ok: "hm_ok P a m n cs" and i: "cs ! unat (hash_value m n (node_key x)) = xs @ x # ys" and x: "node_key x \<notin> node_key ` set xs"
  shows "hm_tx_get P a (node_key x) = rret (Some (snd (snd x)))" "hm_tx_lookup P a (node_key x) = rret 1"
proof -
  let ?i = "unat (hash_value m n (node_key x))"
  obtain b where b: "hm_buckets m = Some b" using hm_ok_buckets [OF ok] by blast
  obtain bs where bs: "objects P a = Some (OtherObject (HashmapTx m))" "hash_fun_p m \<noteq> 0" "n \<noteq> 0"
    "objects P b = Some (OtherObject (Buckets n bs))" "length bs = unat n" "length cs = unat n" "tab (objects P) b n cs"
    "\<And>i. i < unat n \<Longrightarrow> chain (objects P) (bs ! i) (cs ! i)" "a \<noteq> b" by (rule hm_okD [OF ok b]) blast
  have h: "?i < unat n" using hash_bound [OF bs(3)] by simp
  have c: "chain (objects P) (bs ! ?i) (xs @ x # ys)" using bs(8) [OF h] i by simp
  obtain e where e: "objects P (fst x) = Some (OtherObject (Entry e))" "ent_value e = Some (snd (snd x))" using chain_mid [OF c] by blast
  show "hm_tx_get P a (node_key x) = rret (Some (snd (snd x)))" "hm_tx_lookup P a (node_key x) = rret 1"
    using bs(1-5) h b e by (simp_all add: hm_tx_get_def hm_tx_lookup_def hash_run find_entry_hit [OF c x])
qed

lemma hm_split:
  assumes ok: "hm_ok P a m n cs" and k: "k \<in> node_key ` set (concat cs)"
  obtains xs x ys where "node_key x = k" "cs ! unat (hash_value m n k) = xs @ x # ys" "k \<notin> node_key ` set xs" "x \<in> set (concat cs)"
proof -
  have pl: "placed m n cs" "n \<noteq> 0" using ok by (simp_all add: hm_ok_def)
  let ?c = "cs ! unat (hash_value m n k)"
  have "\<exists>x \<in> set ?c. node_key x = k" using k unfolding placed_keys [OF pl, symmetric] by auto
  from split_list_first_prop [OF this] obtain xs x ys where 1: "?c = xs @ x # ys" "node_key x = k" "\<forall>y \<in> set xs. node_key y \<noteq> k" by blast
  have "unat (hash_value m n k) < length cs" using hash_bound [OF pl(2)] pl(1) by (simp add: placed_def)
  then have "set ?c \<subseteq> set (concat cs)" using concat_nth [of _ cs "\<lambda>y. y"] by simp
  then have "x \<in> set (concat cs)" using 1(1) by auto
  then show ?thesis by (rule that [OF 1(2,1), rotated]) (use 1(3) in auto)
qed

lemma removed_del:
  assumes "hm_ok P5 a m5 n (cs[i := xs @ ys])" "root_map P5 = root_map P" "i < length cs" "cs ! i = xs @ x # ys"
  shows "removed P a cs x P5" "rebuilt P5 a (cs[i := xs @ ys]) P6 \<Longrightarrow> removed P a cs x P6"
proof -
  note ms = mset_concat_del [OF assms(3,4)]
  show "removed P a cs x P5" unfolding removed_def using assms(1,2) ms by blast
  show "removed P a cs x P6" if "rebuilt P5 a (cs[i := xs @ ys]) P6"
    using that assms(2) unfolding removed_def rebuilt_def ms [symmetric] by auto
qed

lemma half_len:
  fixes n :: "64 word"
  assumes "8 + 16 * unat n \<le> unat PMEMOBJ_MAX_ALLOC_SIZE"
  shows "unat (n div 2) < 2 ^ 59" "8 + 16 * unat (if n div 2 = 0 then n else n div 2) \<le> unat PMEMOBJ_MAX_ALLOC_SIZE"
proof -
  have le: "unat (n div 2) \<le> unat n" by (simp add: unat_div)
  then show "unat (n div 2) < 2 ^ 59" using small_len [OF assms] by simp
  show "8 + 16 * unat (if n div 2 = 0 then n else n div 2) \<le> unat PMEMOBJ_MAX_ALLOC_SIZE" using le assms by simp
qed

text \<open>An entry in its chain.\<close>

definition entry_in :: "hm_object pool \<Rightarrow> hashmap_tx \<Rightarrow> 64 word \<Rightarrow> hm_node list list \<Rightarrow> hm_node list \<Rightarrow> hm_node \<Rightarrow> hm_node list \<Rightarrow> hm_entry \<Rightarrow> bool" where
  "entry_in P m n cs xs x ys e \<longleftrightarrow> cs ! unat (hash_value m n (node_key x)) = xs @ x # ys \<and> node_key x \<notin> node_key ` set xs \<and>
     objects P (fst x) = Some (OtherObject (Entry e)) \<and> ent_value e = Some (snd (snd x))"

lemma entry_in_ex:
  assumes ok: "hm_ok P a m n cs" and k: "k \<in> node_key ` set (concat cs)"
  shows "\<exists>xs x ys e. entry_in P m n cs xs x ys e \<and> node_key x = k \<and> x \<in> set (concat cs)"
proof -
  obtain b where b: "hm_buckets m = Some b" using hm_ok_buckets [OF ok] by blast
  obtain xs x ys where x: "node_key x = k" "cs ! unat (hash_value m n k) = xs @ x # ys" "k \<notin> node_key ` set xs" "x \<in> set (concat cs)"
    by (rule hm_split [OF ok k])
  obtain bs where "chain (objects P) (bs ! unat (hash_value m n k)) (cs ! unat (hash_value m n k))"
    by (rule hm_okD [OF ok b]) (use hash_bound in blast)
  then have "chain (objects P) (bs ! unat (hash_value m n k)) (xs @ x # ys)" by (simp only: x(2))
  then obtain e where "objects P (fst x) = Some (OtherObject (Entry e))" "ent_value e = Some (snd (snd x))" using chain_mid by blast
  then have "entry_in P m n cs xs x ys e" using x(1-3) by (simp add: entry_in_def)
  then show ?thesis using x(1,4) by blast
qed

lemma remove_entry_nested:
  assumes ok: "hm_ok P a m n cs" and x: "entry_in P m n cs xs x ys e" and H: "fresh_alloc H"
  shows "tx_ok (rooms H 1 P) (hm_tx_remove H True P a (node_key x)) (\<lambda>(v, P'). v = Some (snd (snd x)) \<and> removed P a cs x P')"
proof -
  let ?g = "rooms H 1 P"
  define i where "i = unat (hash_value m n (node_key x))"
  obtain b where b: "hm_buckets m = Some b" using hm_ok_buckets [OF ok] by blast
  have n: "n \<noteq> 0" "8 + 16 * unat n \<le> unat PMEMOBJ_MAX_ALLOC_SIZE" "length cs = unat n" using ok by (simp_all add: hm_ok_def placed_def)
  have i: "i < length cs" "cs ! i = xs @ x # ys" using hash_bound [OF n(1)] n(3) x by (simp_all add: i_def entry_in_def)
  have e: "objects P (fst x) = Some (OtherObject (Entry e))" "ent_value e = Some (snd (snd x))" "node_key x \<notin> node_key ` set xs"
    using x by (simp_all add: entry_in_def)
  have body: "tx_ok ?g (remove_body H a b i (before None xs) (fst x) e P) (\<lambda>P'.
      hm_ok P' a (m\<lparr>hm_count := hm_count m - 1\<rparr>) n (cs[i := xs @ ys]) \<and> root_map P' = root_map P \<and> dom (objects P') \<subseteq> dom (objects P))"
    by (rule remove_body_ok [OF ok b i e(1)]) (simp add: rooms_def)
  show ?thesis unfolding hm_remove_run [OF ok b i_def i(2) e(3,1)]
  proof (rule tx_ok_bind [OF tx_ok_block [OF body]], clarify)
    fix P5 assume P5: "hm_ok P5 a (m\<lparr>hm_count := hm_count m - 1\<rparr>) n (cs[i := xs @ ys])" "root_map P5 = root_map P" "dom (objects P5) \<subseteq> dom (objects P)"
    have "tx_ok ?g (hm_tx_rebuild H True P5 a (n div 2)) (rebuilt P5 a (cs[i := xs @ ys]))"
      by (rule rebuild_nested [OF P5(1) H half_len(1) [OF n(2)]])
        (use roomsD [of H 1 P "{}" P5] half_len(2) [OF n(2)] P5(3) in \<open>simp add: rooms_def\<close>)
    then show "tx_ok ?g (if (0 :: int) \<noteq> 0 then rret (None, P5) else
        rbind (hm_at P5 (Some a)) (\<lambda>m5. rbind (buckets_at P5 (Some b)) (\<lambda>(len, bs).
        if hm_count m5 < len then rbind (hm_tx_rebuild H True P5 a (len div 2)) (\<lambda>P6. rret (ent_value e, P6)) else rret (ent_value e, P5))))
        (\<lambda>(v, P'). v = Some (snd (snd x)) \<and> removed P a cs x P')"
      using removed_del [OF P5(1,2) i] e(2) unfolding after_insert [OF P5(1) b] by (auto intro!: tx_ok_ret elim!: tx_ok_bind)
  qed
qed

lemma remove_entry_outer:
  assumes ok: "hm_ok P a m n cs" and x: "entry_in P m n cs xs x ys e" and H: "fresh_alloc H"
  shows "(\<exists>P' es. hm_tx_remove H False P a (node_key x) = Some (Inr ((Some (snd (snd x)), P'), es)) \<and> removed P a cs x P') \<or>
    \<not> snapshots H \<and> hm_tx_remove H False P a (node_key x) = rret (None, P)"
proof -
  define i where "i = unat (hash_value m n (node_key x))"
  obtain b where b: "hm_buckets m = Some b" using hm_ok_buckets [OF ok] by blast
  have n: "n \<noteq> 0" "8 + 16 * unat n \<le> unat PMEMOBJ_MAX_ALLOC_SIZE" "length cs = unat n" using ok by (simp_all add: hm_ok_def placed_def)
  have i: "i < length cs" "cs ! i = xs @ x # ys" using hash_bound [OF n(1)] n(3) x by (simp_all add: i_def entry_in_def)
  have e: "objects P (fst x) = Some (OtherObject (Entry e))" "ent_value e = Some (snd (snd x))" "node_key x \<notin> node_key ` set xs"
    using x by (simp_all add: entry_in_def)
  note run = hm_remove_run [OF ok b i_def i(2) e(3,1), of H False]
  have body: "tx_ok (snapshots H) (remove_body H a b i (before None xs) (fst x) e P) (\<lambda>P'.
      hm_ok P' a (m\<lparr>hm_count := hm_count m - 1\<rparr>) n (cs[i := xs @ ys]) \<and> root_map P' = root_map P \<and> dom (objects P') \<subseteq> dom (objects P))"
    by (rule remove_body_ok [OF ok b i e(1)]) simp
  from tx_ok_outer [OF body, of "- 1" P] consider
      P5 es where "tx_block False (- 1) P (remove_body H a b i (before None xs) (fst x) e P) = Some (Inr ((0, P5), es))"
        "hm_ok P5 a (m\<lparr>hm_count := hm_count m - 1\<rparr>) n (cs[i := xs @ ys])" "root_map P5 = root_map P"
    | "\<not> snapshots H" "tx_block False (- 1) P (remove_body H a b i (before None xs) (fst x) e P) = rret (- 1, P)" by blast
  then show ?thesis
  proof cases
    case 1
    obtain P6 es6 where P6: "hm_tx_rebuild H False P5 a (n div 2) = Some (Inr (P6, es6))" "rebuilt P5 a (cs[i := xs @ ys]) P6"
      using rebuild_outer [OF 1(2) H half_len(1) [OF n(2)]] by blast
    have "hm_tx_remove H False P a (node_key x) \<in> {Some (Inr ((Some (snd (snd x)), P6), es @ es6)), Some (Inr ((Some (snd (snd x)), P5), es))}"
      by (simp add: run 1(1) after_insert [OF 1(2) b] P6(1) e(2) del: map_option_eq_Some)
    then show ?thesis using removed_del(1) [OF 1(2,3) i] removed_del(2) [OF 1(2,3) i P6(2)] by auto
  next
    case 2
    then show ?thesis by (simp add: run)
  qed
qed

end
