(* ===== verification/XF_HashmapLaws.thy ===== *)
theory XF_HashmapLaws
  imports XF_HashmapRem
begin

text \<open>
  The operations of the hash map as operations on the finite map that it stands for: creating, inserting,
  removing, reading, counting and traversing.
\<close>

section \<open>Maps of tables\<close>

lemma map_of_mset:
  assumes "mset xs = mset ys" "distinct (map fst ys)"
  shows "map_of xs = map_of ys"
proof -
  have "distinct (map fst xs)" using assms by (metis mset_eq_imp_distinct_iff mset_map)
  moreover have "set xs = set ys" using assms(1) by (rule mset_eq_setD)
  ultimately show ?thesis using assms(2) by (intro map_of_inject_set [THEN iffD2])
qed

lemma snd_fst: "map fst (map snd xs) = map node_key xs"
  by simp

lemma dom_nodes: "dom (map_of (map snd xs)) = node_key ` set xs"
  by (simp add: dom_map_of_conv_image_fst image_image)

lemma hm_repI:
  assumes "hm_ok P a m n cs" "mset (concat cs) = mset xs" "distinct (map node_key xs)"
  shows "hm_rep P (Some a) (map_of (map snd xs))"
proof -
  have "map_of (map snd xs) = map_of (map snd (concat cs))"
    by (rule map_of_mset [symmetric]) (use assms(2,3) in \<open>simp_all only: mset_map snd_fst\<close>)
  then show ?thesis unfolding hm_rep_def using assms(1) by blast
qed

lemma hm_repE:
  assumes "hm_rep P mp M"
  obtains a m n cs where "mp = Some a" "hm_ok P a m n cs" "M = map_of (map snd (concat cs))" "dom M = node_key ` set (concat cs)"
    "card (dom M) = length (concat cs)" "distinct (map node_key (concat cs))"
proof -
  obtain a m n cs where *: "mp = Some a" "hm_ok P a m n cs" "M = map_of (map snd (concat cs))" using assms by (auto simp: hm_rep_def)
  then have d: "dom M = node_key ` set (concat cs)" "distinct (map node_key (concat cs))" by (simp_all only: dom_nodes hm_ok_def)
  then have "card (dom M) = length (concat cs)" using distinct_card [OF d(2)] by (simp only: set_map length_map)
  then show ?thesis using * d that by blast
qed

lemma inserted_rep:
  assumes "inserted P a cs k v P'" "k \<notin> node_key ` set (concat cs)" "distinct (map node_key (concat cs))"
  shows "hm_rep P' (Some a) ((map_of (map snd (concat cs)))(k \<mapsto> v))" "root_map P' = root_map P"
proof -
  obtain e m n cs' where 1: "hm_ok P' a m n cs'" "mset (concat cs') = mset ((e, k, v) # concat cs)"
    using assms(1) by (auto simp: inserted_def)
  have d: "distinct (map node_key ((e, k, v) # concat cs))" using assms(2,3) by (simp only: list.map distinct.simps set_map) simp
  show "hm_rep P' (Some a) ((map_of (map snd (concat cs)))(k \<mapsto> v))" using hm_repI [OF 1 d] by simp
  show "root_map P' = root_map P" using assms(1) by (simp add: inserted_def)
qed

lemma removed_rep:
  assumes "removed P a cs x P'" "x \<in> set (concat cs)" "distinct (map node_key (concat cs))"
  shows "hm_rep P' (Some a) ((map_of (map snd (concat cs)))(node_key x := None))" "root_map P' = root_map P"
    "map_of (map snd (concat cs)) (node_key x) = Some (snd (snd x))"
proof -
  obtain m n cs' where 1: "hm_ok P' a m n cs'" "mset (concat cs') + {#x#} = mset (concat cs)"
    using assms(1) by (auto simp: removed_def)
  have m: "map_of (map snd (concat cs)) = map_of (map snd (x # concat cs'))"
    by (rule map_of_mset [symmetric]) (use 1(2) [symmetric] assms(3) in \<open>simp_all add: comp_def\<close>)
  have d: "distinct (map node_key (x # concat cs'))"
    using assms(3) distinct_map_mset [of "x # concat cs'" "concat cs" node_key] 1(2) by (simp del: distinct.simps list.map)
  then have "node_key x \<notin> dom (map_of (map snd (concat cs')))" unfolding dom_nodes by (simp del: set_concat)
  then have u: "(map_of (map snd (x # concat cs')))(node_key x := None) = map_of (map snd (concat cs'))" by (cases x) (auto simp: fun_upd_idem_iff)
  show "hm_rep P' (Some a) ((map_of (map snd (concat cs)))(node_key x := None))"
    unfolding m u using hm_repI [OF 1(1) refl] d by simp
  show "root_map P' = root_map P" using assms(1) by (simp add: removed_def)
  show "map_of (map snd (concat cs)) (node_key x) = Some (snd (snd x))" unfolding m by (cases x) simp
qed

section \<open>Inserting, removing and reading\<close>

lemma hm_insert_law:
  assumes rep: "hm_rep P mp M" and H: "fresh_alloc H" and len: "int (card (dom M)) < INT_MAX"
  shows "(\<exists>P' acts. hm_tx_insert H E nested P (the mp) k (Some v) = Some (Inr ((if k \<in> dom M then 1 else 0, P'), acts)) \<and>
      hm_rep P' mp (if k \<in> dom M then M else M(k \<mapsto> v)) \<and> root_map P' = root_map P) \<or>
    (if nested then \<not> hm_room H P mp \<and> hm_tx_insert H E nested P (the mp) k (Some v) = tx_abort
     else \<not> has_room H P \<and> hm_tx_insert H E nested P (the mp) k (Some v) = rret (-1, P))"
proof -
  obtain a m n cs where r: "mp = Some a" "hm_ok P a m n cs" "M = map_of (map snd (concat cs))" "dom M = node_key ` set (concat cs)"
    "card (dom M) = length (concat cs)" "distinct (map node_key (concat cs))" by (rule hm_repE [OF rep])
  have len': "int (length (concat cs)) < INT_MAX" using len r(5) by (simp only:)
  show ?thesis
  proof (cases "k \<in> dom M")
    case True
    obtain b where b: "hm_buckets m = Some b" using hm_ok_buckets [OF r(2)] by blast
    have "hm_tx_insert H E nested P a k (Some v) = rret (1, P)"
      using True unfolding hm_insert_run [OF r(2) b less_imp_le [OF len']] r(4) by (simp only: if_True)
    then show ?thesis using True rep r(1) by simp
  next
    case False
    then have k: "k \<notin> node_key ` set (concat cs)" using r(4) by simp
    note ins = inserted_rep [OF _ k r(6), folded r(3)]
    show ?thesis
    proof (cases nested)
      case True
      then show ?thesis using hm_insert_nested [OF r(2) k H len', of E v] ins False r(1) unfolding tx_ok_def by fastforce
    next
      case nested: False
      then show ?thesis using hm_insert_outer [OF r(2) k H len', of E v] ins False r(1) by fastforce
    qed
  qed
qed

lemma hm_remove_law:
  assumes rep: "hm_rep P mp M" and H: "fresh_alloc H"
  shows "(\<exists>P' acts. hm_tx_remove H nested P (the mp) k = Some (Inr ((M k, P'), acts)) \<and>
      hm_rep P' mp (M(k := None)) \<and> root_map P' = root_map P) \<or>
    (if nested then \<not> rooms H 1 P \<and> hm_tx_remove H nested P (the mp) k = tx_abort
     else \<not> snapshots H \<and> hm_tx_remove H nested P (the mp) k = rret (None, P))"
proof -
  obtain a m n cs where r: "mp = Some a" "hm_ok P a m n cs" "M = map_of (map snd (concat cs))" "dom M = node_key ` set (concat cs)"
    "card (dom M) = length (concat cs)" "distinct (map node_key (concat cs))" by (rule hm_repE [OF rep])
  show ?thesis
  proof (cases "k \<in> dom M")
    case False
    then have "hm_tx_remove H nested P a k = rret (None, P)" "M(k := None) = M"
      using hm_remove_miss(1) [OF r(2)] r(4) by (simp_all add: domIff fun_upd_idem del: set_concat)
    then show ?thesis using False rep r(1) by (simp add: domIff)
  next
    case True
    obtain xs x ys e where x: "entry_in P m n cs xs x ys e" "node_key x = k" "x \<in> set (concat cs)"
      using entry_in_ex [OF r(2) True [unfolded r(4)]] by blast
    note rem = removed_rep [OF _ x(3) r(6), folded r(3), unfolded x(2)]
    have yes: "\<exists>P' acts. hm_tx_remove H nested P (the mp) k = Some (Inr ((M k, P'), acts)) \<and> hm_rep P' mp (M(k := None)) \<and> root_map P' = root_map P"
      if "hm_tx_remove H nested P a k = Some (Inr ((Some (snd (snd x)), P'), acts))" "removed P a cs x P'" for P' acts
      using that(1) rem [OF that(2)] r(1) by auto
    show ?thesis
    proof (cases nested)
      case True
      from remove_entry_nested [OF r(2) x(1) H] consider
          P' acts where "hm_tx_remove H True P a k = Some (Inr ((Some (snd (snd x)), P'), acts))" "removed P a cs x P'"
        | "\<not> rooms H 1 P" "hm_tx_remove H True P a k = tx_abort" unfolding tx_ok_def x(2) by auto
      then show ?thesis using yes [unfolded eqTrueI [OF True]] True r(1) by cases (auto simp: True)
    next
      case False
      from remove_entry_outer [OF r(2) x(1) H] consider
          P' acts where "hm_tx_remove H False P a k = Some (Inr ((Some (snd (snd x)), P'), acts))" "removed P a cs x P'"
        | "\<not> snapshots H" "hm_tx_remove H False P a k = rret (None, P)" unfolding x(2) by blast
      then show ?thesis using yes [unfolded eq_False [THEN iffD2, OF False]] False r(1) by cases (auto simp: False)
    qed
  qed
qed

lemma hm_get_law:
  assumes rep: "hm_rep P mp M"
  shows "hm_tx_get P (the mp) k = rret (M k)" "hm_tx_lookup P (the mp) k = rret (if k \<in> dom M then 1 else 0)"
proof -
  obtain a m n cs where r: "mp = Some a" "hm_ok P a m n cs" "M = map_of (map snd (concat cs))" "dom M = node_key ` set (concat cs)"
    "card (dom M) = length (concat cs)" "distinct (map node_key (concat cs))" by (rule hm_repE [OF rep])
  show "hm_tx_get P (the mp) k = rret (M k)" "hm_tx_lookup P (the mp) k = rret (if k \<in> dom M then 1 else 0)"
  proof (atomize (full), cases "k \<in> dom M")
    case False
    then show "hm_tx_get P (the mp) k = rret (M k) \<and> hm_tx_lookup P (the mp) k = rret (if k \<in> dom M then 1 else 0)"
      by (auto simp: r(1) domIff hm_remove_miss(2,3) [OF r(2) False [unfolded r(4)]])
  next
    case True
    obtain xs x ys where x: "node_key x = k" "cs ! unat (hash_value m n k) = xs @ x # ys" "k \<notin> node_key ` set xs" "x \<in> set (concat cs)"
      by (rule hm_split [OF r(2) True [unfolded r(4)]])
    have "M k = Some (snd (snd x))" unfolding r(3) by (rule map_of_is_SomeI) (use r(6) x(1,4) in \<open>force simp: comp_def\<close>)+
    then show "hm_tx_get P (the mp) k = rret (M k) \<and> hm_tx_lookup P (the mp) k = rret (if k \<in> dom M then 1 else 0)"
      using True by (simp add: r(1) hm_get_hit [OF r(2), of x xs ys, unfolded x(1), OF x(2,3)])
  qed
qed

section \<open>Rebuilding on request\<close>

lemma rebuilt_rep:
  assumes "rebuilt P a cs P'" "distinct (map node_key (concat cs))"
  shows "hm_rep P' (Some a) (map_of (map snd (concat cs)))" "root_map P' = root_map P"
  using assms hm_repI [OF _ _ assms(2)] by (auto simp: rebuilt_def)

lemma hm_rebuild_law:
  assumes rep: "hm_rep P mp M" and H: "fresh_alloc H" and len: "unat len < 2 ^ 59"
  shows "\<exists>P' acts. hm_tx_cmd H False P (the mp) HASHMAP_CMD_REBUILD len = Some (Inr ((0, P'), acts)) \<and>
    hm_rep P' mp M \<and> root_map P' = root_map P"
proof -
  obtain a m n cs where r: "mp = Some a" "hm_ok P a m n cs" "M = map_of (map snd (concat cs))" "dom M = node_key ` set (concat cs)"
    "card (dom M) = length (concat cs)" "distinct (map node_key (concat cs))" by (rule hm_repE [OF rep])
  from rebuild_outer [OF r(2) H len] obtain P' acts where
    P': "hm_tx_rebuild H False P a len = Some (Inr (P', acts))" "rebuilt P a cs P'" by blast
  then show ?thesis using rebuilt_rep [OF P'(2) r(6)] r(1,3) by (simp add: hm_tx_cmd_def)
qed

text \<open>A new array without buckets: the first entry that is moved is out of its range.\<close>

lemma move_buckets_range:
  assumes "objects P a = Some (OtherObject (HashmapTx m))" "hash_fun_p m \<noteq> 0" "len \<noteq> 0"
    and "objects P old = Some (OtherObject (Buckets n bs))" "objects P new = Some (OtherObject (Buckets len []))" "old \<noteq> new" "a \<noteq> old"
    and "snapshots H"
  shows "(\<And>i. i \<in> set is \<Longrightarrow> i < length bs \<and> chain (objects P) (bs ! i) (cs ! i)) \<Longrightarrow> \<exists>i \<in> set is. cs ! i \<noteq> [] \<Longrightarrow>
    move_buckets H (Some a) old new is P = rub ''array index''"
proof (induction "is")
  case (Cons i "is")
  have i: "i < length bs" "chain (objects P) (bs ! i) (cs ! i)" using Cons.prems(1) by simp_all
  show ?case
  proof (cases "cs ! i")
    case Nil
    then have "move_bucket H (Some a) old new i P = rret P" using i assms(4) by (subst move_bucket.simps) simp
    then show ?thesis using Cons Nil by simp
  next
    case (Cons y c)
    then obtain e where e: "bs ! i = Some (fst y)" "objects P (fst y) = Some (OtherObject (Entry e))" using i(2) by auto
    then have "fst y \<noteq> old" "fst y \<noteq> new" using assms(4,5) by auto
    then have "move_bucket H (Some a) old new i P = rub ''array index''"
      using assms i(1) e by (subst move_bucket.simps) (simp add: hash_run set_runs TX_ADD_run bucket_at_def)
    then show ?thesis by simp
  qed
qed simp

lemma wrapped_size: "buckets_size 1152921504606846976 = 8"
  by (simp add: buckets_size_def)

lemma hm_rebuild_wraps:
  assumes rep: "hm_rep P mp M" and M: "M \<noteq> Map.empty" and H: "fresh_alloc H" "has_room H P"
  shows "hm_tx_cmd H nested P (the mp) HASHMAP_CMD_REBUILD (2 ^ 60) = rub ''array index''"
proof -
  obtain a m n cs where r: "mp = Some a" "hm_ok P a m n cs" "M = map_of (map snd (concat cs))" "dom M = node_key ` set (concat cs)"
    "card (dom M) = length (concat cs)" "distinct (map node_key (concat cs))" by (rule hm_repE [OF rep])
  obtain b where b: "hm_buckets m = Some b" using hm_ok_buckets [OF r(2)] by blast
  obtain bs where bs: "objects P a = Some (OtherObject (HashmapTx m))" "hash_fun_p m \<noteq> 0" "n \<noteq> 0"
    "objects P b = Some (OtherObject (Buckets n bs))" "length bs = unat n" "length cs = unat n" "tab (objects P) b n cs"
    "\<And>i. i < unat n \<Longrightarrow> chain (objects P) (bs ! i) (cs ! i)" "a \<noteq> b" by (rule hm_okD [OF r(2) b]) blast
  obtain new where new: "tx_alloc H P = Some new" "objects P new = None" "snapshots H"
    using H by (auto simp: has_room_def fresh_alloc_def)
  let ?P = "P\<lparr>objects := (objects P)(new \<mapsto> OtherObject (Buckets (2 ^ 60) []))\<rparr>"
  have ne: "new \<noteq> a" "new \<noteq> b" using new(2) bs(1,4) by auto
  have nin: "new \<notin> fst ` set (cs ! i)" if "i < unat n" for i
    using tab_no_entry [OF bs(7), of new] new(2) concat_nth [of i cs fst] that bs(6) by auto
  have "\<exists>c \<in> set cs. c \<noteq> []" using M r(3) by (cases "concat cs = []") (auto simp: concat_eq_Nil_conv)
  then have "\<exists>i \<in> set [0..<unat n]. cs ! i \<noteq> []" using bs(6) by (metis atLeastLessThan_iff in_set_conv_nth le0 set_upt)
  moreover have "i < length bs \<and> chain (objects ?P) (bs ! i) (cs ! i)" if "i \<in> set [0..<unat n]" for i
    using that bs(5) bs(8) [of i] nin [of i] by simp
  ultimately have "move_buckets H (Some a) b new [0..<unat n] ?P = rub ''array index''"
    using bs ne new(3) by (intro move_buckets_range [where m = m and bs = bs and cs = cs]) auto
  then show ?thesis using bs(1,4) b r(1) new ne
    by (simp add: hm_tx_cmd_def hm_tx_rebuild_def TX_ADD_run zalloc_buckets_def TX_NEW_run wrapped_size set_nbuckets_def tx_do_def
      PMEMOBJ_MAX_ALLOC_SIZE_def)
qed

section \<open>Traversing and counting\<close>

lemma foreach_buckets_law:
  assumes cb: "goes_on cb" and b: "objects P b = Some (OtherObject (Buckets n bs))"
  shows "(\<And>i. i \<in> set is \<Longrightarrow> i < length bs \<and> chain (objects P) (bs ! i) (cs ! i)) \<Longrightarrow>
    foreach_buckets P (Some b) cb is 0 s = Some (xbind (xfor (visit cb) (concat (map (\<lambda>i. map snd (cs ! i)) is)) s) (\<lambda>s'. xret (0, s')))"
proof (induction "is" arbitrary: s)
  case Nil
  then show ?case by (simp add: rret_def)
next
  case (Cons i "is")
  have i: "i < length bs" "chain (objects P) (bs ! i) (cs ! i)" using Cons.prems by simp_all
  show ?case
  proof (cases "xfor (visit cb) (map snd (cs ! i)) s")
    case (Inr p)
    then show ?thesis using b i(1) Cons.IH [of "fst p"] Cons.prems
      by (cases p) (simp add: foreach_bucket_chain [OF cb i(2)] xfor_append)
  qed (simp add: foreach_bucket_chain [OF cb i(2)] b i(1) xfor_append)
qed

lemma hm_foreach_law:
  assumes rep: "hm_rep P mp M" and cb: "goes_on cb"
  shows "\<exists>kvs. map_of kvs = M \<and> distinct (map fst kvs) \<and>
    hm_tx_foreach P (the mp) cb s = Some (xbind (xfor (visit cb) kvs s) (\<lambda>s'. xret (0, s')))"
proof -
  obtain a m n cs where r: "mp = Some a" "hm_ok P a m n cs" "M = map_of (map snd (concat cs))" "dom M = node_key ` set (concat cs)"
    "card (dom M) = length (concat cs)" "distinct (map node_key (concat cs))" by (rule hm_repE [OF rep])
  obtain b where b: "hm_buckets m = Some b" using hm_ok_buckets [OF r(2)] by blast
  obtain bs where bs: "objects P a = Some (OtherObject (HashmapTx m))" "hash_fun_p m \<noteq> 0" "n \<noteq> 0"
    "objects P b = Some (OtherObject (Buckets n bs))" "length bs = unat n" "length cs = unat n" "tab (objects P) b n cs"
    "\<And>i. i < unat n \<Longrightarrow> chain (objects P) (bs ! i) (cs ! i)" "a \<noteq> b" by (rule hm_okD [OF r(2) b]) blast
  have "map (\<lambda>i. map snd (cs ! i)) [0..<unat n] = map (map snd) cs" by (rule nth_equalityI) (simp_all add: bs(6))
  then have "concat (map (\<lambda>i. map snd (cs ! i)) [0..<unat n]) = map snd (concat cs)" by (simp add: map_concat)
  then have "hm_tx_foreach P a cb s = Some (xbind (xfor (visit cb) (map snd (concat cs)) s) (\<lambda>s'. xret (0, s')))"
    using foreach_buckets_law [OF cb bs(4), of "[0..<unat n]" cs s] bs b by (simp add: hm_tx_foreach_def)
  then show ?thesis using r(1,3,6) by (intro exI [of _ "map snd (concat cs)"]) (simp only: snd_fst option.sel simp_thms)
qed

lemma hm_count_law:
  assumes "hm_rep P mp M"
  shows "hm_tx_count P (the mp) = rret (of_nat (card (dom M)))" "hm_tx_init P (the mp) = rret 0" "hm_tx_check P mp = rret 0"
  by (rule hm_repE [OF assms], simp add: hm_ok_def hm_tx_count_def hm_tx_init_def hm_tx_check_def del: length_concat)+

lemma hm_new_object:
  assumes "hm_rep P mp M" "objects P c = None"
  shows "hm_rep (P\<lparr>objects := (objects P)(c \<mapsto> x)\<rparr>) mp M"
proof -
  obtain a m n cs where r: "mp = Some a" "hm_ok P a m n cs" "M = map_of (map snd (concat cs))" using assms(1) by (auto simp: hm_rep_def)
  obtain b where b: "hm_buckets m = Some b" "tab (objects P) b n cs" using r(2) by (auto simp: hm_ok_def)
  have "c \<notin> fst ` set (concat cs)" by (rule tab_no_entry [OF b(2)]) (simp add: assms(2))
  moreover have "b \<noteq> c" using b(2) assms(2) by (auto simp: tab_def)
  ultimately have "tab ((objects P)(c \<mapsto> x)) b n cs" by (intro tab_frame [OF b(2)]) auto
  moreover have "a \<noteq> c" using r(2) assms(2) by (auto simp: hm_ok_def)
  ultimately have "hm_ok (P\<lparr>objects := (objects P)(c \<mapsto> x)\<rparr>) a m n cs" using r(2) b(1) by (simp add: hm_ok_def)
  then show ?thesis unfolding hm_rep_def using r(1,3) by blast
qed

section \<open>Creating\<close>

lemma draw_nonzero_ends:
  assumes "(word_of_int (r (i + j)) :: 32 word) \<noteq> 0"
  shows "\<exists>l. draw_nonzero r i = Some l"
  using assms
proof (induction j arbitrary: i)
  case 0
  then show ?case by (subst draw_nonzero.simps) simp
next
  case (Suc j)
  then show ?case by (subst draw_nonzero.simps) simp
qed

text \<open>The map after its initialisation, apart from its buckets, and the new buckets.\<close>

definition fresh_hm :: "hm_host \<Rightarrow> nat \<Rightarrow> 32 word \<Rightarrow> hashmap_tx \<Rightarrow> hashmap_tx" where
  "fresh_hm E l seed m = m\<lparr>hm_seed := seed, hash_fun_a := word_of_int (hm_rand E l), hash_fun_b := word_of_int (hm_rand E (Suc l)),
     hash_fun_p := HASH_FUNC_COEFF_P\<rparr>"

lemma init_size: "\<not> buckets_size INIT_BUCKETS_NUM > PMEMOBJ_MAX_ALLOC_SIZE" "(unat (buckets_size INIT_BUCKETS_NUM) - 8) div 16 = 10"
  by (simp_all add: buckets_size_def INIT_BUCKETS_NUM_def PMEMOBJ_MAX_ALLOC_SIZE_def)

lemma create_hashmap_run:
  fixes seed :: "32 word"
  assumes a: "objects P a = Some (OtherObject (HashmapTx m))" and H: "fresh_alloc H" and draw: "draw_nonzero (hm_rand E) 0 = Some l"
  defines "Q \<equiv> P\<lparr>objects := (objects P)(a \<mapsto> OtherObject (HashmapTx (fresh_hm E l seed m)))\<rparr>"
  shows "(\<exists>b acts. tx_alloc H Q = Some b \<and> b \<noteq> a \<and> create_hashmap H E P a seed =
      Some (Inr (Q\<lparr>objects := (objects Q)(b \<mapsto> OtherObject (Buckets INIT_BUCKETS_NUM (replicate 10 None)),
        a \<mapsto> OtherObject (HashmapTx (fresh_hm E l seed m\<lparr>hm_buckets := Some b\<rparr>)))\<rparr>, acts))) \<or>
    \<not> (snapshots H \<and> tx_alloc H Q \<noteq> None) \<and>
      create_hashmap H E P a seed = Some (Inl (Abort ''create_hashmap: transaction aborted''))"
proof (cases "tx_snapshot H P (OtherRange a None) \<and> tx_alloc H Q \<noteq> None")
  case True
  then obtain b where b: "tx_alloc H Q = Some b" by blast
  then have "objects Q b = None" using H by (simp add: fresh_alloc_def)
  then have "b \<noteq> a" by (auto simp: Q_def)
  then show ?thesis using True a b draw
    by (auto simp: create_hashmap_def TX_ADD_run set_runs zalloc_buckets_def init_size TX_NEW_run Q_def fresh_hm_def set_nbuckets_def
      tx_do_def fun_upd_twist)
next
  case False
  then show ?thesis using a draw
    by (auto simp: create_hashmap_def TX_ADD_run set_runs zalloc_buckets_def init_size TX_NEW_run Q_def fresh_hm_def tx_abort_def)
qed

lemma hm_create_law:
  assumes H: "fresh_alloc H" and draw: "draw_nonzero (hm_rand E) 0 = Some l"
  shows "(\<exists>P' acts. hm_tx_create H E nested P args = Some (Inr ((0, P'), acts)) \<and> hm_rep P' (root_map P') Map.empty) \<or>
    \<not> rooms H 2 P \<and> hm_tx_create H E nested P args \<in> {if nested then tx_abort else rret (-1, P),
      Some (Inl (Abort ''create_hashmap: transaction aborted''))}"
proof (cases "tx_snapshot H P MapRange \<and> tx_alloc H P \<noteq> None")
  case False
  then have "hm_tx_create H E nested P args = (if nested then tx_abort else rret (-1, P))"
    by (auto simp: hm_tx_create_def TX_ADD_run TX_NEW_run tx_block_def tx_abort_def)
  moreover have "\<not> rooms H 2 P" using False rooms_has_room [of H 2 P] by (auto simp: has_room_def)
  ultimately show ?thesis by simp
next
  case True
  then obtain a where a: "tx_alloc H P = Some a" by blast
  let ?seed = "case args of None \<Rightarrow> 0 | Some seed \<Rightarrow> seed"
  define P3 where "P3 = P\<lparr>objects := (objects P)(a \<mapsto> OtherObject (HashmapTx hashmap_zero)), root_map := Some a\<rparr>"
  let ?Q = "P3\<lparr>objects := (objects P3)(a \<mapsto> OtherObject (HashmapTx (fresh_hm E l ?seed hashmap_zero)))\<rparr>"
  have run: "hm_tx_create H E nested P args = tx_block nested (-1) P (map_option (xemit [TxAdd MapRange, TxNew a (OtherObject (HashmapTx hashmap_zero)), SetMap (Some a)])
      (create_hashmap H E P3 a ?seed))"
    using True a by (simp add: hm_tx_create_def TX_ADD_run TX_NEW_run tx_do_def P3_def option.map_comp comp_def)
  have a3: "objects P3 a = Some (OtherObject (HashmapTx hashmap_zero))" by (simp add: P3_def)
  from create_hashmap_run [OF this H draw, of ?seed] show ?thesis
  proof (elim disjE exE conjE)
    fix b acts
    let ?P' = "?Q\<lparr>objects := (objects ?Q)(b \<mapsto> OtherObject (Buckets INIT_BUCKETS_NUM (replicate 10 None)),
        a \<mapsto> OtherObject (HashmapTx (fresh_hm E l ?seed hashmap_zero\<lparr>hm_buckets := Some b\<rparr>)))\<rparr>"
    assume b: "b \<noteq> a" and c: "create_hashmap H E P3 a ?seed = Some (Inr (?P', acts))"
    have "hm_ok ?P' a (fresh_hm E l ?seed hashmap_zero\<lparr>hm_buckets := Some b\<rparr>) INIT_BUCKETS_NUM (replicate 10 [])"
      using b by (simp add: INIT_BUCKETS_NUM_def hm_ok_def tab_def placed_def fresh_hm_def hashmap_zero_def HASH_FUNC_COEFF_P_def PMEMOBJ_MAX_ALLOC_SIZE_def)
    then have "hm_rep ?P' (root_map ?P') Map.empty" unfolding hm_rep_def by (intro exI conjI) (auto simp: P3_def)
    then show ?thesis using c by (simp add: run tx_block_def)
  next
    assume no: "\<not> (snapshots H \<and> tx_alloc H ?Q \<noteq> None)"
      and "create_hashmap H E P3 a ?seed = Some (Inl (Abort ''create_hashmap: transaction aborted''))"
    then have "hm_tx_create H E nested P args = Some (Inl (Abort ''create_hashmap: transaction aborted''))" by (simp add: run tx_block_def)
    moreover have "\<not> rooms H 2 P"
    proof
      assume r: "rooms H 2 P"
      then have "tx_alloc H ?Q \<noteq> None" by (rule roomsD [of H 2 P "{a}"]) (auto simp: P3_def)
      then show False using no r by (simp add: rooms_def)
    qed
    ultimately show ?thesis by simp
  qed
qed

end
