(* ===== verification/XF_HashmapCrash.thy ===== *)
theory XF_HashmapCrash
  imports XF_HashmapLaws
begin

text \<open>
  Crashes of the hash map: every transaction of its operations adds what it changes, so that the library brings back
  the pool from before it. An insertion or a removal outside a transaction may be two transactions, of which the
  second one rebuilds the map.
\<close>

section \<open>Safe steps\<close>

abbreviation covered :: "tx_range list \<Rightarrow> nat list \<Rightarrow> nat \<Rightarrow> nat \<Rightarrow> bool" where
  "covered rs as a f \<equiv> OtherRange a (Some f) \<in> set rs \<or> OtherRange a None \<in> set rs \<or> a \<in> set as"

lemma quiet_hm [simp]:
  "quiet (hm_at P q)" "quiet (buckets_at P q)" "quiet (entry_at P a)" "quiet (bucket_at P q i)" "quiet (hash P q q' k)" "quiet (num_inc num)"
proof -
  show 1: "quiet (hm_at P q)" for q by (auto simp: hm_at_def split: option.split object.split hm_object.split)
  show 2: "quiet (buckets_at P q)" for q by (auto simp: buckets_at_def split: option.split object.split hm_object.split)
  show "quiet (entry_at P a)" by (auto simp: entry_at_def split: option.split object.split hm_object.split)
  show "quiet (bucket_at P q i)" using 2 by (auto simp: bucket_at_def intro!: quiet_rbind)
  show "quiet (hash P q q' k)" using 1 2 by (auto simp: hash_def intro!: quiet_rbind)
  show "quiet (num_inc num)" by (simp add: num_inc_def)
qed

lemma quiet_scan_bucket [simp]: "quiet (scan_bucket P k q num)"
proof (rule quietI)
  fix y assume "scan_bucket P k q num = Some y"
  then show "quiet (Some y)"
  proof (rule scan_bucket.raw_induct [where Pa = "\<lambda>_ y. quiet (Some y)", rotated], goal_cases)
    case (1 f)
    have [simp]: "quiet (f P k q num)" for P k q num by (rule quietI) (rule 1(1))
    show ?case using 1(2) [symmetric] by (simp add: quiet_rbind split: option.split)
  qed
qed

lemma quiet_find_entry [simp]: "quiet (find_entry P k prev q)"
proof (rule quietI)
  fix y assume "find_entry P k prev q = Some y"
  then show "quiet (Some y)"
  proof (rule find_entry.raw_induct [where Pa = "\<lambda>_ y. quiet (Some y)", rotated], goal_cases)
    case (1 f)
    have [simp]: "quiet (f P k prev q)" for P k prev q by (rule quietI) (rule 1(1))
    show ?case using 1(2) [symmetric] by (simp add: quiet_rbind split: option.split)
  qed
qed

lemma safe_sets:
  "covered rs as a f \<Longrightarrow> safe rs as P (set_hm a f u P)"
  "covered rs as a f \<Longrightarrow> safe rs as P (set_entry a f w P)"
  "covered rs as a (bucket_field i) \<Longrightarrow> safe rs as P (set_bucket a i q P)"
  "covered rs as a 0 \<Longrightarrow> safe rs as P (set_nbuckets a n P)"
  by (auto simp: set_hm_def set_entry_def set_bucket_def set_nbuckets_def intro!: safe_read safe_last)

lemmas safe_set = safe_sets [THEN safe_bind]

lemmas safe_hm_reads = quiet_hm [THEN safe_read] quiet_scan_bucket [THEN safe_read] quiet_find_entry [THEN safe_read]

lemma safe_zalloc:
  assumes "\<And>a P'. safe rs (a # as) P' (k (a, P'))"
  shows "safe rs as P (rbind (zalloc_buckets H sz P) k)"
  using safe_new [OF assms] by (simp add: zalloc_buckets_def)

lemma safe_move_bucket:
  assumes "OtherRange old None \<in> set rs" "new \<in> set as"
  shows "safe rs as P (move_bucket H hm old new i P)"
proof -
  define Q where "Q = (\<lambda>old new P r. \<forall>rs as. OtherRange old None \<in> set rs \<longrightarrow> new \<in> set as \<longrightarrow> safe rs as P (r :: (hm_object tx_act, hm_object pool) run))"
  have "Q old new P (Some y)" if "move_bucket H hm old new i P = Some y" for y
    using that
  proof (rule move_bucket.raw_induct [where Pa = "\<lambda>(((((H, hm), old), new), i), P) y. Q old new P (Some y)", rotated, simplified], goal_cases)
    case (1 f H hm old new i P y)
    have f: "safe rs as P (f H hm old new i P)" if "OtherRange old None \<in> set rs" "new \<in> set as" for rs as P
      using 1(1) [of H hm old new i P] that by (cases "f H hm old new i P") (auto simp: safe_def Q_def)
    show ?case using 1(2) [symmetric] unfolding Q_def
      by (auto intro!: safe_hm_reads safe_set safe_add f split: option.split)
  qed
  then show ?thesis using assms by (cases "move_bucket H hm old new i P") (auto simp: safe_def Q_def)
qed

lemma safe_move_buckets: "OtherRange old None \<in> set rs \<Longrightarrow> new \<in> set as \<Longrightarrow> safe rs as P (move_buckets H hm old new is P)"
  by (induction "is" arbitrary: P) (auto intro!: safe_bind safe_move_bucket)

section \<open>Safe operations\<close>

lemma safe_op_bind: "safe_op P r \<Longrightarrow> (\<And>x P'. safe_op P' (k (x, P'))) \<Longrightarrow> safe_op P (rbind r k)"
  by (fastforce simp: safe_op_def rbind_eq_Some intro: protected_append)

lemma safe_op_of: "safe [] [] P r \<Longrightarrow> safe_op P (rbind r (\<lambda>P'. rret (x, P')))"
  by (fastforce simp: safe_op_def safe_def rbind_eq_Some)

lemma safe_rebuild_tx: "safe [] [] P (rebuild_body H a old n len P)"
  unfolding rebuild_body_def
  by (auto intro!: safe_add safe_zalloc safe_set safe_bind [OF safe_move_buckets] safe_free_last)

lemma safe_rebuild: "safe [] [] P (hm_tx_rebuild H nested P a len)"
  unfolding hm_tx_rebuild_def Let_def
  by (auto intro!: safe_hm_reads safe_call [OF safe_op_block [OF safe_rebuild_tx [unfolded rebuild_body_def]]])

lemma safe_insert_tx: "safe [] [] P (insert_body H E a b h k v num P)"
  unfolding insert_body_def
  by (auto intro!: safe_add safe_new safe_set safe_hm_reads)

text \<open>What follows the transaction of an insertion or of a removal.\<close>

lemma safe_after:
  "safe_op P (rbind (hm_at P q) (\<lambda>m. rbind (buckets_at P b) (\<lambda>(len, bs).
     if c m len then rbind (hm_tx_rebuild H nested P a (f len)) (\<lambda>P'. rret (x, P')) else rret (x, P))))"
  by (auto intro!: safe_op_read safe_op_of safe_rebuild)

lemmas safe_op_reads = quiet_hm [THEN safe_op_read] quiet_scan_bucket [THEN safe_op_read] quiet_find_entry [THEN safe_op_read]

lemma safe_hm_insert: "safe_op P (hm_tx_insert H E nested P a k v)"
  unfolding hm_tx_insert_def Let_def insert_body_def [symmetric]
  by (auto intro!: safe_op_reads safe_op_bind [OF safe_op_block [OF safe_insert_tx]] safe_after split: option.split simp del: One_nat_def)

lemma safe_remove_tx: "safe [] [] P (remove_body H a b h prev en e P)"
  unfolding remove_body_def
  by (cases prev) (auto intro!: safe_add safe_set safe_free_last)

lemma safe_hm_remove: "safe_op P (hm_tx_remove H nested P a k)"
  unfolding hm_tx_remove_def Let_def remove_body_def [symmetric]
  by (auto intro!: safe_op_reads safe_op_bind [OF safe_op_block [OF safe_remove_tx]] safe_after split: option.split)

lemma safe_draw: "(\<And>i. safe rs as P (k i)) \<Longrightarrow> safe rs as P (Option.bind d k)"
  by (cases d) (simp_all add: safe_def)

lemma safe_catch:
  assumes "safe rs as P r"
  shows "safe rs as P (Option.bind r (\<lambda>r. case r of Inl (Throw s) \<Rightarrow> Some (Inl f) | _ \<Rightarrow> Some r))"
proof (cases r)
  case (Some b)
  then show ?thesis using assms by (cases b) (auto simp: safe_def split: xf_fail.splits)
qed (simp add: safe_def)

lemma safe_hm_create: "safe_op P (hm_tx_create H E nested P args)"
proof -
  have "safe rs (a # as) P' (create_hashmap H E P' a seed)" for rs a as P' seed
    unfolding create_hashmap_def by (intro safe_catch) (auto intro!: safe_add safe_set safe_draw safe_zalloc safe_sets)
  then show ?thesis unfolding hm_tx_create_def
    by (intro safe_op_block safe_add safe_new) (auto intro!: safe_do)
qed

section \<open>An insertion outside a transaction\<close>

text \<open>
  The insertion is one transaction, and the rebuilding another: a crash in the first one gives the pool from
  before, a crash in the second one a pool that has the new key already.
\<close>

lemma hm_insert_two:
  assumes rep: "hm_rep P (Some a) M" and H: "fresh_alloc H" and len: "int (card (dom M)) < INT_MAX" and k: "k \<notin> dom M"
    and run: "hm_tx_insert H E False P a k (Some v) = Some (Inr ((0, P'), acts))"
  shows "\<exists>P1 acts1 acts2. acts = acts1 @ acts2 \<and> protected [] [] acts1 \<and> protected [] [] acts2 \<and>
    fold apply_act acts1 P = P1 \<and> fold apply_act acts2 P1 = P' \<and> hm_rep P1 (Some a) (M(k \<mapsto> v))"
proof -
  obtain m n cs where r: "hm_ok P a m n cs" "M = map_of (map snd (concat cs))" "dom M = node_key ` set (concat cs)"
    "card (dom M) = length (concat cs)" "distinct (map node_key (concat cs))" by (rule hm_repE [OF rep]) (simp only: option.inject)
  obtain b where b: "hm_buckets m = Some b" using hm_ok_buckets [OF r(1)] by blast
  let ?h = "unat (hash_value m n k)" and ?m = "m\<lparr>hm_count := hm_count m + 1\<rparr>"
  have n: "n \<noteq> 0" "length cs = unat n" using r(1) by (simp_all add: hm_ok_def placed_def)
  have "length (cs ! ?h) \<le> length (concat cs)"
    using member_le_sum_list [of "length (cs ! ?h)" "map length cs"] hash_bound [OF n(1)] n(2) by (simp add: length_concat)
  then have num: "int (length (cs ! ?h)) < INT_MAX" using len r(4) by simp
  have k': "k \<notin> node_key ` set (concat cs)" using k r(3) by simp
  have len': "int (length (concat cs)) \<le> INT_MAX" using len r(4) by simp
  have body: "tx_ok False (insert_body H E a b ?h k (Some v) (int (length (cs ! ?h))) P) (\<lambda>P'. \<exists>e.
      hm_ok P' a ?m n (put m n (e, k, v) cs) \<and> root_map P' = root_map P \<and> dom (objects P') = insert e (dom (objects P)))"
    by (rule insert_body_ok [OF r(1) b k' H num]) simp
  let ?t = "tx_block False (- 1) P (insert_body H E a b ?h k (Some v) (int (length (cs ! ?h))) P)"
  obtain ret P1 acts1 acts2 where 1: "?t = Some (Inr ((ret, P1), acts1))" "acts = acts1 @ acts2"
    and 2: "(if ret \<noteq> 0 then rret (ret, P1) else
        rbind (hm_at P1 (Some a)) (\<lambda>m9.
        rbind (buckets_at P1 (Some b)) (\<lambda>(len, bs).
        if int (length (cs ! ?h)) + 1 > MAX_HASHSET_THRESHOLD \<or> (int (length (cs ! ?h)) + 1 > MIN_HASHSET_THRESHOLD \<and> hm_count m9 > 2 * len)
        then rbind (hm_tx_rebuild H False P1 a (len * 2)) (\<lambda>P10. rret (0, P10))
        else rret (0, P1)))) = Some (Inr ((0, P'), acts2))"
    using run unfolding hm_insert_run [OF r(1) b len'] if_not_P [OF k'] Let_def by (auto simp: rbind_eq_Some [of ?t])
  have ret: "ret = 0" using 2 by (cases "ret = 0") (simp_all add: rret_def xret_def)
  have p1: "fold apply_act acts1 P = P1" "protected [] [] acts1"
    using safe_op_block [OF safe_insert_tx, unfolded safe_op_def, rule_format, OF 1(1)] by simp_all
  have p2: "fold apply_act acts2 P1 = P'" "protected [] [] acts2"
    using safe_after [unfolded safe_op_def, rule_format, OF 2 [unfolded ret, simplified if_False simp_thms]] by simp_all
  from tx_ok_outer [OF body, of "- 1" P] obtain e where "hm_ok P1 a ?m n (put m n (e, k, v) cs)" "root_map P1 = root_map P"
    using 1(1) ret by (auto simp: rret_def xret_def)
  from inserted_rep(1) [OF inserted_put(1) [OF this n(2)] k' r(5), folded r(2)] show ?thesis using 1(2) p1 p2 by blast
qed

end
