(* ===== verification/XF_HashmapMap.thy ===== *)
theory XF_HashmapMap
  imports XF_CTreeMap XF_HashmapCrash
begin

text \<open>
  The transactional hash map behind the map interface, \<open>pmdk/src/examples/libpmemobj/map/map_hashmap_tx.c\<close>:
  the wrappers, their table, and that the table keeps the contract of the interface.
\<close>

section \<open>The table of the hash map\<close>

type_synonym hm_act = "hm_object tx_act"

definition map_hm_tx_check :: "hm_object pool \<Rightarrow> PMEMoid \<Rightarrow> (hm_act, int) run" where
  "map_hm_tx_check P mp = hm_tx_check P mp"

definition map_hm_tx_count :: "hm_object pool \<Rightarrow> PMEMoid \<Rightarrow> (hm_act, 64 word) run" where
  "map_hm_tx_count P mp = on_map mp (hm_tx_count P)"

definition map_hm_tx_init :: "hm_object pool \<Rightarrow> PMEMoid \<Rightarrow> (hm_act, int \<times> hm_object pool) run" where
  "map_hm_tx_init P mp = on_map mp (\<lambda>m. rbind (hm_tx_init P m) (\<lambda>ret. rret (ret, P)))"

definition map_hm_tx_create ::
  "hm_host \<Rightarrow> hm_object pobj \<Rightarrow> bool \<Rightarrow> hm_object pool \<Rightarrow> 32 word option \<Rightarrow> (hm_act, int \<times> hm_object pool) run" where
  "map_hm_tx_create E H nested P arg = hm_tx_create H E nested P arg"

definition map_hm_tx_insert ::
  "hm_host \<Rightarrow> hm_object pobj \<Rightarrow> bool \<Rightarrow> hm_object pool \<Rightarrow> PMEMoid \<Rightarrow> 64 word \<Rightarrow> PMEMoid \<Rightarrow> (hm_act, int \<times> hm_object pool) run" where
  "map_hm_tx_insert E H nested P mp k v = on_map mp (\<lambda>m. hm_tx_insert H E nested P m k v)"

definition map_hm_tx_remove ::
  "hm_object pobj \<Rightarrow> bool \<Rightarrow> hm_object pool \<Rightarrow> PMEMoid \<Rightarrow> 64 word \<Rightarrow> (hm_act, PMEMoid \<times> hm_object pool) run" where
  "map_hm_tx_remove H nested P mp k = on_map mp (\<lambda>m. hm_tx_remove H nested P m k)"

definition map_hm_tx_get :: "hm_object pool \<Rightarrow> PMEMoid \<Rightarrow> 64 word \<Rightarrow> (hm_act, PMEMoid) run" where
  "map_hm_tx_get P mp k = on_map mp (\<lambda>m. hm_tx_get P m k)"

definition map_hm_tx_lookup :: "hm_object pool \<Rightarrow> PMEMoid \<Rightarrow> 64 word \<Rightarrow> (hm_act, int) run" where
  "map_hm_tx_lookup P mp k = on_map mp (\<lambda>m. hm_tx_lookup P m k)"

definition map_hm_tx_foreach ::
  "hm_object pool \<Rightarrow> PMEMoid \<Rightarrow> (hm_object, 's) map_callback \<Rightarrow> 's \<Rightarrow> (hm_act, int \<times> 's) run" where
  "map_hm_tx_foreach P mp cb s = on_map mp (\<lambda>m. hm_tx_foreach P m cb s)"

definition map_hm_tx_cmd ::
  "hm_object pobj \<Rightarrow> bool \<Rightarrow> hm_object pool \<Rightarrow> PMEMoid \<Rightarrow> 32 word \<Rightarrow> 64 word \<Rightarrow> (hm_act, int \<times> hm_object pool) run" where
  "map_hm_tx_cmd H nested P mp c arg = on_map mp (\<lambda>m. hm_tx_cmd H nested P m c arg)"

definition hashmap_tx_ops :: "hm_host \<Rightarrow> hm_object pobj \<Rightarrow> (hm_object, 's) map_ops" where
  "hashmap_tx_ops E H =
     \<lparr>op_check = Some map_hm_tx_check,
      op_create = Some (map_hm_tx_create E H),
      op_destroy = None,
      op_init = Some map_hm_tx_init,
      op_insert = Some (map_hm_tx_insert E H),
      op_insert_new = None,
      op_remove = Some (map_hm_tx_remove H),
      op_remove_free = None,
      op_clear = None,
      op_get = Some map_hm_tx_get,
      op_lookup = Some map_hm_tx_lookup,
      op_foreach = Some map_hm_tx_foreach,
      op_is_empty = None,
      op_count = Some map_hm_tx_count,
      op_cmd = Some (map_hm_tx_cmd H)\<rparr>"

section \<open>The contract\<close>

abbreviation hm_ctx :: "hm_host \<Rightarrow> hm_object pobj \<Rightarrow> (hm_object, 's) map_ctx" where
  "hm_ctx E H \<equiv> \<lparr>ctx_ops = hashmap_tx_ops E H\<rparr>"

lemmas hm_calls = ABORT_NOT_IMPLEMENTED_def hashmap_tx_ops_def on_map_def
  map_check_def map_create_def map_insert_def map_remove_def map_get_def map_lookup_def map_foreach_def map_count_def map_init_def map_cmd_def
  map_hm_tx_check_def map_hm_tx_create_def map_hm_tx_insert_def map_hm_tx_remove_def map_hm_tx_get_def map_hm_tx_lookup_def
  map_hm_tx_foreach_def map_hm_tx_count_def map_hm_tx_init_def map_hm_tx_cmd_def

lemma hm_rep_Some: "hm_rep P mp M \<Longrightarrow> \<exists>a. mp = Some a"
  by (auto simp: hm_rep_def)

text \<open>The calls through the table.\<close>

lemma hm_call:
  assumes "hm_rep P mp M"
  shows "map_insert (hm_ctx E H) nested P mp k v = hm_tx_insert H E nested P (the mp) k v"
    "map_remove (hm_ctx E H) nested P mp k = hm_tx_remove H nested P (the mp) k"
    "map_get (hm_ctx E H) P mp k = hm_tx_get P (the mp) k"
    "map_lookup (hm_ctx E H) P mp k = hm_tx_lookup P (the mp) k"
    "map_foreach (hm_ctx E H) P mp cb s = hm_tx_foreach P (the mp) cb s"
    "map_count (hm_ctx E H) P mp = hm_tx_count P (the mp)"
    "map_init (hm_ctx E H) P mp = rbind (hm_tx_init P (the mp)) (\<lambda>ret. rret (ret, P))"
    "map_cmd (hm_ctx E H) nested P mp c arg = hm_tx_cmd H nested P (the mp) c arg"
  using hm_rep_Some [OF assms] by (auto simp: hm_calls)

lemma hm_room_1: "hm_room H P mp \<Longrightarrow> rooms H 1 P"
  unfolding hm_room_def rooms_def by (meson less_le_trans one_le_numeral)

interpretation hmm: map_base "hashmap_tx_ops E" hm_rep "\<lambda>_. True" "\<lambda>n. int n \<le> INT_MAX" hm_room "\<lambda>_. True"
  for E :: hm_host
proof (unfold_locales, goal_cases)
  case (1 H P)
  show ?case by (simp add: hm_calls hm_tx_check_def)
next
  case (2 P mp M H)
  then show ?case by (simp add: hm_calls hm_count_law)
next
  case (3 n m)
  then show ?case by simp
next
  case (4 P mp M k v H)
  define M' where "M' = (if k \<in> dom M then M else M(k \<mapsto> v))"
  have M': "dom M' = insert k (dom M)" "\<forall>k'. k' \<noteq> k \<longrightarrow> M' k' = M k'" "k \<notin> dom M \<longrightarrow> M' k = Some v" by (auto simp: M'_def)
  have "int (card (dom M)) < INT_MAX" using 4(3) by simp
  from hm_insert_law [OF 4(1,5) this, of E True k v, folded M'_def] show ?case
    unfolding hm_call [OF 4(1)] if_True using M' by blast
next
  case (5 P mp M k H)
  then show ?case using hm_remove_law [OF 5(1,3), of True k] hm_room_1 [of H P mp] unfolding hm_call [OF 5(1)] if_True by blast
next
  case (6 P mp M k H)
  then show ?case by (simp add: hm_call hm_get_law)
next
  case (7 P mp M cb H s)
  then show ?case using hm_foreach_law [OF 7, of s] by (simp add: hm_call)
next
  case (8 P mp M a x)
  then show ?case by (rule hm_new_object)
qed

section \<open>Correctness of the hash map\<close>

text \<open>A hash map with two buckets that holds the keys 5 and 6.\<close>

definition hm_example_map :: hashmap_tx where
  "hm_example_map = \<lparr>hm_seed = 0, hash_fun_a = 1, hash_fun_b = 0, hash_fun_p = HASH_FUNC_COEFF_P, hm_count = 2, hm_buckets = Some 2\<rparr>"

definition hm_example_pool :: "hm_object pool" where
  "hm_example_pool = \<lparr>objects = [1 \<mapsto> OtherObject (HashmapTx hm_example_map), 2 \<mapsto> OtherObject (Buckets 2 [Some 4, Some 3]),
     3 \<mapsto> OtherObject (Entry \<lparr>ent_key = 5, ent_value = Some 5, ent_next = None\<rparr>),
     4 \<mapsto> OtherObject (Entry \<lparr>ent_key = 6, ent_value = Some 6, ent_next = None\<rparr>), 5 \<mapsto> Item 1 42, 6 \<mapsto> Item 1 43], root_map = Some 1\<rparr>"

definition hm_example_pobj :: "hm_object pobj" where
  "hm_example_pobj = \<lparr>tx_alloc = (\<lambda>P. find (\<lambda>a. objects P a = None) [1..<100]),
     raw_node = \<lparr>diff = 0, entries = (\<lparr>ekey = 9, eslot = None\<rparr>, \<lparr>ekey = 9, eslot = None\<rparr>)\<rparr>, raw_item = 9,
     tx_snapshot = (\<lambda>P r. True)\<rparr>"

definition hm_example_host :: hm_host where
  "hm_example_host = \<lparr>raw_entry = \<lparr>ent_key = 9, ent_value = None, ent_next = None\<rparr>, hm_rand = (\<lambda>i. int i)\<rparr>"

lemma hm_example_fresh: "fresh_alloc hm_example_pobj"
  by (auto simp: fresh_alloc_def hm_example_pobj_def find_Some_iff)

lemma hm_example_room: "has_room hm_example_pobj hm_example_pool" "snapshots hm_example_pobj"
  unfolding has_room_def hm_example_pobj_def hm_example_pool_def
  by (auto simp: find_None_iff intro!: exI [of _ 7])

lemma hm_example_hash: "hash_value hm_example_map 2 5 = 1" "hash_value hm_example_map 2 6 = 0"
  by code_simp+

lemma all_less_2: "(\<forall>i < 2. p i) \<longleftrightarrow> p 0 \<and> p (1 :: nat)"
  by (auto simp: less_2_cases_iff)

lemma hm_example_ok: "hm_ok hm_example_pool 1 hm_example_map 2 [[(4, 6, 6)], [(3, 5, 5)]]"
proof -
  let ?cs = "[[(4, 6, 6)], [(3, 5, 5)]] :: hm_node list list"
  have "placed hm_example_map 2 ?cs" by (simp add: placed_def all_less_2 hm_example_hash flip: numeral_2_eq_2)
  moreover have "tab (objects hm_example_pool) 2 2 ?cs" by (simp add: tab_def hm_example_pool_def all_less_2 flip: numeral_2_eq_2)
  ultimately show ?thesis
    by (simp add: hm_ok_def hm_example_pool_def) (simp add: hm_example_map_def HASH_FUNC_COEFF_P_def PMEMOBJ_MAX_ALLOC_SIZE_def)
qed

lemma hm_example_rep: "hm_rep hm_example_pool (Some 1) [5 \<mapsto> 5, 6 \<mapsto> 6]"
  unfolding hm_rep_def using hm_example_ok by (intro exI conjI) auto

lemmas hm_example = hm_example_rep hm_example_fresh hm_example_room INT_MAX_def

text \<open>
  C8. Inserting into a hash map through the map interface. A key that is there already keeps its value and the
  call returns 1; for a new key it returns 0 and the map then holds the key with the value, whether or not the table was
  rebuilt. Otherwise the library had no room: outside a transaction the call returns -1 and nothing changed, inside
  a transaction it is aborted, also when only the rebuilding had no room.
\<close>

theorem hm_insert_correct:
  assumes "hm_rep P mp M" "fresh_alloc H" "int (card (dom M)) < INT_MAX"
  shows "(\<exists>P' acts. map_insert (hm_ctx E H :: (_, 's) map_ctx) nested P mp k (Some v) = Some (Inr ((if k \<in> dom M then 1 else 0, P'), acts)) \<and>
      hm_rep P' mp (if k \<in> dom M then M else M(k \<mapsto> v)) \<and> root_map P' = root_map P) \<or>
    (if nested then \<not> hm_room H P mp \<and> map_insert (hm_ctx E H :: (_, 's) map_ctx) nested P mp k (Some v) = tx_abort
     else \<not> has_room H P \<and> map_insert (hm_ctx E H :: (_, 's) map_ctx) nested P mp k (Some v) = rret (-1, P))"
  unfolding hm_call [OF assms(1)] by (rule hm_insert_law [OF assms])

theorem hm_insert_correct_witness:
  "\<exists>P' acts. map_insert (hm_ctx hm_example_host hm_example_pobj :: (_, unit) map_ctx) False hm_example_pool (Some 1) 7 (Some 5) = Some (Inr ((0, P'), acts)) \<and>
    hm_rep P' (Some 1) [5 \<mapsto> 5, 6 \<mapsto> 6, 7 \<mapsto> 5]"
  using hm_insert_correct [OF hm_example(1,2), of hm_example_host False 7 5] hm_example(3-) by auto

text \<open>
  C17. Removing from a hash map: the value of the key is returned, or the null object, and the map then holds the other
  keys, whether or not the table was rebuilt. Otherwise the library had no room: outside a transaction the call
  returns the null object and nothing changed, inside a transaction it is aborted.
\<close>

theorem hm_remove_correct:
  assumes "hm_rep P mp M" "fresh_alloc H"
  shows "(\<exists>P' acts. map_remove (hm_ctx E H :: (_, 's) map_ctx) nested P mp k = Some (Inr ((M k, P'), acts)) \<and>
      hm_rep P' mp (M(k := None)) \<and> root_map P' = root_map P) \<or>
    (if nested then \<not> rooms H 1 P \<and> map_remove (hm_ctx E H :: (_, 's) map_ctx) nested P mp k = tx_abort
     else \<not> snapshots H \<and> map_remove (hm_ctx E H :: (_, 's) map_ctx) nested P mp k = rret (None, P))"
  unfolding hm_call [OF assms(1)] by (rule hm_remove_law [OF assms])

theorem hm_remove_correct_witness:
  "\<exists>P' acts. map_remove (hm_ctx hm_example_host hm_example_pobj :: (_, unit) map_ctx) False hm_example_pool (Some 1) 5 = Some (Inr ((Some 5, P'), acts)) \<and>
    hm_rep P' (Some 1) [6 \<mapsto> 6]"
proof -
  have [simp]: "[5 \<mapsto> 5, 6 \<mapsto> 6](5 := None) = [6 :: 64 word \<mapsto> 6 :: nat]" by auto
  show ?thesis using hm_remove_correct [OF hm_example(1,2), of hm_example_host False 5] hm_example(3-) by auto
qed

text \<open>
  C18. Rebuilding a hash map outside a transaction with any number of buckets below \<open>2 ^ 59\<close>, through the command of
  the interface: the call returns 0 and the map holds the same keys with the same values, also when the library had
  no room.
\<close>

theorem hm_rebuild_keeps:
  assumes "hm_rep P mp M" "fresh_alloc H" "unat len < 2 ^ 59"
  shows "\<exists>P' acts. map_cmd (hm_ctx E H :: (_, 's) map_ctx) False P mp HASHMAP_CMD_REBUILD len = Some (Inr ((0, P'), acts)) \<and>
    hm_rep P' mp M \<and> root_map P' = root_map P"
  unfolding hm_call [OF assms(1)] by (rule hm_rebuild_law [OF assms])

theorem hm_rebuild_keeps_witness:
  "\<exists>P' acts. map_cmd (hm_ctx hm_example_host hm_example_pobj :: (_, unit) map_ctx) False hm_example_pool (Some 1) HASHMAP_CMD_REBUILD 20 =
      Some (Inr ((0, P'), acts)) \<and> hm_rep P' (Some 1) [5 \<mapsto> 5, 6 \<mapsto> 6] \<and> root_map P' = root_map hm_example_pool"
  by (rule hm_rebuild_keeps [OF hm_example(1,2)]) simp

text \<open>
  C39. The size of the new buckets is computed with 64 bits: the command with the number \<open>2 ^ 60\<close> allocates an
  array without buckets, and moving the first entry writes behind it.
\<close>

theorem hm_rebuild_overflows:
  assumes "hm_rep P mp M" "M \<noteq> Map.empty" "fresh_alloc H" "has_room H P"
  shows "map_cmd (hm_ctx E H :: (_, 's) map_ctx) nested P mp HASHMAP_CMD_REBUILD (2 ^ 60) = rub ''array index''"
  unfolding hm_call [OF assms(1)] by (rule hm_rebuild_wraps [OF assms])

theorem hm_rebuild_overflows_witness:
  "map_cmd (hm_ctx hm_example_host hm_example_pobj :: (_, unit) map_ctx) False hm_example_pool (Some 1) HASHMAP_CMD_REBUILD (2 ^ 60) =
    rub ''array index''"
  by (rule hm_rebuild_overflows [OF hm_example(1) _ hm_example(2,3)]) simp

text \<open>
  C9. A crash during the insertion of a new key outside a transaction, which is one transaction or two. A crash in the
  first one gives the pool from before; a crash in the second one, which rebuilds the table, gives a pool whose map has the
  new key.
\<close>

theorem hm_insert_crash:
  assumes "hm_rep P mp M" "fresh_alloc H" "int (card (dom M)) < INT_MAX" "k \<notin> dom M"
    and "map_insert (hm_ctx E H :: (_, 's) map_ctx) False P mp k (Some v) = Some (Inr ((0, P'), acts))"
  shows "\<exists>acts1 acts2 P1. acts = acts1 @ acts2 \<and> (\<forall>n. after_crash [] [] (take n acts1) P = P) \<and>
    fold apply_act acts1 P = P1 \<and> hm_rep P1 mp (M(k \<mapsto> v)) \<and>
    (\<forall>n. after_crash [] [] (take n acts2) P1 = P1) \<and> fold apply_act acts2 P1 = P'"
proof -
  obtain a where a: "mp = Some a" using hm_rep_Some [OF assms(1)] by blast
  have "hm_tx_insert H E False P a k (Some v) = Some (Inr ((0, P'), acts))" using assms(5) [unfolded hm_call [OF assms(1)]] by (simp add: a)
  from hm_insert_two [OF assms(1) [unfolded a] assms(2-4) this] show ?thesis
    unfolding a using after_crash_protected by blast
qed

theorem hm_insert_crash_witness:
  "\<exists>P' acts acts1 acts2 P1. map_insert (hm_ctx hm_example_host hm_example_pobj :: (_, unit) map_ctx) False hm_example_pool (Some 1) 7 (Some 5) =
      Some (Inr ((0, P'), acts)) \<and> acts = acts1 @ acts2 \<and> (\<forall>n. after_crash [] [] (take n acts1) hm_example_pool = hm_example_pool) \<and>
    fold apply_act acts1 hm_example_pool = P1 \<and> hm_rep P1 (Some 1) [5 \<mapsto> 5, 6 \<mapsto> 6, 7 \<mapsto> 5]"
proof -
  have "int (card (dom [5 :: 64 word \<mapsto> 5 :: nat, 6 \<mapsto> 6])) < INT_MAX" "(7 :: 64 word) \<notin> dom [5 :: 64 word \<mapsto> 5 :: nat, 6 \<mapsto> 6]"
    by (simp_all add: INT_MAX_def)
  note h = hm_example(1,2) this
  obtain P' acts where run: "map_insert (hm_ctx hm_example_host hm_example_pobj :: (_, unit) map_ctx) False hm_example_pool (Some 1) 7 (Some 5) =
      Some (Inr ((0, P'), acts))"
    using hm_insert_law [OF h(1-3), of hm_example_host False 7 5] hm_example(3) unfolding hm_call [OF h(1)] by auto
  from hm_insert_crash [OF h run] run show ?thesis by blast
qed

end
