(* ===== verification/XF_HashDriver.thy ===== *)
theory XF_HashDriver
  imports XF_Driver XF_HashmapMap
begin

text \<open>
  The test program \<open>driver/data_store_hash.c\<close> on the transactional hash map: it creates the map of a new pool,
  initialises the map of a pool that exists, and inserts its items as the other program does.
\<close>

section \<open>The program on the hash map\<close>

interpretation hms: store_map "hashmap_tx_ops X" hm_rep "\<lambda>_. True" "\<lambda>n. int n \<le> INT_MAX" hm_room "\<lambda>_. True"
  for X :: hm_host
  by unfold_locales

abbreviation hash_result ::
  "hm_object pobj \<Rightarrow> (int \<times> int) list \<Rightarrow> (64 word \<rightharpoonup> nat) \<Rightarrow> marker list \<Rightarrow>
   (hm_object driver_ev, int \<times> (hm_object pool \<times> iface \<times> store) option) run \<Rightarrow> bool" where
  "hash_result \<equiv> store_result hm_rep hm_room (\<lambda>_. True)"

text \<open>The program has the table of the hash map, its root object and its context, and some random number is not 0.\<close>

definition hash_host :: "hm_object map_tables \<Rightarrow> hm_object pobj \<Rightarrow> hm_host \<Rightarrow> hm_object store_host \<Rightarrow> nat \<Rightarrow> bool" where
  "hash_host T H X E n \<longleftrightarrow> MAP_HASHMAP_TX T = hashmap_tx_ops X H \<and> fresh_alloc H \<and> root_ok E \<and> calloc_ok E \<and>
     0 < n \<and> n \<le> MAX_INSERTS \<and> (\<exists>i. (word_of_int (hm_rand X i) :: 32 word) \<noteq> 0)"

text \<open>The pool of the program: a new one, or one whose map holds \<open>M\<close>.\<close>

definition hash_pool :: "hm_object store_host \<Rightarrow> string \<Rightarrow> hm_object pool \<Rightarrow> (64 word \<rightharpoonup> nat) \<Rightarrow> bool" where
  "hash_pool E path P M \<longleftrightarrow> (if file_exists E path \<noteq> 0 then pool_create E path = Some P \<and> M = Map.empty
     else pool_open E path = Some P \<and> hm_rep P (root_map P) M)"

lemma hash_main_run:
  assumes "hash_host T H X E n" "opened E path = Some P"
  shows "data_store_hash_main T H E [prog, ''hashmap_tx'', path, to_string (int n)] =
    store_run setup_map_hash (hashmap_tx_ops X H) H E n (\<not> file_exists E path \<noteq> 0) P"
  using assms unfolding data_store_hash_main_def store_main_def
  by (simp add: hash_host_def parse_map_type_def atoi_to_string opened_def numeral_nat split: if_splits)

lemma setup_hash_new:
  assumes "fresh_alloc H" "\<exists>i. (word_of_int (hm_rand X i) :: 32 word) \<noteq> 0"
  shows "(\<exists>P1 es. setup_map_hash (hm_ctx X H) False P I = Some (Inr ((False, P1, I), es)) \<and> annots es = [] \<and> hm_rep P1 (root_map P1) Map.empty) \<or>
    \<not> rooms H 2 P \<and> setup_map_hash (hm_ctx X H) False P I \<in> {rret (True, P, I), Some (Inl (Abort ''create_hashmap: transaction aborted''))}"
proof -
  obtain l where "draw_nonzero (hm_rand X) 0 = Some l" using assms(2) draw_nonzero_ends [of "hm_rand X" 0] by auto
  from hm_create_law [OF assms(1) this, of True P None] consider
      P1 acts where "hm_tx_create H X True P None = Some (Inr ((0, P1), acts))" "hm_rep P1 (root_map P1) Map.empty"
    | "\<not> rooms H 2 P" "hm_tx_create H X True P None = tx_abort"
    | "\<not> rooms H 2 P" "hm_tx_create H X True P None = Some (Inl (Abort ''create_hashmap: transaction aborted''))"
    by auto
  then show ?thesis
    by cases (simp_all add: setup_map_hash_def hm_calls store_tx_def tx_abort_def)
qed

lemma setup_hash_old:
  "hm_rep P (root_map P) M \<Longrightarrow> setup_map_hash (hm_ctx X H) True P I = Some (Inr ((False, P, I), []))"
  by (simp add: setup_map_hash_def hm_call hm_count_law rret_def xret_def store_tx_def)

lemma hash_run_law:
  assumes h: "hash_host T H X E n" and P: "hash_pool E path P M" and len: "int (card (dom M)) + int n \<le> INT_MAX"
  shows "hash_result H (map (rands E) [0..<n]) M roi_begin (data_store_hash_main T H E [prog, ''hashmap_tx'', path, to_string (int n)]) \<or>
    file_exists E path \<noteq> 0 \<and> \<not> rooms H 2 P \<and> data_store_hash_main T H E [prog, ''hashmap_tx'', path, to_string (int n)] \<in>
      {Some (Inr ((-1, Some (P, tracing, store_init)), map Annot roi_begin)), Some (Inl (Abort ''create_hashmap: transaction aborted''))}"
proof -
  have hd: "fresh_alloc H" "root_ok E" "calloc_ok E" "\<exists>i. (word_of_int (hm_rand X i) :: 32 word) \<noteq> 0" using h by (simp_all add: hash_host_def)
  have "opened E path = Some P" using P by (simp add: hash_pool_def opened_def split: if_splits)
  note run = hash_main_run [OF h this, of prog]
  have fits: "int (card (dom M) + n) \<le> INT_MAX" using len by simp
  show ?thesis
  proof (cases "file_exists E path \<noteq> 0")
    case False
    then have rep: "hm_rep P (root_map P) M" using P by (simp add: hash_pool_def)
    from hms.store_run_ready [of setup_map_hash, OF setup_hash_old [OF rep] _ rep _ fits hd(1-3)] show ?thesis
      using False unfolding run by simp
  next
    case True
    then have M: "M = Map.empty" using P by (simp add: hash_pool_def)
    from setup_hash_new [OF hd(1,4), of P tracing] consider
        P1 es where "setup_map_hash (hm_ctx X H) False P tracing = Some (Inr ((False, P1, tracing), es))" "annots es = []" "hm_rep P1 (root_map P1) M"
      | "\<not> rooms H 2 P" "setup_map_hash (hm_ctx X H) False P tracing = rret (True, P, tracing)"
      | "\<not> rooms H 2 P" "setup_map_hash (hm_ctx X H) False P tracing = Some (Inl (Abort ''create_hashmap: transaction aborted''))"
      unfolding M by auto
    then show ?thesis
    proof cases
      case 1
      from hms.store_run_ready [of setup_map_hash, OF this _ fits hd(1-3)] show ?thesis using True unfolding run by simp
    next
      case 2
      from hms.store_run_aborted [of setup_map_hash, OF 2(2) hd(2,3)] show ?thesis using True 2(1) unfolding run by simp
    next
      case 3
      then show ?thesis using True hd unfolding run by (simp add: store_run_def begin_run map_ctx_init_def)
    qed
  qed
qed

text \<open>
  A crash before the first transaction has made the map: the program then initialises the null object.
\<close>

lemma hash_null_reopen:
  assumes "hash_host T H X E n" "file_exists E path = 0" "pool_open E path = Some P" "root_map P = None"
  shows "data_store_hash_main T H E [prog, ''hashmap_tx'', path, to_string (int n)] = rub ''null object''"
proof -
  have o: "opened E path = Some P" using assms(2,3) by (simp add: opened_def)
  have "root_ok E" "calloc_ok E" using assms(1) by (simp_all add: hash_host_def)
  then show ?thesis unfolding hash_main_run [OF assms(1) o] using assms(2,4)
    by (simp add: store_run_def begin_run map_ctx_init_def setup_map_hash_def hm_calls store_tx_def rub_def)
qed

section \<open>Crashes of the program\<close>

lemma hm_map_insert_acts:
  assumes "map_insert (hm_ctx X H) nested P mp k v = Some (Inr ((x, P'), acts))"
  shows "fold apply_act acts P = P' \<and> protected [] [] acts"
proof (cases mp)
  case (Some a)
  then have "hm_tx_insert H X nested P a k v = Some (Inr ((x, P'), acts))" using assms by (simp add: hm_calls)
  then show ?thesis using safe_hm_insert [of P H X nested a k v] unfolding safe_op_def by blast
qed (use assms in \<open>simp add: hm_calls rub_def\<close>)

lemma hash_item_acts:
  assumes "insert_item (hm_ctx X H) H r P I = Some (Inr ((aborted, P', I'), es))"
  shows "fold apply_act (pool_acts es) P = P' \<and> protected [] [] (pool_acts es)"
  by (rule insert_item_protected [OF _ assms]) (rule hm_map_insert_acts)

section \<open>Correctness of the program\<close>

definition hash_tables :: "hm_object map_tables" where
  "hash_tables = (let t = hashmap_tx_ops hm_example_host hm_example_pobj in
     \<lparr>MAP_CTREE = t, MAP_BTREE = t, MAP_RBTREE = t, MAP_HASHMAP_ATOMIC = t, MAP_HASHMAP_TX = t, MAP_HASHMAP_RP = t, MAP_SKIPLIST = t\<rparr>)"

definition hash_example_host :: "hm_object pool \<Rightarrow> hm_object store_host" where
  "hash_example_host P = \<lparr>host_access = (\<lambda>_. 0), pool_create = (\<lambda>_. None), pool_open = (\<lambda>_. Some P), root_ok = True, calloc_ok = True,
     host_getenv = (\<lambda>_. None), rands = (\<lambda>i. (int i + 7, 1))\<rparr>"

lemma hash_example:
  "hash_host hash_tables hm_example_pobj hm_example_host (hash_example_host P) 2"
  "file_exists (hash_example_host P) path = 0" "pool_open (hash_example_host P) path = Some P"
  "hm_rep hm_example_pool (root_map hm_example_pool) [5 \<mapsto> 5, 6 \<mapsto> 6]"
  "int (card (dom [5 :: 64 word \<mapsto> 5 :: nat, 6 \<mapsto> 6])) + int 2 \<le> INT_MAX"
proof -
  have "(word_of_int (hm_rand hm_example_host 1) :: 32 word) \<noteq> 0" by (simp add: hm_example_host_def)
  then show "hash_host hash_tables hm_example_pobj hm_example_host (hash_example_host P) 2"
    using hm_example_fresh unfolding hash_host_def by (auto simp: hash_tables_def hash_example_host_def Let_def MAX_INSERTS_def)
  show "hm_rep hm_example_pool (root_map hm_example_pool) [5 \<mapsto> 5, 6 \<mapsto> 6]" using hm_example_rep by (simp add: hm_example_pool_def)
qed (simp_all add: hash_example_host_def file_exists_def INT_MAX_def)

lemma hm_example_rooms:
  assumes "finite (dom (objects Q))" "card (dom (objects Q)) < 97"
  shows "rooms hm_example_pobj 2 Q"
  unfolding rooms_def
proof (intro conjI allI impI)
  fix R :: "hm_object pool" and A assume A: "finite A \<and> card A < 2 \<and> dom (objects R) \<subseteq> dom (objects Q) \<union> A"
  have "card (dom (objects Q) \<union> A) < card {1 :: nat..<100}" using card_Un_le [of "dom (objects Q)" A] assms(2) A by simp
  then have "\<not> {1 :: nat..<100} \<subseteq> dom (objects R)" using A assms(1) card_mono [of "dom (objects Q) \<union> A" "{1..<100}"] by fastforce
  then show "tx_alloc hm_example_pobj R \<noteq> None" by (auto simp: hm_example_pobj_def find_None_iff)
qed (simp add: hm_example_pobj_def)

lemma hash_crash_example:
  "\<exists>P' es. insert_item (hm_ctx hm_example_host hm_example_pobj) hm_example_pobj (7, 1) hm_example_pool tracing =
      Some (Inr ((False, P', points 1 tracing), es)) \<and> annots es = [point_marker]"
proof -
  let ?Q = "\<lambda>a. with_item a 1 hm_example_pool"
  have d: "dom (objects hm_example_pool) = {1, 2, 3, 4, 5, 6}" by (auto simp: hm_example_pool_def)
  have "hm_room hm_example_pobj (?Q a) (root_map hm_example_pool)" if "tx_alloc hm_example_pobj hm_example_pool = Some a" for a
  proof -
    have a: "objects hm_example_pool a = None" using that hm_example_fresh by (simp add: fresh_alloc_def)
    have "dom (objects (?Q a)) = insert a {1, 2, 3, 4, 5, 6}" using d by (simp add: with_item_def)
    then have "rooms hm_example_pobj 2 (?Q a)" by (intro hm_example_rooms) (simp_all add: card_insert_if)
    moreover have "a \<noteq> 1" "a \<noteq> 2" using a by (auto simp: hm_example_pool_def)
    ultimately show ?thesis by (simp add: hm_room_def with_item_def hm_example_pool_def hm_example_map_def PMEMOBJ_MAX_ALLOC_SIZE_def)
  qed
  then have "\<not> full hm_room hm_example_pobj 1 hm_example_pool" using hm_example(3) by (auto simp: full_def has_room_def)
  then show ?thesis
    using hms.insert_item_law [OF hash_example(4), where r = "(7, 1)" and H = hm_example_pobj and I = tracing and X = hm_example_host] hm_example_fresh
    by (auto simp: tracing_def iface_init_def INT_MAX_def)
qed

text \<open>
  C16. The test program for hash maps on the transactional hash map, from a new pool or from one whose map holds
  \<open>M\<close>. It inserts the items one after the other, each with one failure point inside the region of interest, and
  ends with -1 when the library is full. Otherwise it ends with 0 and the array has every key of the final map once,
  provided that there are at most 500; with more keys it writes behind the array. When there is no room for the map of a new
  pool, the program ends with -1, or the process is aborted by the hash map.
\<close>

theorem data_store_hash_correct:
  assumes "hash_host T H X E n" "hash_pool E path P M" "int (card (dom M)) + int n \<le> INT_MAX"
  shows "hash_result H (map (rands E) [0..<n]) M roi_begin (data_store_hash_main T H E [prog, ''hashmap_tx'', path, to_string (int n)]) \<or>
    file_exists E path \<noteq> 0 \<and> \<not> rooms H 2 P \<and> data_store_hash_main T H E [prog, ''hashmap_tx'', path, to_string (int n)] \<in>
      {Some (Inr ((-1, Some (P, tracing, store_init)), map Annot roi_begin)), Some (Inl (Abort ''create_hashmap: transaction aborted''))}"
  by (rule hash_run_law [OF assms])

theorem data_store_hash_correct_witness:
  "hash_result hm_example_pobj (map (rands (hash_example_host hm_example_pool)) [0..<2]) [5 \<mapsto> 5, 6 \<mapsto> 6] roi_begin
    (data_store_hash_main hash_tables hm_example_pobj (hash_example_host hm_example_pool) [''data_store_hash'', ''hashmap_tx'', ''pool'', to_string (int 2)])"
proof -
  have "hash_pool (hash_example_host hm_example_pool) ''pool'' hm_example_pool [5 \<mapsto> 5, 6 \<mapsto> 6]"
    using hash_example(2-4) by (simp add: hash_pool_def)
  from data_store_hash_correct [OF hash_example(1) this hash_example(5)] show ?thesis using hash_example(2) by auto
qed

text \<open>
  C11. A crash at any moment of an insertion of this program, and a recovery by the program itself on the pool that the library
  has recovered: the recovered pool is the one from before the insertion, and the program runs on it as on the map from
  before.
\<close>

theorem data_store_hash_recovers:
  assumes "hm_rep P (root_map P) M" "insert_item (hm_ctx X H) H r P I = Some (Inr ((aborted, P', I'), es))"
    and "hash_host T H X E n" "file_exists E path = 0" "pool_open E path = Some (after_crash [] [] (take j (pool_acts es)) P)"
    and "int (card (dom M)) + int n \<le> INT_MAX"
  shows "after_crash [] [] (take j (pool_acts es)) P = P \<and>
    hash_result H (map (rands E) [0..<n]) M roi_begin (data_store_hash_main T H E [prog, ''hashmap_tx'', path, to_string (int n)])"
proof -
  have same: "after_crash [] [] (take j (pool_acts es)) P = P"
    using hash_item_acts [OF assms(2)] by (simp add: after_crash_protected)
  have "hash_pool E path P M" using assms(1,4,5) unfolding same by (simp add: hash_pool_def)
  from hash_run_law [OF assms(3) this assms(6), of prog] show ?thesis using same assms(4) by simp
qed

theorem data_store_hash_recovers_witness:
  "\<exists>P' es. insert_item (hm_ctx hm_example_host hm_example_pobj) hm_example_pobj (7, 1) hm_example_pool tracing =
      Some (Inr ((False, P', points 1 tracing), es)) \<and>
    annots es = [point_marker] \<and> after_crash [] [] (take 3 (pool_acts es)) hm_example_pool = hm_example_pool \<and>
    hash_result hm_example_pobj (map (rands (hash_example_host (after_crash [] [] (take 3 (pool_acts es)) hm_example_pool))) [0..<2]) [5 \<mapsto> 5, 6 \<mapsto> 6] roi_begin
      (data_store_hash_main hash_tables hm_example_pobj (hash_example_host (after_crash [] [] (take 3 (pool_acts es)) hm_example_pool))
        [''data_store_hash'', ''hashmap_tx'', ''pool'', to_string (int 2)])"
proof -
  obtain P' es where run: "insert_item (hm_ctx hm_example_host hm_example_pobj) hm_example_pobj (7, 1) hm_example_pool tracing =
      Some (Inr ((False, P', points 1 tracing), es))" "annots es = [point_marker]" using hash_crash_example by blast
  with data_store_hash_recovers [OF hash_example(4) run(1) hash_example(1-3) hash_example(5), of 3 "''data_store_hash''" "''pool''"]
  show ?thesis by blast
qed

end
