(* ===== verification/XF_PAtomic.thy ===== *)
theory XF_PAtomic
  imports XF_HashmapRep "HOL-Library.Sublist"
begin

text \<open>
  Crashes of programs that do not use transactions: a store is durable when it was made persistent, and may have reached
  the memory before; the operations of the library happen as a whole. A small logic for runs that end normally and all of whose
  crashes leave pools with a property.
\<close>

section \<open>Durable memory and pending stores\<close>

fun stored_in :: "nat \<Rightarrow> nat list \<Rightarrow> 'x tx_act \<Rightarrow> bool" where
  "stored_in a fs (SetOther b f u) \<longleftrightarrow> a = b \<and> f \<in> set fs"
| "stored_in a fs _ \<longleftrightarrow> False"

fun pm_step :: "'x tx_act \<Rightarrow> 'x pool \<times> 'x tx_act list \<Rightarrow> 'x pool \<times> 'x tx_act list" where
  "pm_step (SetOther a f u) (D, pend) = (D, pend @ [SetOther a f u])"
| "pm_step (PersistOther a fs) (D, pend) =
     (fold apply_act (filter (stored_in a fs) pend) D, filter (\<lambda>x. \<not> stored_in a fs x) pend)"
| "pm_step act (D, pend) = (apply_act act D, pend)"

definition pm_run :: "'x tx_act list \<Rightarrow> 'x pool \<times> 'x tx_act list \<Rightarrow> 'x pool \<times> 'x tx_act list" where
  "pm_run acts s = fold pm_step acts s"

text \<open>
  What a crash leaves: some of the pending stores have reached the memory. They do so in the order of the program, or, more
  generally, in any order.
\<close>

definition in_order :: "'x tx_act list \<Rightarrow> 'x tx_act list set" where
  "in_order pend = set (prefixes pend)"

definition any_order :: "'x tx_act list \<Rightarrow> 'x tx_act list set" where
  "any_order pend = set (subseqs pend)"

definition crash_states :: "('x tx_act list \<Rightarrow> 'x tx_act list set) \<Rightarrow> 'x tx_act list \<Rightarrow> 'x pool \<Rightarrow> 'x pool set" where
  "crash_states reach acts P = (let (D, pend) = pm_run acts (P, []) in (\<lambda>sub. fold apply_act sub D) ` reach pend)"

section \<open>Steps all of whose crashes have a property\<close>

definition steps :: "('x pool \<Rightarrow> bool) \<Rightarrow> 'x pool \<Rightarrow> 'x pool \<Rightarrow> 'x tx_act list \<Rightarrow> bool" where
  "steps R P P' acts \<longleftrightarrow> pm_run acts (P, []) = (P', []) \<and> (\<forall>n. \<forall>Z \<in> crash_states in_order (take n acts) P. R Z)"

definition crash_ok :: "('x pool \<Rightarrow> bool) \<Rightarrow> 'x pool \<Rightarrow> ('x tx_act, 'y) run \<Rightarrow> ('y \<Rightarrow> 'x pool \<Rightarrow> bool) \<Rightarrow> bool" where
  "crash_ok R P r Q \<longleftrightarrow> (\<exists>y P' acts. r = Some (Inr (y, acts)) \<and> steps R P P' acts \<and> Q y P')"

lemma pm_run_simps [simp]:
  "pm_run [] s = s" "pm_run (x # xs) s = pm_run xs (pm_step x s)" "pm_run (xs @ ys) s = pm_run ys (pm_run xs s)"
  by (simp_all add: pm_run_def)

lemma in_order_simps [simp]: "in_order [] = {[]}" "in_order [x] = {[], [x]}" "in_order [x, y] = {[], [x], [x, y]}"
  by (auto simp: in_order_def)

lemma steps_nil: "R P \<Longrightarrow> steps R P P []"
  by (simp add: steps_def crash_states_def)

lemma steps_append:
  assumes "steps R P P1 xs" "steps R P1 P2 ys"
  shows "steps R P P2 (xs @ ys)"
  unfolding steps_def
proof (intro conjI allI)
  show "pm_run (xs @ ys) (P, []) = (P2, [])" using assms by (simp add: steps_def)
  fix n
  show "\<forall>Z \<in> crash_states in_order (take n (xs @ ys)) P. R Z"
  proof (cases "n \<le> length xs")
    case True
    then show ?thesis using assms(1) by (simp add: steps_def)
  next
    case False
    then have "crash_states in_order (take n (xs @ ys)) P = crash_states in_order (take (n - length xs) ys) P1"
      using assms(1) by (simp add: steps_def crash_states_def)
    then show ?thesis using assms(2) by (simp add: steps_def)
  qed
qed

lemma crash_ok_ret: "R P \<Longrightarrow> Q y P \<Longrightarrow> crash_ok R P (rret y) Q"
  unfolding crash_ok_def by (auto intro: steps_nil)

lemma crash_ok_bind:
  assumes "crash_ok R P r Q1" "\<And>y P1. Q1 y P1 \<Longrightarrow> crash_ok R P1 (k y) Q"
  shows "crash_ok R P (rbind r k) Q"
proof -
  obtain y P1 xs where 1: "r = Some (Inr (y, xs))" "steps R P P1 xs" "Q1 y P1" using assms(1) by (auto simp: crash_ok_def)
  obtain z P2 ys where 2: "k y = Some (Inr (z, ys))" "steps R P1 P2 ys" "Q z P2" using assms(2) [OF 1(3)] by (auto simp: crash_ok_def)
  have "rbind r k = Some (Inr (z, xs @ ys))" using 1(1) 2(1) by simp
  then show ?thesis unfolding crash_ok_def using steps_append [OF 1(2) 2(2)] 2(3) by blast
qed

lemma crash_ok_mono: "crash_ok R P r Q \<Longrightarrow> (\<And>Z. R Z \<Longrightarrow> R' Z) \<Longrightarrow> (\<And>y P'. Q y P' \<Longrightarrow> Q' y P') \<Longrightarrow> crash_ok R' P r Q'"
  unfolding crash_ok_def steps_def by blast

lemma crash_ok_emit:
  assumes "steps R P P1 xs" "crash_ok R P1 r Q"
  shows "crash_ok R P (map_option (xemit xs) r) Q"
  using assms steps_append unfolding crash_ok_def by fastforce

lemma steps_one: "pm_run [x] (P, []) = (P', []) \<Longrightarrow> R P \<Longrightarrow> R P' \<Longrightarrow> steps R P P' [x]"
  unfolding steps_def by (auto simp: crash_states_def take_Cons split: nat.splits)

lemma steps_atomic: "R P \<Longrightarrow> R (f P) \<Longrightarrow> steps R P (f P) [AtomicOp f]"
  by (rule steps_one) simp_all

lemma all_nat_split: "(\<forall>n. p (n :: nat)) \<longleftrightarrow> p 0 \<and> (\<forall>n. p (Suc n))"
  by (metis nat.exhaust)

lemma steps_store:
  assumes "f \<in> set fs" "R P" "R (apply_act (SetOther a f u) P)"
  shows "steps R P (apply_act (SetOther a f u) P) [SetOther a f u, PersistOther a fs]"
  unfolding steps_def crash_states_def
  using assms by (auto simp: all_nat_split)

lemma steps_store2:
  assumes "f \<in> set fs" "g \<in> set fs" "R P" "R (apply_act (SetOther a f u) P)" "R (apply_act (SetOther a g w) (apply_act (SetOther a f u) P))"
  shows "steps R P (apply_act (SetOther a g w) (apply_act (SetOther a f u) P)) [SetOther a f u, SetOther a g w, PersistOther a fs]"
  unfolding steps_def crash_states_def
  using assms by (auto simp: all_nat_split)

end
