(* ===== verification/XF_HashmapAtomic.thy ===== *)
theory XF_HashmapAtomic
  imports XF_HashmapTx
begin

text \<open>
  The hash map of \<open>pmdk/src/examples/libpmemobj/hashmap/hashmap_atomic.c\<close>, a workload of the detector that does not
  use transactions: it makes its fields persistent one by one, moves its entries with the atomic operations of the
  library, and repairs itself after a crash. The annotation that names its commit variable changes no memory.
\<close>

section \<open>Objects\<close>

text \<open>
  The two words of an object identifier are stored separately. The lists of entries are those of the library:
  a bucket is the list of the addresses of its entries.
\<close>

record oid =
  pool_uuid_lo :: "64 word"
  oid_off :: nat

record ha_entry =
  he_key :: "64 word"
  he_value :: PMEMoid

record hashmap_atomic =
  ha_seed :: "32 word"
  ha_fun_a :: "32 word"
  ha_fun_b :: "32 word"
  ha_fun_p :: "64 word"
  ha_count :: "64 word"
  ha_dirty :: "32 word"
  ha_buckets :: oid
  ha_tmp :: oid

datatype ha_object =
    HashmapAtomic hashmap_atomic
  | ABuckets "64 word" "nat list list"
  | AEntry ha_entry

type_synonym ha_pool = "ha_object pool"
type_synonym ha_act = "ha_object tx_act"

text \<open>What the library answers, the identifier of the pool, and the random numbers.\<close>

record ha_host =
  ha_alloc :: "ha_pool \<Rightarrow> nat option"
  ha_move_ok :: "ha_pool \<Rightarrow> bool"
  ha_remove_ok :: "ha_pool \<Rightarrow> bool"
  uuid_lo :: "64 word"
  ha_rand :: "nat \<Rightarrow> int"

definition OID_NULL :: oid where
  "OID_NULL = \<lparr>pool_uuid_lo = 0, oid_off = 0\<rparr>"

definition TOID_IS_NULL :: "oid \<Rightarrow> bool" where
  "TOID_IS_NULL q \<longleftrightarrow> oid_off q = 0"

definition TOID_EQUALS :: "oid \<Rightarrow> oid \<Rightarrow> bool" where
  "TOID_EQUALS p q \<longleftrightarrow> oid_off p = oid_off q \<and> pool_uuid_lo p = pool_uuid_lo q"

text \<open>\<open>D_RO\<close> of an identifier is null when one of its words is not set.\<close>

definition direct :: "ha_host \<Rightarrow> oid \<Rightarrow> PMEMoid" where
  "direct H q = (if oid_off q = 0 \<or> pool_uuid_lo q \<noteq> uuid_lo H then None else Some (oid_off q))"

section \<open>Reading and writing\<close>

definition ha_at :: "ha_pool \<Rightarrow> nat \<Rightarrow> ('e, hashmap_atomic) run" where
  "ha_at P a = (case objects P a of Some (OtherObject (HashmapAtomic m)) \<Rightarrow> rret m | _ \<Rightarrow> rub ''pointer'')"

definition abuckets_at :: "ha_host \<Rightarrow> ha_pool \<Rightarrow> oid \<Rightarrow> ('e, 64 word \<times> nat list list) run" where
  "abuckets_at H P q = (case direct H q of
       None \<Rightarrow> rub ''null object''
     | Some b \<Rightarrow> (case objects P b of Some (OtherObject (ABuckets n ls)) \<Rightarrow> rret (n, ls) | _ \<Rightarrow> rub ''pointer''))"

definition aentry_at :: "ha_pool \<Rightarrow> nat \<Rightarrow> ('e, ha_entry) run" where
  "aentry_at P a = (case objects P a of Some (OtherObject (AEntry e)) \<Rightarrow> rret e | _ \<Rightarrow> rub ''pointer'')"

definition abucket_at :: "ha_host \<Rightarrow> ha_pool \<Rightarrow> oid \<Rightarrow> nat \<Rightarrow> ('e, nat list) run" where
  "abucket_at H P q i =
     rbind (abuckets_at H P q) (\<lambda>(n, ls). if i < length ls then rret (ls ! i) else rub ''array index'')"

text \<open>Fields of the map: 0 to 5 from the seed to the dirty flag, 6 and 7 the words of the buckets, 8 and 9 those of the temporary ones.\<close>

fun upd_ha :: "(hashmap_atomic \<Rightarrow> hashmap_atomic) \<Rightarrow> ha_object \<Rightarrow> ha_object" where
  "upd_ha u (HashmapAtomic m) = HashmapAtomic (u m)"
| "upd_ha u x = x"

fun upd_list :: "nat \<Rightarrow> (nat list \<Rightarrow> nat list) \<Rightarrow> ha_object \<Rightarrow> ha_object" where
  "upd_list i u (ABuckets n ls) = ABuckets n (ls[i := u (ls ! i)])"
| "upd_list i u x = x"

definition set_ha :: "nat \<Rightarrow> nat \<Rightarrow> (hashmap_atomic \<Rightarrow> hashmap_atomic) \<Rightarrow> ha_pool \<Rightarrow> (ha_act, ha_pool) run" where
  "set_ha a f u P = rbind (ha_at P a) (\<lambda>_. tx_do (SetOther a f (upd_ha u)) P)"

definition pmemobj_persist :: "nat \<Rightarrow> nat list \<Rightarrow> ha_pool \<Rightarrow> (ha_act, ha_pool) run" where
  "pmemobj_persist a fs P = tx_do (PersistOther a fs) P"

definition store_count :: "nat \<Rightarrow> 64 word \<Rightarrow> ha_pool \<Rightarrow> (ha_act, ha_pool) run" where
  "store_count a c P = rbind (set_ha a 4 (\<lambda>m. m\<lparr>ha_count := c\<rparr>) P) (pmemobj_persist a [4])"

definition store_dirty :: "nat \<Rightarrow> 32 word \<Rightarrow> ha_pool \<Rightarrow> (ha_act, ha_pool) run" where
  "store_dirty a d P = rbind (set_ha a 5 (\<lambda>m. m\<lparr>ha_dirty := d\<rparr>) P) (pmemobj_persist a [5])"

definition store_buckets :: "nat \<Rightarrow> oid \<Rightarrow> ha_pool \<Rightarrow> (ha_act, ha_pool) run" where
  "store_buckets a q P =
     rbind (set_ha a 6 (\<lambda>m. m\<lparr>ha_buckets := (ha_buckets m)\<lparr>pool_uuid_lo := pool_uuid_lo q\<rparr>\<rparr>) P) (\<lambda>P1.
     rbind (set_ha a 7 (\<lambda>m. m\<lparr>ha_buckets := (ha_buckets m)\<lparr>oid_off := oid_off q\<rparr>\<rparr>) P1) (pmemobj_persist a [6, 7]))"

definition clear_tmp :: "nat \<Rightarrow> ha_pool \<Rightarrow> (ha_act, ha_pool) run" where
  "clear_tmp a P =
     rbind (set_ha a 9 (\<lambda>m. m\<lparr>ha_tmp := (ha_tmp m)\<lparr>oid_off := 0\<rparr>\<rparr>) P) (pmemobj_persist a [8, 9])"

section \<open>Operations of the library\<close>

text \<open>
  \<open>POBJ_ALLOC\<close> of buckets: memory is allocated, the constructor sets every list to the empty one and the number, and the
  identifier is stored in a field of the map, all at once. The head of a list has 80 bytes.
\<close>

definition abuckets_size :: "64 word \<Rightarrow> 64 word" where
  "abuckets_size n = 8 + n * 80"

definition create_buckets :: "64 word \<Rightarrow> ha_object" where
  "create_buckets n = ABuckets n (replicate ((unat (abuckets_size n) - 8) div 80) [])"

definition alloc_buckets ::
  "ha_host \<Rightarrow> nat \<Rightarrow> (oid \<Rightarrow> hashmap_atomic \<Rightarrow> hashmap_atomic) \<Rightarrow> 64 word \<Rightarrow> ha_pool \<Rightarrow> (ha_act, int \<times> ha_pool) run" where
  "alloc_buckets H a set_oid n P =
     (if abuckets_size n > PMEMOBJ_MAX_ALLOC_SIZE then rret (-1, P)
      else case ha_alloc H P of
        None \<Rightarrow> rret (-1, P)
      | Some b \<Rightarrow>
          rbind (tx_do (AtomicOp (\<lambda>Q. apply_act (SetOther a 0 (upd_ha (set_oid \<lparr>pool_uuid_lo = uuid_lo H, oid_off = b\<rparr>)))
            (Q\<lparr>objects := (objects Q)(b \<mapsto> OtherObject (create_buckets n))\<rparr>))) P) (\<lambda>P1.
          rret (0, P1)))"

text \<open>\<open>POBJ_FREE\<close> of the buckets of the map: the memory is freed and the field is null, at once.\<close>

definition free_buckets :: "ha_host \<Rightarrow> nat \<Rightarrow> ha_pool \<Rightarrow> (ha_act, ha_pool) run" where
  "free_buckets H a P =
     rbind (ha_at P a) (\<lambda>m.
     if TOID_IS_NULL (ha_buckets m) then rret P
     else case direct H (ha_buckets m) of
       None \<Rightarrow> rub ''pool of the object''
     | Some b \<Rightarrow> tx_do (AtomicOp (\<lambda>Q. apply_act (SetOther a 0 (upd_ha (\<lambda>m. m\<lparr>ha_buckets := OID_NULL\<rparr>)))
         (Q\<lparr>objects := (objects Q)(b := None)\<rparr>))) P)"

text \<open>The three list operations.\<close>

definition create_entry :: "64 word \<Rightarrow> PMEMoid \<Rightarrow> ha_object" where
  "create_entry k v = AEntry \<lparr>he_key = k, he_value = v\<rparr>"

definition list_insert_new ::
  "ha_host \<Rightarrow> oid \<Rightarrow> nat \<Rightarrow> 64 word \<Rightarrow> PMEMoid \<Rightarrow> ha_pool \<Rightarrow> (ha_act, PMEMoid \<times> ha_pool) run" where
  "list_insert_new H b i k v P =
     rbind (abucket_at H P b i) (\<lambda>_.
     case ha_alloc H P of
       None \<Rightarrow> rret (None, P)
     | Some e \<Rightarrow>
         rbind (tx_do (AtomicOp (\<lambda>Q. apply_act (SetOther (oid_off b) 0 (upd_list i ((#) e)))
           (Q\<lparr>objects := (objects Q)(e \<mapsto> OtherObject (create_entry k v))\<rparr>))) P) (\<lambda>P1.
         rret (Some e, P1)))"

definition list_move ::
  "ha_host \<Rightarrow> oid \<Rightarrow> nat \<Rightarrow> oid \<Rightarrow> nat \<Rightarrow> nat \<Rightarrow> ha_pool \<Rightarrow> (ha_act, int \<times> ha_pool) run" where
  "list_move H b i b' i' e P =
     rbind (abucket_at H P b i) (\<lambda>_.
     rbind (abucket_at H P b' i') (\<lambda>_.
     if \<not> ha_move_ok H P then rret (-1, P)
     else
       rbind (tx_do (AtomicOp (\<lambda>Q. apply_act (SetOther (oid_off b') 0 (upd_list i' ((#) e)))
         (apply_act (SetOther (oid_off b) 0 (upd_list i (remove1 e))) Q))) P) (\<lambda>P1.
       rret (0, P1))))"

definition list_remove_free :: "ha_host \<Rightarrow> oid \<Rightarrow> nat \<Rightarrow> nat \<Rightarrow> ha_pool \<Rightarrow> (ha_act, int \<times> ha_pool) run" where
  "list_remove_free H b i e P =
     rbind (abucket_at H P b i) (\<lambda>_.
     if \<not> ha_remove_ok H P then rret (-1, P)
     else
       rbind (tx_do (AtomicOp (\<lambda>Q. (apply_act (SetOther (oid_off b) 0 (upd_list i (remove1 e))) Q)
         \<lparr>objects := (objects (apply_act (SetOther (oid_off b) 0 (upd_list i (remove1 e))) Q))(e := None)\<rparr>)) P) (\<lambda>P1.
       rret (0, P1)))"

section \<open>Hashing and rebuilding\<close>

definition ha_hash_value :: "hashmap_atomic \<Rightarrow> 64 word \<Rightarrow> 64 word \<Rightarrow> 64 word" where
  "ha_hash_value m len v = ((ucast (ha_fun_a m) * v + ucast (ha_fun_b m)) mod ha_fun_p m) mod len"

definition ha_hash :: "ha_host \<Rightarrow> ha_pool \<Rightarrow> nat \<Rightarrow> oid \<Rightarrow> 64 word \<Rightarrow> ('e, nat) run" where
  "ha_hash H P a b v =
     rbind (ha_at P a) (\<lambda>m.
     rbind (abuckets_at H P b) (\<lambda>(len, ls).
     if ha_fun_p m = 0 \<or> len = 0 then rub ''division by zero'' else rret (unat (ha_hash_value m len v))))"

text \<open>The inner loop of \<open>hm_atomic_rebuild_finish\<close>; a move that fails ends the process.\<close>

partial_function (option) move_list ::
  "ha_host \<Rightarrow> nat \<Rightarrow> oid \<Rightarrow> oid \<Rightarrow> nat \<Rightarrow> ha_pool \<Rightarrow> (ha_act, ha_pool) outcome option" where
  "move_list H a cur tmp i P =
     rbind (abucket_at H P cur i) (\<lambda>l.
     case l of
       [] \<Rightarrow> rret P
     | en # _ \<Rightarrow>
         rbind (aentry_at P en) (\<lambda>e.
         rbind (ha_hash H P a tmp (he_key e)) (\<lambda>h.
         rbind (list_move H cur i tmp h en P) (\<lambda>(ret, P1).
         if ret \<noteq> 0 then Some (Inl (Abort ''move failed'')) else move_list H a cur tmp i P1))))"

fun move_lists :: "ha_host \<Rightarrow> nat \<Rightarrow> oid \<Rightarrow> oid \<Rightarrow> nat list \<Rightarrow> ha_pool \<Rightarrow> (ha_act, ha_pool) run" where
  "move_lists H a cur tmp [] P = rret P"
| "move_lists H a cur tmp (i # is) P =
     rbind (move_list H a cur tmp i P) (\<lambda>P1. move_lists H a cur tmp is P1)"

definition hm_atomic_rebuild_finish :: "ha_host \<Rightarrow> ha_pool \<Rightarrow> nat \<Rightarrow> (ha_act, ha_pool) run" where
  "hm_atomic_rebuild_finish H P a =
     rbind (ha_at P a) (\<lambda>m.
     rbind (abuckets_at H P (ha_buckets m)) (\<lambda>(len, ls).
     rbind (move_lists H a (ha_buckets m) (ha_tmp m) [0..<unat len] P) (\<lambda>P1.
     rbind (free_buckets H a P1) (\<lambda>P2.
     rbind (ha_at P2 a) (\<lambda>m2.
     rbind (store_buckets a (ha_tmp m2) P2) (\<lambda>P3.
     clear_tmp a P3))))))"

definition hm_atomic_rebuild :: "ha_host \<Rightarrow> ha_pool \<Rightarrow> nat \<Rightarrow> 64 word \<Rightarrow> (ha_act, ha_pool) run" where
  "hm_atomic_rebuild H P a new_len0 =
     rbind (ha_at P a) (\<lambda>m.
     rbind (if new_len0 = 0 then rbind (abuckets_at H P (ha_buckets m)) (\<lambda>(len, ls). rret len) else rret new_len0) (\<lambda>new_len.
     rbind (alloc_buckets H a (\<lambda>q m. m\<lparr>ha_tmp := q\<rparr>) new_len P) (\<lambda>(_, P1).
     rbind (ha_at P1 a) (\<lambda>m1.
     if TOID_IS_NULL (ha_tmp m1) then rret P1 else hm_atomic_rebuild_finish H P1 a))))"

section \<open>Inserting and removing\<close>

text \<open>The loops over a list: \<open>None\<close> of the first one says that the key was found.\<close>

fun scan_list :: "ha_pool \<Rightarrow> 64 word \<Rightarrow> nat list \<Rightarrow> int \<Rightarrow> ('e, int option) run" where
  "scan_list P k [] num = rret (Some num)"
| "scan_list P k (a # l) num =
     rbind (aentry_at P a) (\<lambda>e.
     if he_key e = k then rret None else rbind (num_inc num) (\<lambda>num1. scan_list P k l num1))"

fun find_list :: "ha_pool \<Rightarrow> 64 word \<Rightarrow> nat list \<Rightarrow> ('e, PMEMoid) run" where
  "find_list P k [] = rret None"
| "find_list P k (a # l) =
     rbind (aentry_at P a) (\<lambda>e. if he_key e = k then rret (Some a) else find_list P k l)"

definition hm_atomic_insert ::
  "ha_host \<Rightarrow> ha_pool \<Rightarrow> nat \<Rightarrow> 64 word \<Rightarrow> PMEMoid \<Rightarrow> (ha_act, int \<times> ha_pool) run" where
  "hm_atomic_insert H P a k v =
     rbind (ha_at P a) (\<lambda>m.
     rbind (ha_hash H P a (ha_buckets m) k) (\<lambda>h.
     rbind (abucket_at H P (ha_buckets m) h) (\<lambda>l.
     rbind (scan_list P k l 0) (\<lambda>found.
     case found of
       None \<Rightarrow> rret (1, P)
     | Some num \<Rightarrow>
         rbind (store_dirty a 1 P) (\<lambda>P1.
         rbind (list_insert_new H (ha_buckets m) h k v P1) (\<lambda>(e, P2).
         if e = None then rret (-1, P2)
         else
           rbind (ha_at P2 a) (\<lambda>m2.
           rbind (store_count a (ha_count m2 + 1) P2) (\<lambda>P3.
           rbind (store_dirty a 0 P3) (\<lambda>P4.
           rbind (num_inc num) (\<lambda>num1.
           rbind (ha_at P4 a) (\<lambda>m4.
           rbind (abuckets_at H P4 (ha_buckets m)) (\<lambda>(len, ls).
           if num1 > MAX_HASHSET_THRESHOLD \<or> (num1 > MIN_HASHSET_THRESHOLD \<and> ha_count m4 > 2 * len)
           then rbind (hm_atomic_rebuild H P4 a (len * 2)) (\<lambda>P5. rret (0, P5))
           else rret (0, P4)))))))))))))"

text \<open>
  The removal up to its last line gives the entry that was removed, or \<open>None\<close>; the last line then reads the value of
  the entry.
\<close>

definition remove_entry :: "ha_host \<Rightarrow> ha_pool \<Rightarrow> nat \<Rightarrow> 64 word \<Rightarrow> (ha_act, PMEMoid \<times> ha_pool) run" where
  "remove_entry H P a k =
     rbind (ha_at P a) (\<lambda>m.
     rbind (ha_hash H P a (ha_buckets m) k) (\<lambda>h.
     rbind (abucket_at H P (ha_buckets m) h) (\<lambda>l.
     rbind (find_list P k l) (\<lambda>var.
     case var of
       None \<Rightarrow> rret (None, P)
     | Some e \<Rightarrow>
         rbind (store_dirty a 1 P) (\<lambda>P1.
         rbind (list_remove_free H (ha_buckets m) h e P1) (\<lambda>(ret, P2).
         if ret \<noteq> 0 then rret (None, P2)
         else
           rbind (ha_at P2 a) (\<lambda>m2.
           rbind (store_count a (ha_count m2 - 1) P2) (\<lambda>P3.
           rbind (store_dirty a 0 P3) (\<lambda>P4.
           rbind (ha_at P4 a) (\<lambda>m4.
           rbind (abuckets_at H P4 (ha_buckets m)) (\<lambda>(len, ls).
           if ha_count m4 < len
           then rbind (hm_atomic_rebuild H P4 a (len div 2)) (\<lambda>P5. rret (Some e, P5))
           else rret (Some e, P4))))))))))))"

definition hm_atomic_remove :: "ha_host \<Rightarrow> ha_pool \<Rightarrow> nat \<Rightarrow> 64 word \<Rightarrow> (ha_act, PMEMoid \<times> ha_pool) run" where
  "hm_atomic_remove H P a k =
     rbind (remove_entry H P a k) (\<lambda>(var, P1).
     case var of None \<Rightarrow> rret (None, P1) | Some e \<Rightarrow> rbind (aentry_at P1 e) (\<lambda>en. rret (he_value en, P1)))"

section \<open>Searching and traversing\<close>

fun foreach_list ::
  "ha_pool \<Rightarrow> (64 word \<Rightarrow> PMEMoid \<Rightarrow> 's \<Rightarrow> ('e, int \<times> 's) outcome) \<Rightarrow> nat list \<Rightarrow> 's \<Rightarrow> ('e, int \<times> 's) run" where
  "foreach_list P cb [] s = rret (0, s)"
| "foreach_list P cb (a # l) s =
     rbind (aentry_at P a) (\<lambda>e.
     rbind (Some (cb (he_key e) (he_value e) s)) (\<lambda>rs.
     if fst rs \<noteq> 0 then rret rs else foreach_list P cb l (snd rs)))"

fun foreach_lists ::
  "ha_host \<Rightarrow> ha_pool \<Rightarrow> oid \<Rightarrow> (64 word \<Rightarrow> PMEMoid \<Rightarrow> 's \<Rightarrow> ('e, int \<times> 's) outcome) \<Rightarrow> nat list \<Rightarrow> 's \<Rightarrow> ('e, int \<times> 's) run" where
  "foreach_lists H P b cb [] s = rret (0, s)"
| "foreach_lists H P b cb (i # is) s =
     rbind (abucket_at H P b i) (\<lambda>l.
     rbind (foreach_list P cb l s) (\<lambda>rs.
     if fst rs \<noteq> 0 then rret rs else foreach_lists H P b cb is (snd rs)))"

definition hm_atomic_foreach ::
  "ha_host \<Rightarrow> ha_pool \<Rightarrow> nat \<Rightarrow> (64 word \<Rightarrow> PMEMoid \<Rightarrow> 's \<Rightarrow> ('e, int \<times> 's) outcome) \<Rightarrow> 's \<Rightarrow> ('e, int \<times> 's) run" where
  "hm_atomic_foreach H P a cb s =
     rbind (ha_at P a) (\<lambda>m.
     rbind (abuckets_at H P (ha_buckets m)) (\<lambda>(len, ls). foreach_lists H P (ha_buckets m) cb [0..<unat len] s))"

definition hm_atomic_get :: "ha_host \<Rightarrow> ha_pool \<Rightarrow> nat \<Rightarrow> 64 word \<Rightarrow> ('e, PMEMoid) run" where
  "hm_atomic_get H P a k =
     rbind (ha_at P a) (\<lambda>m.
     rbind (ha_hash H P a (ha_buckets m) k) (\<lambda>h.
     rbind (abucket_at H P (ha_buckets m) h) (\<lambda>l.
     rbind (find_list P k l) (\<lambda>var.
     case var of None \<Rightarrow> rret None | Some e \<Rightarrow> rbind (aentry_at P e) (\<lambda>en. rret (he_value en))))))"

definition hm_atomic_lookup :: "ha_host \<Rightarrow> ha_pool \<Rightarrow> nat \<Rightarrow> 64 word \<Rightarrow> ('e, int) run" where
  "hm_atomic_lookup H P a k =
     rbind (ha_at P a) (\<lambda>m.
     rbind (ha_hash H P a (ha_buckets m) k) (\<lambda>h.
     rbind (abucket_at H P (ha_buckets m) h) (\<lambda>l.
     rbind (find_list P k l) (\<lambda>var. rret (if var = None then 0 else 1)))))"

text \<open>The text that \<open>hm_atomic_debug\<close> prints.\<close>

fun debug_list :: "ha_pool \<Rightarrow> nat list \<Rightarrow> int \<Rightarrow> string \<Rightarrow> ('e, int \<times> string) run" where
  "debug_list P [] num out = rret (num, out)"
| "debug_list P (a # l) num out =
     rbind (aentry_at P a) (\<lambda>e.
     rbind (num_inc num) (\<lambda>num1. debug_list P l num1 (out @ to_string (uint (he_key e)) @ '' '')))"

fun debug_lists :: "ha_host \<Rightarrow> ha_pool \<Rightarrow> oid \<Rightarrow> nat list \<Rightarrow> string \<Rightarrow> ('e, string) run" where
  "debug_lists H P b [] out = rret out"
| "debug_lists H P b (i # is) out =
     rbind (abucket_at H P b i) (\<lambda>l.
     if l = [] then debug_lists H P b is out
     else
       rbind (debug_list P l 0 (out @ to_string (int i) @ '': '')) (\<lambda>(num, out1).
       debug_lists H P b is (out1 @ ''('' @ to_string num @ '')'' @ [CHR 0x0A])))"

definition hm_atomic_debug :: "ha_host \<Rightarrow> ha_pool \<Rightarrow> nat \<Rightarrow> ('e, string) run" where
  "hm_atomic_debug H P a =
     rbind (ha_at P a) (\<lambda>m.
     rbind (abuckets_at H P (ha_buckets m)) (\<lambda>(len, ls).
     debug_lists H P (ha_buckets m) [0..<unat len]
       (''a: '' @ to_string (uint (ha_fun_a m)) @ '' b: '' @ to_string (uint (ha_fun_b m)) @
        '' p: '' @ to_string (uint (ha_fun_p m)) @ [CHR 0x0A] @
        ''count: '' @ to_string (uint (ha_count m)) @ '', buckets: '' @ to_string (uint len) @ [CHR 0x0A])))"

section \<open>Creating\<close>

text \<open>
  The stores of \<open>create_hashmap\<close> are made persistent together at its end. The turns of the loop before the last one write 0
  to a field that is 0 already.
\<close>

definition ha_create_hashmap :: "ha_host \<Rightarrow> ha_pool \<Rightarrow> nat \<Rightarrow> 32 word \<Rightarrow> (ha_act, ha_pool) run" where
  "ha_create_hashmap H P a seed =
     rbind (set_ha a 0 (\<lambda>m. m\<lparr>ha_seed := seed\<rparr>) P) (\<lambda>P1.
     Option.bind (draw_nonzero (ha_rand H) 0) (\<lambda>i.
     rbind (set_ha a 1 (\<lambda>m. m\<lparr>ha_fun_a := word_of_int (ha_rand H i)\<rparr>) P1) (\<lambda>P2.
     rbind (set_ha a 2 (\<lambda>m. m\<lparr>ha_fun_b := word_of_int (ha_rand H (Suc i))\<rparr>) P2) (\<lambda>P3.
     rbind (set_ha a 3 (\<lambda>m. m\<lparr>ha_fun_p := HASH_FUNC_COEFF_P\<rparr>) P3) (\<lambda>P4.
     rbind (alloc_buckets H a (\<lambda>q m. m\<lparr>ha_buckets := q\<rparr>) INIT_BUCKETS_NUM P4) (\<lambda>(ret, P5).
     if ret \<noteq> 0 then Some (Inl (Abort ''root alloc failed''))
     else pmemobj_persist a [0, 1, 2, 3, 4, 5, 6, 7, 8, 9] P5))))))"

definition ha_zero :: hashmap_atomic where
  "ha_zero = \<lparr>ha_seed = 0, ha_fun_a = 0, ha_fun_b = 0, ha_fun_p = 0, ha_count = 0, ha_dirty = 0, ha_buckets = OID_NULL, ha_tmp = OID_NULL\<rparr>"

text \<open>\<open>POBJ_ZNEW\<close> allocates the zeroed map and stores its identifier, at once; its result is not looked at.\<close>

definition hm_atomic_create :: "ha_host \<Rightarrow> ha_pool \<Rightarrow> 32 word option \<Rightarrow> (ha_act, int \<times> ha_pool) run" where
  "hm_atomic_create H P args =
     rbind (case ha_alloc H P of
         None \<Rightarrow> rret P
       | Some a \<Rightarrow> tx_do (AtomicOp (\<lambda>Q. Q\<lparr>objects := (objects Q)(a \<mapsto> OtherObject (HashmapAtomic ha_zero)), root_map := Some a\<rparr>)) P) (\<lambda>P1.
     case root_map P1 of
       None \<Rightarrow> rub ''null object''
     | Some a \<Rightarrow>
         rbind (ha_create_hashmap H P1 a (case args of None \<Rightarrow> 0 | Some seed \<Rightarrow> seed)) (\<lambda>P2.
         rret (0, P2)))"

section \<open>Recovering\<close>

text \<open>The loop that counts the entries.\<close>

fun count_lists :: "ha_host \<Rightarrow> ha_pool \<Rightarrow> oid \<Rightarrow> nat list \<Rightarrow> 64 word \<Rightarrow> ('e, 64 word) run" where
  "count_lists H P b [] cnt = rret cnt"
| "count_lists H P b (i # is) cnt =
     rbind (abucket_at H P b i) (\<lambda>l. count_lists H P b is (cnt + of_nat (length l)))"

definition recover_rebuild :: "ha_host \<Rightarrow> ha_pool \<Rightarrow> nat \<Rightarrow> (ha_act, ha_pool) run" where
  "recover_rebuild H P a =
     rbind (ha_at P a) (\<lambda>m.
     if TOID_IS_NULL (ha_tmp m) then rret P
     else if TOID_EQUALS (ha_buckets m) (ha_tmp m) then clear_tmp a P
     else if TOID_IS_NULL (ha_buckets m)
     then rbind (store_buckets a (ha_tmp m) P) (\<lambda>P1. clear_tmp a P1)
     else hm_atomic_rebuild_finish H P a)"

definition recover_count :: "ha_host \<Rightarrow> ha_pool \<Rightarrow> nat \<Rightarrow> (ha_act, ha_pool) run" where
  "recover_count H P a =
     rbind (ha_at P a) (\<lambda>m.
     if ha_dirty m = 0 then rret P
     else
       rbind (abuckets_at H P (ha_buckets m)) (\<lambda>(len, ls).
       rbind (count_lists H P (ha_buckets m) [0..<unat len] 0) (\<lambda>cnt.
       rbind (store_count a cnt P) (\<lambda>P1.
       store_dirty a 0 P1))))"

definition hm_atomic_init :: "ha_host \<Rightarrow> ha_pool \<Rightarrow> nat \<Rightarrow> (ha_act, int \<times> ha_pool) run" where
  "hm_atomic_init H P a =
     rbind (recover_rebuild H P a) (\<lambda>P1.
     rbind (recover_count H P1 a) (\<lambda>P2.
     rret (0, P2)))"

section \<open>The rest of the interface\<close>

definition hm_atomic_check :: "ha_pool \<Rightarrow> PMEMoid \<Rightarrow> ('e, int) run" where
  "hm_atomic_check P mp =
     (case mp of
        None \<Rightarrow> rret 1
      | Some a \<Rightarrow> (case objects P a of
            None \<Rightarrow> rub ''freed object''
          | Some (OtherObject (HashmapAtomic m)) \<Rightarrow> rret 0
          | Some _ \<Rightarrow> rret 1))"

definition hm_atomic_count :: "ha_pool \<Rightarrow> nat \<Rightarrow> ('e, 64 word) run" where
  "hm_atomic_count P a = rbind (ha_at P a) (\<lambda>m. rret (ha_count m))"

definition hm_atomic_cmd :: "ha_host \<Rightarrow> ha_pool \<Rightarrow> nat \<Rightarrow> 32 word \<Rightarrow> 64 word \<Rightarrow> (ha_act, int \<times> ha_pool) run" where
  "hm_atomic_cmd H P a c arg =
     (if c = HASHMAP_CMD_REBUILD then rbind (hm_atomic_rebuild H P a arg) (\<lambda>P1. rret (0, P1))
      else if c = HASHMAP_CMD_DEBUG then
        (if arg = 0 then rret (- EINVAL, P) else rbind (hm_atomic_debug H P a) (\<lambda>_. rret (0, P)))
      else rret (- EINVAL, P))"

end
