(* ===== verification/XF_AtomicRep.thy ===== *)
theory XF_AtomicRep
  imports XF_PAtomic XF_HashmapAtomic XF_HashmapLaws
begin

text \<open>
  Atomic hash maps in the pool: tables with their lists of entries, the states of a map between and during its
  operations, and what stores do to them.
\<close>

section \<open>Tables\<close>

type_synonym ha_heap = "nat \<Rightarrow> ha_object object option"

text \<open>Both hash maps have the same family of hash functions.\<close>

definition as_tx :: "hashmap_atomic \<Rightarrow> hashmap_tx" where
  "as_tx m = \<lparr>hm_seed = 0, hash_fun_a = ha_fun_a m, hash_fun_b = ha_fun_b m, hash_fun_p = ha_fun_p m, hm_count = 0, hm_buckets = None\<rparr>"

lemma ha_hash_value_tx: "ha_hash_value m n k = hash_value (as_tx m) n k"
  by (simp add: ha_hash_value_def hash_value_def as_tx_def)

lemma as_tx_simps [simp]:
  "as_tx (m\<lparr>ha_count := c\<rparr>) = as_tx m" "as_tx (m\<lparr>ha_dirty := d\<rparr>) = as_tx m" "as_tx (m\<lparr>ha_buckets := q\<rparr>) = as_tx m" "as_tx (m\<lparr>ha_tmp := q\<rparr>) = as_tx m"
  by (simp_all add: as_tx_def)

abbreviation entry_object :: "hm_node \<Rightarrow> ha_object object" where
  "entry_object x \<equiv> OtherObject (AEntry \<lparr>he_key = node_key x, he_value = Some (snd (snd x))\<rparr>)"

definition atab :: "ha_heap \<Rightarrow> nat \<Rightarrow> 64 word \<Rightarrow> hm_node list list \<Rightarrow> bool" where
  "atab h b n cs \<longleftrightarrow> h b = Some (OtherObject (ABuckets n (map (map fst) cs))) \<and> (\<forall>x \<in> set (concat cs). h (fst x) = Some (entry_object x))"

definition good :: "ha_host \<Rightarrow> ha_heap \<Rightarrow> hashmap_tx \<Rightarrow> oid \<Rightarrow> hm_node list list \<Rightarrow> bool" where
  "good H h t q cs \<longleftrightarrow> (\<exists>n. pool_uuid_lo q = uuid_lo H \<and> oid_off q \<noteq> 0 \<and> n \<noteq> 0 \<and> 8 + 80 * unat n \<le> unat PMEMOBJ_MAX_ALLOC_SIZE \<and>
     atab h (oid_off q) n cs \<and> placed t n cs)"

lemma goodE:
  assumes "good H h t q cs"
  obtains n where "direct H q = Some (oid_off q)" "pool_uuid_lo q = uuid_lo H" "oid_off q \<noteq> 0" "n \<noteq> 0" "8 + 80 * unat n \<le> unat PMEMOBJ_MAX_ALLOC_SIZE"
    "h (oid_off q) = Some (OtherObject (ABuckets n (map (map fst) cs)))" "length cs = unat n" "placed t n cs"
    "\<And>x. x \<in> set (concat cs) \<Longrightarrow> h (fst x) = Some (entry_object x)"
proof -
  obtain n where *: "pool_uuid_lo q = uuid_lo H" "oid_off q \<noteq> 0" "n \<noteq> 0" "8 + 80 * unat n \<le> unat PMEMOBJ_MAX_ALLOC_SIZE"
     "atab h (oid_off q) n cs" "placed t n cs" using assms by (auto simp: good_def)
  show ?thesis by (rule that [of n]) (use * in \<open>auto simp: direct_def atab_def placed_def\<close>)
qed

lemma good_frame:
  assumes "good H h t q cs" "h' (oid_off q) = h (oid_off q)" "\<And>x. x \<in> fst ` set (concat cs) \<Longrightarrow> h' x = h x"
  shows "good H h' t q cs"
  using assms unfolding good_def atab_def by (metis imageI)

text \<open>An address that holds neither a table nor an entry may change.\<close>

lemma good_other:
  assumes "good H h t q cs" "\<And>n ls. h a \<noteq> Some (OtherObject (ABuckets n ls))" "\<And>e. h a \<noteq> Some (OtherObject (AEntry e))"
  shows "good H (h(a := x)) t q cs"
proof (rule good_frame [OF assms(1)])
  obtain n where g: "h (oid_off q) = Some (OtherObject (ABuckets n (map (map fst) cs)))"
    "\<And>x. x \<in> set (concat cs) \<Longrightarrow> h (fst x) = Some (entry_object x)" by (rule goodE [OF assms(1)]) blast
  show "(h(a := x)) (oid_off q) = h (oid_off q)" using g(1) assms(2) by auto
  show "(h(a := x)) y = h y" if "y \<in> fst ` set (concat cs)" for y using that g(2) assms(3) by auto
qed

section \<open>States of a map\<close>

text \<open>
  All entries are in the buckets, or in the temporary buckets while the pointer to the buckets is null or already
  moved, or in both of them.
\<close>

definition ha_tables :: "ha_host \<Rightarrow> ha_heap \<Rightarrow> hashmap_atomic \<Rightarrow> hm_node list \<Rightarrow> bool" where
  "ha_tables H h m xs \<longleftrightarrow>
     TOID_IS_NULL (ha_tmp m) \<and> (\<exists>cs. good H h (as_tx m) (ha_buckets m) cs \<and> mset (concat cs) = mset xs) \<or>
     (TOID_IS_NULL (ha_buckets m) \<or> TOID_EQUALS (ha_buckets m) (ha_tmp m)) \<and>
       (\<exists>ct. good H h (as_tx m) (ha_tmp m) ct \<and> mset (concat ct) = mset xs) \<or>
     oid_off (ha_buckets m) \<noteq> oid_off (ha_tmp m) \<and>
       (\<exists>cs ct. good H h (as_tx m) (ha_buckets m) cs \<and> good H h (as_tx m) (ha_tmp m) ct \<and> mset (concat cs) + mset (concat ct) = mset xs)"

definition ha_state :: "ha_host \<Rightarrow> ha_pool \<Rightarrow> nat \<Rightarrow> hashmap_atomic \<Rightarrow> hm_node list \<Rightarrow> bool" where
  "ha_state H P a m xs \<longleftrightarrow> objects P a = Some (OtherObject (HashmapAtomic m)) \<and> ha_fun_p m \<noteq> 0 \<and>
     distinct (map fst xs) \<and> distinct (map node_key xs) \<and> ha_tables H (objects P) m xs"

text \<open>The states that the recovery can repair, and those without an interrupted rebuilding and with the right count.\<close>

definition recoverable :: "ha_host \<Rightarrow> PMEMoid \<Rightarrow> (64 word \<rightharpoonup> nat) \<Rightarrow> ha_pool \<Rightarrow> bool" where
  "recoverable H mp M P \<longleftrightarrow> (\<exists>a m xs. mp = Some a \<and> ha_state H P a m xs \<and> M = map_of (map snd xs) \<and>
     (ha_dirty m \<noteq> 0 \<or> ha_count m = of_nat (length xs)))"

definition ha_rep :: "ha_host \<Rightarrow> ha_pool \<Rightarrow> PMEMoid \<Rightarrow> (64 word \<rightharpoonup> nat) \<Rightarrow> bool" where
  "ha_rep H P mp M \<longleftrightarrow> (\<exists>a m xs. mp = Some a \<and> ha_state H P a m xs \<and> TOID_IS_NULL (ha_tmp m) \<and> M = map_of (map snd xs) \<and>
     ha_count m = of_nat (length xs))"

lemma ha_rep_recoverable: "ha_rep H P mp M \<Longrightarrow> recoverable H mp M P"
  unfolding ha_rep_def recoverable_def by blast

abbreviation with_ha :: "ha_pool \<Rightarrow> nat \<Rightarrow> hashmap_atomic \<Rightarrow> ha_pool" where
  "with_ha P a m \<equiv> P\<lparr>objects := (objects P)(a \<mapsto> OtherObject (HashmapAtomic m))\<rparr>"

lemma with_ha_simps [simp]: "objects (with_ha P a m) a = Some (OtherObject (HashmapAtomic m))" "with_ha (with_ha P a m) a m' = with_ha P a m'"
  by simp_all

lemma good_with_ha:
  assumes "objects P a = Some (OtherObject (HashmapAtomic m))" "good H (objects P) t q cs"
  shows "good H (objects (with_ha P a m')) t q cs"
  using good_other [OF assms(2), of a "Some (OtherObject (HashmapAtomic m'))"] assms(1) by simp

lemma tables_with_ha:
  assumes "objects P a = Some (OtherObject (HashmapAtomic m))" "ha_tables H (objects P) m xs" "as_tx m' = as_tx m"
    and "ha_buckets m' = ha_buckets m" "ha_tmp m' = ha_tmp m"
  shows "ha_tables H (objects (with_ha P a m')) m' xs"
  using assms(2) good_with_ha [OF assms(1), of H "as_tx m" _ _ m'] unfolding ha_tables_def assms(3-5) by blast

text \<open>What rebuilding the map leaves as it is: the root object and the places of the entries.\<close>

definition ha_frame :: "ha_pool \<Rightarrow> PMEMoid \<times> nat set" where
  "ha_frame P = (root_map P, {y. \<exists>e. objects P y = Some (OtherObject (AEntry e))})"

lemma ha_frame_upd:
  assumes "\<And>e. objects P y \<noteq> Some (OtherObject (AEntry e))" "\<And>e. x \<noteq> Some (OtherObject (AEntry e))"
  shows "ha_frame (P\<lparr>objects := (objects P)(y := x)\<rparr>) = ha_frame P"
  using assms by (auto simp: ha_frame_def split: if_splits)

lemma ha_frame_upd2:
  assumes "\<And>e. objects P y \<noteq> Some (OtherObject (AEntry e))" "\<And>e. objects P z \<noteq> Some (OtherObject (AEntry e))"
    and "\<And>e. x \<noteq> Some (OtherObject (AEntry e))" "\<And>e. w \<noteq> Some (OtherObject (AEntry e))"
  shows "ha_frame (P\<lparr>objects := (objects P)(y := x, z := w)\<rparr>) = ha_frame P"
  using assms by (auto simp: ha_frame_def split: if_splits)

section \<open>Stores\<close>

lemma ha_at_run [simp]: "objects P a = Some (OtherObject (HashmapAtomic m)) \<Longrightarrow> ha_at P a = rret m"
  by (simp add: ha_at_def)

lemma oid_words [simp]: "p\<lparr>pool_uuid_lo := pool_uuid_lo q, oid_off := oid_off q\<rparr> = (q :: oid)"
  by simp

lemma crash_stores:
  assumes "objects P a = Some (OtherObject (HashmapAtomic m))" "R P"
  shows "R (with_ha P a (m\<lparr>ha_count := c\<rparr>)) \<Longrightarrow> crash_ok R P (store_count a c P) (\<lambda>y P'. y = P' \<and> P' = with_ha P a (m\<lparr>ha_count := c\<rparr>))"
    and "R (with_ha P a (m\<lparr>ha_dirty := d\<rparr>)) \<Longrightarrow> crash_ok R P (store_dirty a d P) (\<lambda>y P'. y = P' \<and> P' = with_ha P a (m\<lparr>ha_dirty := d\<rparr>))"
    and "R (with_ha P a (m\<lparr>ha_tmp := (ha_tmp m)\<lparr>oid_off := 0\<rparr>\<rparr>)) \<Longrightarrow>
      crash_ok R P (clear_tmp a P) (\<lambda>y P'. y = P' \<and> P' = with_ha P a (m\<lparr>ha_tmp := (ha_tmp m)\<lparr>oid_off := 0\<rparr>\<rparr>))"
    and "R (with_ha P a (m\<lparr>ha_buckets := (ha_buckets m)\<lparr>pool_uuid_lo := pool_uuid_lo q\<rparr>\<rparr>)) \<Longrightarrow> R (with_ha P a (m\<lparr>ha_buckets := q\<rparr>)) \<Longrightarrow>
      crash_ok R P (store_buckets a q P) (\<lambda>y P'. y = P' \<and> P' = with_ha P a (m\<lparr>ha_buckets := q\<rparr>))"
proof -
  note defs = store_count_def store_dirty_def clear_tmp_def store_buckets_def set_ha_def pmemobj_persist_def tx_do_def crash_ok_def
  show "crash_ok R P (store_count a c P) (\<lambda>y P'. y = P' \<and> P' = with_ha P a (m\<lparr>ha_count := c\<rparr>))" if "R (with_ha P a (m\<lparr>ha_count := c\<rparr>))"
    using steps_store [of 4 "[4]" R P a "upd_ha (\<lambda>m. m\<lparr>ha_count := c\<rparr>)"] assms that by (simp add: defs)
  show "crash_ok R P (store_dirty a d P) (\<lambda>y P'. y = P' \<and> P' = with_ha P a (m\<lparr>ha_dirty := d\<rparr>))" if "R (with_ha P a (m\<lparr>ha_dirty := d\<rparr>))"
    using steps_store [of 5 "[5]" R P a "upd_ha (\<lambda>m. m\<lparr>ha_dirty := d\<rparr>)"] assms that by (simp add: defs)
  show "crash_ok R P (clear_tmp a P) (\<lambda>y P'. y = P' \<and> P' = with_ha P a (m\<lparr>ha_tmp := (ha_tmp m)\<lparr>oid_off := 0\<rparr>\<rparr>))"
    if "R (with_ha P a (m\<lparr>ha_tmp := (ha_tmp m)\<lparr>oid_off := 0\<rparr>\<rparr>))"
    using steps_store [of 9 "[8, 9]" R P a "upd_ha (\<lambda>m. m\<lparr>ha_tmp := (ha_tmp m)\<lparr>oid_off := 0\<rparr>\<rparr>)"] assms that by (simp add: defs)
  show "crash_ok R P (store_buckets a q P) (\<lambda>y P'. y = P' \<and> P' = with_ha P a (m\<lparr>ha_buckets := q\<rparr>))"
    if "R (with_ha P a (m\<lparr>ha_buckets := (ha_buckets m)\<lparr>pool_uuid_lo := pool_uuid_lo q\<rparr>\<rparr>))" "R (with_ha P a (m\<lparr>ha_buckets := q\<rparr>))"
    using steps_store2 [of 6 "[6, 7]" 7 R P a "upd_ha (\<lambda>m. m\<lparr>ha_buckets := (ha_buckets m)\<lparr>pool_uuid_lo := pool_uuid_lo q\<rparr>\<rparr>)"
      "upd_ha (\<lambda>m. m\<lparr>ha_buckets := (ha_buckets m)\<lparr>oid_off := oid_off q\<rparr>\<rparr>)"] assms that by (simp add: defs)
qed

end
