(* ===== verification/XF_AtomicProps.thy ===== *)
theory XF_AtomicProps
  imports XF_AtomicRep
begin

text \<open>
  The operations of the atomic hash map: what they do to the map it stands for, and that a crash at any moment leaves a
  pool from which the recovery gets the map back.
\<close>

section \<open>Moving entries\<close>

definition moving :: "ha_host \<Rightarrow> nat \<Rightarrow> hashmap_atomic \<Rightarrow> hm_node list \<Rightarrow> PMEMoid \<times> nat set \<Rightarrow> ha_pool \<Rightarrow> hm_node list list \<Rightarrow> hm_node list list \<Rightarrow> bool" where
  "moving H a m xs root P cs ct \<longleftrightarrow> objects P a = Some (OtherObject (HashmapAtomic m)) \<and> ha_frame P = root \<and>
     good H (objects P) (as_tx m) (ha_buckets m) cs \<and> good H (objects P) (as_tx m) (ha_tmp m) ct \<and> mset (concat cs) + mset (concat ct) = mset xs"

definition rebuilding :: "ha_host \<Rightarrow> hashmap_atomic \<Rightarrow> hm_node list \<Rightarrow> bool" where
  "rebuilding H m xs \<longleftrightarrow> ha_fun_p m \<noteq> 0 \<and> distinct (map fst xs) \<and> distinct (map node_key xs) \<and>
     oid_off (ha_buckets m) \<noteq> oid_off (ha_tmp m) \<and> (\<forall>P. ha_move_ok H P)"

lemma moving_state: "rebuilding H m xs \<Longrightarrow> moving H a m xs root P cs ct \<Longrightarrow> ha_state H P a m xs"
  unfolding rebuilding_def moving_def ha_state_def ha_tables_def by blast

lemma set_concat_upd: "set c \<subseteq> set (cs ! i) \<Longrightarrow> i < length cs \<Longrightarrow> set (concat (cs[i := c])) \<subseteq> set (concat cs)"
  using set_update_subset_insert [of cs i c] nth_mem [of i cs] by fastforce

lemma placed_sub:
  assumes "placed t n cs" "set c \<subseteq> set (cs ! i)"
  shows "placed t n (cs[i := c])"
proof -
  have "set (cs[i := c] ! j) \<subseteq> set (cs ! j)" if "j < length cs" for j
    using assms(2) that by (cases "j = i") simp_all
  then show ?thesis using assms(1) unfolding placed_def length_list_update by blast
qed

lemma mset_concat_tl: "i < length cs \<Longrightarrow> cs ! i = x # c \<Longrightarrow> add_mset x (mset (concat (cs[i := c]))) = mset (concat cs)"
proof (induction cs arbitrary: i)
  case (Cons c cs)
  then show ?case by (cases i) simp_all
qed simp

lemma map_put: "map (map fst) (put t n x cs) = (map (map fst) cs)[unat (hash_value t n (node_key x)) := fst x # map (map fst) cs ! unat (hash_value t n (node_key x))]"
  if "unat (hash_value t n (node_key x)) < length cs"
  using that by (simp add: put_def Let_def map_update)

lemma moved_tabs:
  assumes b: "h b = Some (OtherObject (ABuckets n (map (map fst) cs)))" and t: "h t = Some (OtherObject (ABuckets l (map (map fst) ct)))" "b \<noteq> t"
    and e: "\<And>y. y \<in> set (concat cs) \<Longrightarrow> h (fst y) = Some (entry_object y)" "\<And>y. y \<in> set (concat ct) \<Longrightarrow> h (fst y) = Some (entry_object y)"
    and i: "i < length cs" "cs ! i = x # c" and l: "l \<noteq> 0" "length ct = unat l"
  shows "atab (h(b \<mapsto> OtherObject (ABuckets n (map (map fst) (cs[i := c]))), t \<mapsto> OtherObject (ABuckets l (map (map fst) (put s l x ct))))) b n (cs[i := c])"
    "atab (h(b \<mapsto> OtherObject (ABuckets n (map (map fst) (cs[i := c]))), t \<mapsto> OtherObject (ABuckets l (map (map fst) (put s l x ct))))) t l (put s l x ct)"
proof -
  let ?h = "h(b \<mapsto> OtherObject (ABuckets n (map (map fst) (cs[i := c]))), t \<mapsto> OtherObject (ABuckets l (map (map fst) (put s l x ct))))"
  have keep: "?h (fst y) = Some (entry_object y)" if "h (fst y) = Some (entry_object y)" for y
  proof -
    have "fst y \<noteq> b" "fst y \<noteq> t" using that b t(1) by auto
    then show ?thesis using that by simp
  qed
  have "set (concat (cs[i := c])) \<subseteq> set (concat cs)" using set_concat_upd [of c cs i] i by auto
  then have "?h (fst y) = Some (entry_object y)" if "y \<in> set (concat (cs[i := c]))" for y
    by (intro keep e(1)) (rule subsetD [OF _ that])
  then show "atab ?h b n (cs[i := c])" unfolding atab_def using t(2) by simp
  have "x \<in> set (concat cs)" using mset_concat_tl [OF i] by (metis set_mset_mset union_single_eq_member)
  moreover have "set (concat (put s l x ct)) = insert x (set (concat ct))"
    using mset_put [OF l, of s x] by (metis set_mset_add_mset_insert set_mset_mset)
  ultimately have "?h (fst y) = Some (entry_object y)" if "y \<in> set (concat (put s l x ct))" for y
    using that keep [OF e(1)] keep [OF e(2)] by (simp only: insert_iff) blast
  then show "atab ?h t l (put s l x ct)" unfolding atab_def by simp
qed

lemma move_one:
  assumes mv: "moving H a m xs root P cs ct" and i: "i < length cs" "cs ! i = x # c" and r: "rebuilding H m xs"
  shows "\<exists>f. rbind (aentry_at P (fst x)) (\<lambda>e. rbind (ha_hash H P a (ha_tmp m) (he_key e)) (\<lambda>h.
      rbind (list_move H (ha_buckets m) i (ha_tmp m) h (fst x) P) (\<lambda>(ret, P1).
      if ret \<noteq> 0 then Some (Inl (Abort ''move failed'')) else k P1))) = map_option (xemit [AtomicOp f]) (k (f P)) \<and>
    (\<exists>ct'. moving H a m xs root (f P) (cs[i := c]) ct')"
proof -
  let ?b = "oid_off (ha_buckets m)" and ?t = "oid_off (ha_tmp m)"
  have m: "objects P a = Some (OtherObject (HashmapAtomic m))" "ha_frame P = root" "mset (concat cs) + mset (concat ct) = mset xs"
    and g: "good H (objects P) (as_tx m) (ha_buckets m) cs" "good H (objects P) (as_tx m) (ha_tmp m) ct" using mv by (simp_all add: moving_def)
  obtain n where b: "direct H (ha_buckets m) = Some ?b" "pool_uuid_lo (ha_buckets m) = uuid_lo H" "?b \<noteq> 0" "n \<noteq> 0" "8 + 80 * unat n \<le> unat PMEMOBJ_MAX_ALLOC_SIZE"
    "objects P ?b = Some (OtherObject (ABuckets n (map (map fst) cs)))" "length cs = unat n" "placed (as_tx m) n cs"
    "\<And>x. x \<in> set (concat cs) \<Longrightarrow> objects P (fst x) = Some (entry_object x)" by (rule goodE [OF g(1)]) blast
  obtain l where t: "direct H (ha_tmp m) = Some ?t" "pool_uuid_lo (ha_tmp m) = uuid_lo H" "?t \<noteq> 0" "l \<noteq> 0" "8 + 80 * unat l \<le> unat PMEMOBJ_MAX_ALLOC_SIZE"
    "objects P ?t = Some (OtherObject (ABuckets l (map (map fst) ct)))" "length ct = unat l" "placed (as_tx m) l ct"
    "\<And>x. x \<in> set (concat ct) \<Longrightarrow> objects P (fst x) = Some (entry_object x)" by (rule goodE [OF g(2)]) blast
  define h where "h = unat (hash_value (as_tx m) l (node_key x))"
  have h: "h < length ct" using hash_bound [OF t(4)] t(7) by (simp add: h_def)
  have ne: "?b \<noteq> ?t" "ha_move_ok H P" "ha_fun_p m \<noteq> 0" using r by (simp_all add: rebuilding_def)
  have x: "x \<in> set (concat cs)" using mset_concat_tl [OF i] by (metis set_mset_mset union_single_eq_member)
  define f where "f = (\<lambda>Q :: ha_pool. apply_act (SetOther ?t 0 (upd_list h ((#) (fst x)))) (apply_act (SetOther ?b 0 (upd_list i (remove1 (fst x)))) Q))"
  have fP: "f P = P\<lparr>objects := (objects P)(?b \<mapsto> OtherObject (ABuckets n (map (map fst) (cs[i := c]))),
      ?t \<mapsto> OtherObject (ABuckets l (map (map fst) (put (as_tx m) l x ct))))\<rparr>"
    using b(6) t(6) ne(1) i h unfolding f_def by (simp add: map_update map_put [OF h [unfolded h_def]] h_def [symmetric])
  have fQ: "apply_act (SetOther ?t 0 (upd_list h ((#) (fst x)))) (apply_act (SetOther ?b 0 (upd_list i (remove1 (fst x)))) Q) = f Q" for Q
    by (simp only: f_def)
  have run: "rbind (aentry_at P (fst x)) (\<lambda>e. rbind (ha_hash H P a (ha_tmp m) (he_key e)) (\<lambda>h.
      rbind (list_move H (ha_buckets m) i (ha_tmp m) h (fst x) P) (\<lambda>(ret, P1).
      if ret \<noteq> 0 then Some (Inl (Abort ''move failed'')) else k P1))) = map_option (xemit [AtomicOp f]) (k (f P))"
    using b(1,6) t(1,4,6) m(1) b(9) [OF x] ne i(1) h
    by (simp add: aentry_at_def ha_hash_def abuckets_at_def ha_hash_value_tx list_move_def abucket_at_def tx_do_def h_def [symmetric] fQ
      del: apply_act.simps(1-8))
  note tabs = moved_tabs [OF b(6) t(6) ne(1) b(9) t(9) i t(4,7), of "as_tx m"]
  have "placed (as_tx m) n (cs[i := c])" using placed_sub [OF b(8), of c i] i(2) by auto
  then have "good H (objects (f P)) (as_tx m) (ha_buckets m) (cs[i := c])"
    unfolding good_def fP using b(2-5) tabs(1) by (intro exI [of _ n]) simp
  moreover have "good H (objects (f P)) (as_tx m) (ha_tmp m) (put (as_tx m) l x ct)"
    unfolding good_def fP using t(2-5) tabs(2) placed_put [OF t(4,8)] by (intro exI [of _ l]) simp
  moreover have "objects (f P) a = Some (OtherObject (HashmapAtomic m))" "ha_frame (f P) = root"
    using m b(6) t(6) ha_frame_upd2 [of P ?b ?t] by (auto simp: fP)
  moreover have "mset (concat (cs[i := c])) + mset (concat (put (as_tx m) l x ct)) = mset xs"
    unfolding mset_put [OF t(4,7)] m(3) [symmetric] mset_concat_tl [OF i, symmetric] by simp
  ultimately show ?thesis using run unfolding moving_def by blast
qed

lemma move_list_ok:
  assumes r: "rebuilding H m xs" and R: "\<And>P cs ct. moving H a m xs root P cs ct \<Longrightarrow> R P"
  shows "moving H a m xs root P cs ct \<Longrightarrow> i < length cs \<Longrightarrow>
    crash_ok R P (move_list H a (ha_buckets m) (ha_tmp m) i P) (\<lambda>y P'. y = P' \<and> (\<exists>ct'. moving H a m xs root P' (cs[i := []]) ct'))"
proof (induction "cs ! i" arbitrary: P cs ct)
  case Nil
  then obtain n where b: "direct H (ha_buckets m) = Some (oid_off (ha_buckets m))"
    "objects P (oid_off (ha_buckets m)) = Some (OtherObject (ABuckets n (map (map fst) cs)))"
    unfolding moving_def by (auto elim!: goodE)
  have "cs[i := []] = cs" using list_update_id [of cs i] unfolding Nil(1) [symmetric] .
  moreover have "move_list H a (ha_buckets m) (ha_tmp m) i P = rret P"
    using b Nil(1) [symmetric] Nil(3) by (subst move_list.simps) (simp add: abucket_at_def abuckets_at_def)
  ultimately show ?case using R [OF Nil(2)] Nil(2) by (auto intro!: crash_ok_ret)
next
  case (Cons x c)
  obtain n where b: "direct H (ha_buckets m) = Some (oid_off (ha_buckets m))"
    "objects P (oid_off (ha_buckets m)) = Some (OtherObject (ABuckets n (map (map fst) cs)))"
    using Cons.prems(1) unfolding moving_def by (auto elim!: goodE)
  let ?go = "move_list H a (ha_buckets m) (ha_tmp m) i"
  obtain f ct' where step: "rbind (aentry_at P (fst x)) (\<lambda>e. rbind (ha_hash H P a (ha_tmp m) (he_key e)) (\<lambda>h.
      rbind (list_move H (ha_buckets m) i (ha_tmp m) h (fst x) P) (\<lambda>(ret, P1).
      if ret \<noteq> 0 then Some (Inl (Abort ''move failed'')) else ?go P1))) = map_option (xemit [AtomicOp f]) (?go (f P))"
    and f: "moving H a m xs root (f P) (cs[i := c]) ct'"
    using move_one [OF Cons.prems Cons.hyps(2) [symmetric] r, of ?go] by blast
  have run: "?go P = map_option (xemit [AtomicOp f]) (?go (f P))"
    using b Cons.prems(2) Cons.hyps(2) [symmetric]
    by (subst move_list.simps) (simp add: abucket_at_def abuckets_at_def step)
  have "crash_ok R (f P) (move_list H a (ha_buckets m) (ha_tmp m) i (f P)) (\<lambda>y P'. y = P' \<and> (\<exists>ct'. moving H a m xs root P' (cs[i := []]) ct'))"
    using Cons.hyps(1) [of "cs[i := c]" "f P" ct'] f Cons.prems(2) by simp
  then show ?case unfolding run
    by (rule crash_ok_emit [rotated]) (rule steps_atomic [of R P f, OF R [OF Cons.prems(1)] R [OF f]])
qed

lemma move_lists_ok:
  assumes r: "rebuilding H m xs" and R: "\<And>P cs ct. moving H a m xs root P cs ct \<Longrightarrow> R P"
  shows "moving H a m xs root P cs ct \<Longrightarrow> (\<And>i. i \<in> set is \<Longrightarrow> i < length cs) \<Longrightarrow>
    crash_ok R P (move_lists H a (ha_buckets m) (ha_tmp m) is P)
      (\<lambda>y P'. y = P' \<and> (\<exists>ct'. moving H a m xs root P' (fold (\<lambda>i cs. cs[i := []]) is cs) ct'))"
proof (induction "is" arbitrary: P cs ct)
  case Nil
  then show ?case using R by (auto intro!: crash_ok_ret)
next
  case (Cons i "is")
  have i: "i < length cs" using Cons.prems(2) by simp
  show ?case unfolding move_lists.simps
  proof (rule crash_ok_bind [OF move_list_ok [OF r R Cons.prems(1) i]])
    fix y P1 assume "y = P1 \<and> (\<exists>ct'. moving H a m xs root P1 (cs[i := []]) ct')"
    then show "crash_ok R P1 (move_lists H a (ha_buckets m) (ha_tmp m) is y)
      (\<lambda>y P'. y = P' \<and> (\<exists>ct'. moving H a m xs root P' (fold (\<lambda>i cs. cs[i := []]) (i # is) cs) ct'))"
      using Cons.IH [of P1 "cs[i := []]"] Cons.prems(2) by auto
  qed
qed

lemma fold_clear: "k \<le> length cs \<Longrightarrow> fold (\<lambda>i cs. cs[i := []]) [0..<k] cs = replicate k [] @ drop k cs"
proof (induction k)
  case (Suc k)
  then show ?case by (simp add: list_update_append Cons_nth_drop_Suc [symmetric] replicate_app_Cons_same)
qed simp

section \<open>Rebuilding\<close>

text \<open>A map after a rebuilding: no temporary buckets, and the count and the flag as before.\<close>

definition settled :: "ha_host \<Rightarrow> nat \<Rightarrow> hashmap_atomic \<Rightarrow> hm_node list \<Rightarrow> PMEMoid \<times> nat set \<Rightarrow> ha_pool \<Rightarrow> bool" where
  "settled H a m xs root P \<longleftrightarrow> (\<exists>m'. ha_state H P a m' xs \<and> TOID_IS_NULL (ha_tmp m') \<and> ha_count m' = ha_count m \<and> ha_dirty m' = ha_dirty m) \<and> ha_frame P = root"

text \<open>The last steps: the entries are in the temporary buckets, and the pointer to the buckets is null.\<close>

lemma take_tmp_ok:
  assumes m: "objects P a = Some (OtherObject (HashmapAtomic m))" and g: "good H (objects P) (as_tx m) (ha_tmp m) ct" "mset (concat ct) = mset xs"
    and x: "ha_fun_p m \<noteq> 0" "distinct (map fst xs)" "distinct (map node_key xs)" and b: "TOID_IS_NULL (ha_buckets m)"
    and R: "\<And>P m'. ha_state H P a m' xs \<Longrightarrow> ha_count m' = ha_count m \<Longrightarrow> ha_dirty m' = ha_dirty m \<Longrightarrow> R P"
  shows "crash_ok R P (rbind (store_buckets a (ha_tmp m) P) (\<lambda>P3. clear_tmp a P3)) (\<lambda>y P'. y = P' \<and> settled H a m xs (ha_frame P) P')"
proof -
  let ?m1 = "m\<lparr>ha_buckets := (ha_buckets m)\<lparr>pool_uuid_lo := pool_uuid_lo (ha_tmp m)\<rparr>\<rparr>" and ?m2 = "m\<lparr>ha_buckets := ha_tmp m\<rparr>"
  let ?m3 = "?m2\<lparr>ha_tmp := (ha_tmp m)\<lparr>oid_off := 0\<rparr>\<rparr>"
  note gw = good_with_ha [OF m g(1)]
  have s0: "ha_state H P a m xs" using m g x b unfolding ha_state_def ha_tables_def by blast
  have s1: "ha_state H (with_ha P a ?m1) a ?m1 xs"
    using gw [of ?m1] g(2) x b unfolding ha_state_def ha_tables_def by (auto simp: TOID_IS_NULL_def)
  have s2: "ha_state H (with_ha P a ?m2) a ?m2 xs"
    using gw [of ?m2] g(2) x unfolding ha_state_def ha_tables_def by (auto simp: TOID_EQUALS_def)
  have s3: "ha_state H (with_ha P a ?m3) a ?m3 xs"
    using gw [of ?m3] g(2) x unfolding ha_state_def ha_tables_def by (auto simp: TOID_IS_NULL_def)
  have R': "R P" "R (with_ha P a ?m1)" "R (with_ha P a ?m2)" "R (with_ha P a ?m3)"
    by (rule R [OF s0] R [OF s1] R [OF s2] R [OF s3]; simp)+
  show ?thesis
  proof (rule crash_ok_bind [OF crash_stores(4) [OF m R'(1-3)]], clarify)
    have c: "crash_ok R (with_ha P a ?m2) (clear_tmp a (with_ha P a ?m2)) (\<lambda>y P'. y = P' \<and> P' = with_ha (with_ha P a ?m2) a (?m2\<lparr>ha_tmp := (ha_tmp ?m2)\<lparr>oid_off := 0\<rparr>\<rparr>))"
      by (rule crash_stores(3)) (use R'(3,4) in simp_all)
    have "settled H a m xs (ha_frame P) (with_ha P a ?m3)" unfolding settled_def using s3 m ha_frame_upd [of P a] by (auto simp: TOID_IS_NULL_def intro!: exI [of _ ?m3])
    then show "crash_ok R (with_ha P a ?m2) (clear_tmp a (with_ha P a ?m2)) (\<lambda>y P'. y = P' \<and> settled H a m xs (ha_frame P) P')"
      by (intro crash_ok_mono [OF c]) auto
  qed
qed

end
