(* ===== verification/Spec2Isabelle.thy ===== *)
theory Spec2Isabelle
  imports XF_Rounds XF_Command XF_Backtrace XF_PinList XF_System XF_HashDriver XF_AtomicProps
begin

text \<open>
  XFDetector finds bugs of programs that keep their data in persistent memory. The program under test
  runs under a pintool that sends every access to persistent memory into a trace pipe and, at a failure
  point, stops the program and waits. The detector reads the trace, keeps a shadow of the persistent
  memory, starts the recovery of the program on a copy of the memory image, again under the pintool,
  checks every read of the recovery against a copy of the shadow, reports what it finds, and then tells
  the waiting program to go on. This development models the sources under \<open>src/xfdetector\<close> and two of
  the workloads that are tested with them, the crit-bit tree and the transactional hash map of \<open>src/pmdk\<close>
  with the test programs of \<open>src/driver\<close>, and proves what the detector reports, that the parts fit
  together, and where they do not.

  \<^bold>\<open>The parts and their theories\<close>

  \<^item> Prelude. \<open>XF_Prelude\<close>: machine types, the ways a C++ function fails (failed assertion, \<open>ERR\<close>,
    \<open>exit\<close>, uncaught exception, undefined behaviour), the result type \<open>outcome\<close> that carries the
    messages a function emits before it returns, arrays of fixed size, closed address intervals.
    \<open>XF_Strings\<close>: the string functions of the standard libraries the sources use.
  \<^item> Trace format. \<open>XF_Trace\<close>: \<open>include/trace.hh\<close> and the constants of \<open>include/common.hh\<close>.
  \<^item> Interval containers. \<open>XF_ICL\<close>: Boost.ICL is not part of the repository; its maps and sets are
    parameters, records of operations whose laws are the locales \<open>icl_map\<close> and \<open>icl_set\<close>. Sorted lists
    of intervals implement them, so that everything can be evaluated.
  \<^item> Shadow. \<open>XF_Shadow\<close>, \<open>XF_ShadowOps\<close>: the class \<open>ShadowPM\<close> of \<open>include/xfdetector.hh\<close> and every method
    of \<open>src/shadow_pm.cc\<close>, the record \<open>ShadowPM\<close> holding its fields.
  \<^item> Detector. \<open>XF_Detector\<close>: \<open>update_pm_status\<close>, \<open>print_pm_trace\<close> and \<open>locate_bug\<close> of \<open>src/xfdetector.cc\<close>,
    one definition per case of the big switch.
  \<^item> Execution control. \<open>XF_ExeCtrl\<close>: every method of \<open>src/exec_ctrl.cc\<close> and the command strings of
    \<open>common.hh\<close>; system calls are messages, their results arguments.
  \<^item> Pipes and main loop. \<open>XF_Fifo\<close>, \<open>XF_Main\<close>: the class \<open>XFDetectorFIFO\<close> and \<open>main\<close> of \<open>src/xfdetector.cc\<close>.
    What the pipes deliver and the clock shows are arguments (\<open>fifo_input\<close>, \<open>round_input\<close>, \<open>host\<close>).
  \<^item> Pintool. \<open>XF_PinTables\<close>, \<open>XF_Pintool\<close>, \<open>XF_Instrument\<close>, \<open>XF_Backtrace\<close>: the directory \<open>pintool\<close>, with the
    state of the tool in the record \<open>pintool\<close>, the recorders as functions of it, and the
    instrumentation as the list of hooks a function or an instruction gets. The API of PIN is what
    the arguments of the hooks stand for.
  \<^item> Annotations. \<open>XF_Interface\<close>: \<open>src/xfdetector_interface.c\<close>, which the program under test calls, and
    how its internal functions reach the hooks of the pintool.
  \<^item> Persistent objects. \<open>XF_PObj\<close>: a pool of typed objects, transactions on it, and what a crash leaves.
    \<open>libpmemobj\<close> is a parameter, the record \<open>pobj\<close>: where it places objects and whether it has room.
  \<^item> Workloads. \<open>XF_CTree\<close>: every function of \<open>pmdk/src/examples/libpmemobj/tree_map/ctree_map.c\<close>, as runs
    over the pool. \<open>XF_HashmapTx\<close>: every function of \<open>hashmap/hashmap_tx.c\<close>, in the same way, its objects
    being the datatype \<open>hm_object\<close>. \<open>XF_MapOps\<close>, \<open>XF_CTreeMap\<close>, \<open>XF_HashmapMap\<close>: the map interface of \<open>map/map.c\<close>
    and the wrappers and tables of \<open>map/map_ctree.c\<close> and \<open>map/map_hashmap_tx.c\<close>.
  \<^item> Test programs. \<open>XF_Driver\<close>: \<open>driver/data_store.c\<close> and \<open>driver/data_store_hash.c\<close>, from the arguments to
    the exit code, with the annotations they call.

  \<^bold>\<open>What is proved\<close>

  \<^item> Specification and refinement. \<open>XF_ByteSpec\<close> says byte by byte what the detector should do, without
    intervals and containers. \<open>XF_Refine\<close>, \<open>XF_Verdict\<close> and \<open>XF_Detection\<close> show, in the locale \<open>shadow_env\<close>
    for all implementations of the containers, that the trace handler implements it, fails exactly on
    the illegal entries, and reports exactly the specified bugs. \<open>XF_Rounds\<close> extends this to the loops of
    \<open>main\<close>: however the traces are cut into reads, the whole session reports the bugs of the
    specification of all its failure points, and silent or hanging programs end in the time-outs.
  \<^item> Detection. \<open>XF_Detection\<close> and \<open>XF_Recovery\<close>: unflushed writes, data made persistent after its commit
    variable and writes a transaction does not know are reported; flushed, committed and transactional
    data is not.
  \<^item> Invariants. \<open>XF_Invariants\<close>: well-formedness, bounds of the time stamps, nesting levels,
    independence of threads, unreachable reports.
  \<^item> Pintool. \<open>XF_PinProps\<close>, \<open>XF_PinFlow\<close>, \<open>XF_PinList\<close>, \<open>XF_Backtrace\<close>: the entries sent are well formed, only
    the thread in the region of interest is observed, a failure point waits for its answer, the list of
    failure points and the file of backtraces are read back as they were written.
  \<^item> Composition. \<open>XF_Links\<close> goes from an annotation or an instruction to what the detector makes of it.
    \<open>XF_System\<close> lets program, pintool and detector take their steps in any order, as an inductive step
    relation, and shows that a recovery always sees exactly the trace up to its failure point and that a
    waiting program is released.
  \<^item> Commands. \<open>XF_Command\<close>: command strings and vectors, accepted and rejected command lines.

  \<^item> Crit-bit tree. \<open>XF_CTreeSpec\<close> has the trees as a datatype with their critical bits, \<open>XF_CTreeHeap\<close> says
    which tree the objects of a pool form, and \<open>XF_CTreeProps\<close> shows what each operation does to it. The
    contracts of the map interface are the locales \<open>map_base\<close>, which holds for every map, and \<open>map_impl\<close>,
    which gives \<open>map_base\<close>, of \<open>XF_MapOps\<close>; \<open>XF_CTreeMap\<close> interprets the second one on the table of the
    tree. \<open>XF_CTreeCrash\<close>: a crash at any moment of an operation is undone.
  \<^item> Hash map. \<open>XF_HashmapRep\<close> says which chains of entries the objects of a pool form and has rehashing as a
    function on lists of chains; \<open>XF_HashmapProps\<close> and \<open>XF_HashmapRem\<close> show what rebuilding, inserting and removing do to
    the chains, and \<open>XF_HashmapLaws\<close> what every operation does to the finite map, for every hash function of
    the family and every way the library refuses requests. \<open>XF_HashmapMap\<close> interprets \<open>map_base\<close> on the table of the hash
    map. \<open>XF_HashmapCrash\<close>: every transaction adds what it changes, so a crash of an insertion outside a
    transaction leaves the map from before or the map with the new key.
  \<^item> Test programs. \<open>XF_Driver\<close> proves in the locale \<open>store_map\<close>, for every map that keeps the contract, what
    the program inserts, collects and announces, and for the crit-bit tree that it recovers from a crash
    of itself; \<open>XF_HashDriver\<close> has the same for the second program on the hash map.

  \<^bold>\<open>Bounds and loops\<close>

  There is no fuel. The loops over trees and chains, and the one that draws a nonzero random number, are partial
  functions with the value \<open>None\<close> for a run that does not end; the properties show that on a well-formed
  tree or table they end, and that the last one ends when some random number is not 0. The sizes of the hash map are
  computed with 64 bits as in the code, and the number of entries of a bucket is an \<open>int\<close>, so that inserting is
  proved correct below \<open>INT_MAX\<close> keys. The loops that wait for a pipe recurse over the list of what the pipe delivers, and
  the value \<open>None\<close> stands for a loop that is still waiting when the list ends; the properties
  about results say that enough input gives a result. Time stamps, levels and counters are C integers,
  whose overflow is a failure of the model. Addresses are 64-bit words and sums of them wrap around.

  \<^bold>\<open>Not modelled\<close>

  \<^item> Boost.ICL, PIN, the operating system and \<open>addr2line\<close>, which are parameters.
  \<^item> The build option \<open>PMFUZZ\<close> of the annotations, whose macro is not in the repository, and the
    debugging output that is disabled by default.
  \<^item> \<open>libpmemobj\<close> itself, a third-party library; what is assumed of it is that a new object is placed where
    there was none (\<open>fresh_alloc\<close>) and that an aborted transaction is rolled back. Room is what the library
    answers: \<open>has_room\<close> for one object and all snapshots, \<open>rooms\<close> for several objects, \<open>hm_room\<close> for an
    insertion into the hash map with its rebuilding.
  \<^item> The other workloads that come with the detector (the other maps of the \<open>pmdk\<close> examples,
    \<open>memcached-pmem\<close>), whose tables the test programs take as arguments, what the test programs print, the
    release of the map context, \<open>pin-3.13\<close>, the patches that insert bugs, and the shell scripts.
\<close>

end
